(* ===== verification/Prelude.thy ===== *)
theory Prelude
  imports Main "HOL-Library.List_Lexorder" "HOL-Library.Char_ord" "HOL-Library.Sublist"
begin

text \<open>
  Shared material of the development: the theorem collections, the decimal printing and
  reading of numbers, and the operations on JavaScript strings and arrays (\<open>trim\<close>,
  \<open>indexOf\<close>, \<open>splice\<close>) that several pages of the console use, each with the lemmas the
  component theories rely on. Strings are lists of 8-bit code units; \<open><\<close> on them is the
  lexicographic order of \<open>List_Lexorder\<close>, which is how JavaScript compares strings.
\<close>

named_theorems js_defs \<open>definitions of the JavaScript operators\<close>
named_theorems handler_defs \<open>definitions of event handlers\<close>
named_theorems machine_defs \<open>definitions of the browser machine\<close>

section \<open>Decimal numbers\<close>

definition digits :: string where
  "digits = ''0123456789''"

definition digit_char :: "nat \<Rightarrow> char" where
  "digit_char d = digits ! d"

definition digit_val :: "char \<Rightarrow> nat option" where
  "digit_val c = map_of (zip digits [0..<10]) c"

fun show_nat :: "nat \<Rightarrow> string" where
  "show_nat n = (if n < 10 then [digit_char n] else show_nat (n div 10) @ [digit_char (n mod 10)])"

declare show_nat.simps [simp del]

definition show_int :: "int \<Rightarrow> string" where
  "show_int i = (if i < 0 then CHR ''-'' # show_nat (nat (- i)) else show_nat (nat i))"

fun read_acc :: "nat \<Rightarrow> string \<Rightarrow> nat option" where
  "read_acc a [] = Some a"
| "read_acc a (c # cs) =
     (case digit_val c of None \<Rightarrow> None | Some d \<Rightarrow> read_acc (10 * a + d) cs)"

definition read_nat :: "string \<Rightarrow> nat option" where
  "read_nat s = (if s = [] then None else read_acc 0 s)"

lemma less_10_cases: "(n::nat) < 10 \<Longrightarrow> n \<in> {0, 1, 2, 3, 4, 5, 6, 7, 8, 9}"
  by auto

lemma digit_val_char [simp]: "d < 10 \<Longrightarrow> digit_val (digit_char d) = Some d"
  by (drule less_10_cases) (auto simp: digit_val_def digit_char_def digits_def upt_rec)

lemma digit_char_in [simp]: "d < 10 \<Longrightarrow> digit_char d \<in> set digits"
  unfolding digit_char_def by (rule nth_mem) (simp add: digits_def)

lemma digit_val_iff: "digit_val c \<noteq> None \<longleftrightarrow> c \<in> set digits"
  by (auto simp: digit_val_def digits_def upt_rec)

lemma show_nat_nonempty [simp]: "show_nat n \<noteq> []"
  by (subst show_nat.simps) simp

lemma show_nat_digits: "set (show_nat n) \<subseteq> set digits"
proof (induction n rule: show_nat.induct)
  case (1 n)
  then show ?case
    by (subst show_nat.simps) auto
qed

lemma read_acc_append:
  "read_acc a (xs @ ys) = (case read_acc a xs of None \<Rightarrow> None | Some b \<Rightarrow> read_acc b ys)"
  by (induction xs arbitrary: a) (auto split: option.splits)

lemma read_acc_show_nat: "read_acc 0 (show_nat n) = Some n"
proof (induction n rule: show_nat.induct)
  case (1 n)
  then show ?case
    by (subst show_nat.simps) (auto simp: read_acc_append)
qed

lemma read_nat_show_nat [simp]: "read_nat (show_nat n) = Some n"
  by (simp add: read_nat_def read_acc_show_nat)

lemma show_nat_inj [simp]: "show_nat m = show_nat n \<longleftrightarrow> m = n"
  by (metis read_nat_show_nat option.inject)

lemma minus_notin_show_nat [simp]: "CHR ''-'' \<notin> set (show_nat n)"
  using show_nat_digits [of n] by (auto simp: digits_def)

section \<open>White space\<close>

definition is_ws :: "char \<Rightarrow> bool" where
  "is_ws c \<longleftrightarrow> c \<in> {CHR 0x09, CHR 0x0A, CHR 0x0B, CHR 0x0C, CHR 0x0D, CHR 0x20, CHR 0xA0}"

definition trim :: "string \<Rightarrow> string" where
  "trim s = rev (dropWhile is_ws (rev (dropWhile is_ws s)))"

lemma trim_Nil_iff: "trim s = [] \<longleftrightarrow> (\<forall>c \<in> set s. is_ws c)"
proof -
  have "trim s = [] \<longleftrightarrow> (\<forall>c \<in> set (dropWhile is_ws s). is_ws c)"
    by (simp add: trim_def dropWhile_eq_Nil_conv)
  also have "\<dots> \<longleftrightarrow> dropWhile is_ws s = []"
    by (metis dropWhile_eq_Nil_conv empty_iff hd_dropWhile list.set(1) list.set_sel(1))
  finally show ?thesis by (simp add: dropWhile_eq_Nil_conv)
qed

lemma trim_no_ws [simp]: "\<forall>c \<in> set s. \<not> is_ws c \<Longrightarrow> trim s = s"
proof -
  assume a: "\<forall>c \<in> set s. \<not> is_ws c"
  then have "dropWhile is_ws s = s" by (cases s) auto
  moreover from a have "dropWhile is_ws (rev s) = rev s"
    by (cases "rev s") (auto simp: rev_eq_Cons_iff)
  ultimately show ?thesis by (simp add: trim_def)
qed

lemma digits_not_ws: "c \<in> set digits \<Longrightarrow> \<not> is_ws c"
  by (auto simp: digits_def is_ws_def)

lemma show_nat_no_ws: "c \<in> set (show_nat n) \<Longrightarrow> \<not> is_ws c"
  using show_nat_digits digits_not_ws by blast

lemma trim_show_nat [simp]: "trim (show_nat n) = show_nat n"
  by (simp add: show_nat_no_ws)

section \<open>Substrings and array updates\<close>

text \<open>\<open>index_of p s\<close> is \<open>s.indexOf(p)\<close>: \<open>None\<close> stands for the result -1.\<close>

fun index_of :: "string \<Rightarrow> string \<Rightarrow> nat option" where
  "index_of p [] = (if p = [] then Some 0 else None)"
| "index_of p (c # cs) = (if prefix p (c # cs) then Some 0 else map_option Suc (index_of p cs))"

lemma index_of_None_iff: "index_of p s = None \<longleftrightarrow> \<not> sublist p s"
  by (induction p s rule: index_of.induct) (auto simp: sublist_Cons_right)

lemma index_of_single: "index_of [c] s = None \<longleftrightarrow> c \<notin> set s"
  by (induction s) auto

text \<open>\<open>splice1 i xs\<close> is the array after \<open>xs.splice(i, 1)\<close>.\<close>

definition splice1 :: "nat \<Rightarrow> 'a list \<Rightarrow> 'a list" where
  "splice1 i xs = take i xs @ drop (Suc i) xs"

lemma length_splice1 [simp]: "i < length xs \<Longrightarrow> length (splice1 i xs) = length xs - 1"
  by (simp add: splice1_def)

lemma splice1_Cons_0 [simp]: "splice1 0 (x # xs) = xs"
  by (simp add: splice1_def)

lemma splice1_Cons_Suc [simp]: "splice1 (Suc i) (x # xs) = x # splice1 i xs"
  by (simp add: splice1_def)

lemma set_splice1: "set (splice1 i xs) \<subseteq> set xs"
  by (auto simp: splice1_def dest: in_set_takeD in_set_dropD)

lemma splice1_map: "splice1 i (map f xs) = map f (splice1 i xs)"
  by (simp add: splice1_def take_map drop_map)

lemma distinct_splice: "distinct xs \<Longrightarrow> distinct (splice1 i xs)"
  by (auto simp: splice1_def dest: in_set_takeD in_set_dropD simp: set_take_disj_set_drop_if_distinct)

end
