(* ===== verification/JsValue.thy ===== *)
theory JsValue
  imports Prelude
begin

text \<open>
  JavaScript values and the operators of the language the console scripts use: truthiness,
  string conversion, the loose and the strict equality, relational comparison, property
  access (with the \<open>TypeError\<close> it raises on \<open>undefined\<close> and \<open>null\<close>), \<open>parseInt\<close> and
  \<open>JSON.stringify\<close>. Numbers are integers and \<open>NaN\<close> (the scripts handle ids, codes, counts
  and millisecond stamps); a numeric string is a decimal integer literal with an optional
  sign and blanks around it, every other string converts to \<open>NaN\<close>. Objects are their
  own properties in insertion order.
\<close>

datatype jsval =
    JUndef
  | JNull
  | JBool bool
  | JNum int
  | JNaN
  | JStr string
  | JArr "jsval list"
  | JObj "(string \<times> jsval) list"

datatype js_error = TypeError string | ReferenceError string

section \<open>Conversions\<close>

fun truthy :: "jsval \<Rightarrow> bool" where
  "truthy JUndef = False"
| "truthy JNull = False"
| "truthy (JBool b) = b"
| "truthy (JNum n) = (n \<noteq> 0)"
| "truthy JNaN = False"
| "truthy (JStr s) = (s \<noteq> [])"
| "truthy (JArr xs) = True"
| "truthy (JObj fs) = True"

fun join :: "string \<Rightarrow> string list \<Rightarrow> string" where
  "join sep [] = []"
| "join sep [x] = x"
| "join sep (x # xs) = x @ sep @ join sep xs"

text \<open>\<open>js_str v\<close> is \<open>v + ""\<close>; an array prints its elements, \<open>undefined\<close> and \<open>null\<close> as empty.\<close>

fun js_str :: "jsval \<Rightarrow> string" where
  "js_str JUndef = ''undefined''"
| "js_str JNull = ''null''"
| "js_str (JBool b) = (if b then ''true'' else ''false'')"
| "js_str (JNum n) = show_int n"
| "js_str JNaN = ''NaN''"
| "js_str (JStr s) = s"
| "js_str (JArr xs) = join '','' (map (\<lambda>v. if v = JUndef \<or> v = JNull then [] else js_str v) xs)"
| "js_str (JObj fs) = ''[object Object]''"

definition str_num :: "string \<Rightarrow> int option" where
  "str_num s = (case trim s of
       [] \<Rightarrow> Some 0
     | c # cs \<Rightarrow>
         if c = CHR ''-'' then map_option (\<lambda>n. - int n) (read_nat cs)
         else if c = CHR ''+'' then map_option int (read_nat cs)
         else map_option int (read_nat (c # cs)))"

text \<open>\<open>to_num\<close> is the numeric value of a JavaScript value, \<open>None\<close> for \<open>NaN\<close>.\<close>

fun to_num :: "jsval \<Rightarrow> int option" where
  "to_num JUndef = None"
| "to_num JNull = Some 0"
| "to_num (JBool b) = Some (if b then 1 else 0)"
| "to_num (JNum n) = Some n"
| "to_num JNaN = None"
| "to_num (JStr s) = str_num s"
| "to_num (JArr xs) = str_num (js_str (JArr xs))"
| "to_num (JObj fs) = None"

section \<open>Equality and order\<close>

text \<open>The strict equality \<open>===\<close>, on primitive values.\<close>

definition js_seq :: "jsval \<Rightarrow> jsval \<Rightarrow> bool" where
  [js_defs]: "js_seq a b \<longleftrightarrow> a = b \<and> a \<noteq> JNaN"

definition nullish :: "jsval \<Rightarrow> bool" where
  [js_defs]: "nullish v \<longleftrightarrow> v = JUndef \<or> v = JNull"

definition num_eq :: "jsval \<Rightarrow> jsval \<Rightarrow> bool" where
  "num_eq a b \<longleftrightarrow> to_num a = to_num b \<and> to_num a \<noteq> None"

text \<open>
  The loose equality \<open>==\<close>: \<open>undefined\<close> and \<open>null\<close> equal each other only; two strings compare
  as strings, a string and an object as strings; every other pair as numbers.
\<close>

fun js_eq :: "jsval \<Rightarrow> jsval \<Rightarrow> bool" where
  "js_eq (JStr s) (JStr t) = (s = t)"
| "js_eq (JStr s) (JArr ys) = (s = js_str (JArr ys))"
| "js_eq (JStr s) (JObj fs) = (s = js_str (JObj fs))"
| "js_eq (JArr xs) (JStr t) = (js_str (JArr xs) = t)"
| "js_eq (JObj fs) (JStr t) = (js_str (JObj fs) = t)"
| "js_eq a b = (if nullish a \<or> nullish b then nullish a \<and> nullish b else num_eq a b)"

text \<open>The relational operator \<open>a > b\<close>: two strings lexicographically, otherwise as numbers.\<close>

fun js_gt :: "jsval \<Rightarrow> jsval \<Rightarrow> bool" where
  "js_gt (JStr s) (JStr t) = (t < s)"
| "js_gt a b = (case (to_num a, to_num b) of (Some m, Some n) \<Rightarrow> n < m | _ \<Rightarrow> False)"

text \<open>\<open>a + b\<close> concatenates when an operand is a string or an object; \<open>a - b\<close> is numeric.\<close>

fun is_stringy :: "jsval \<Rightarrow> bool" where
  "is_stringy (JStr s) = True"
| "is_stringy (JArr xs) = True"
| "is_stringy (JObj fs) = True"
| "is_stringy v = False"

definition js_add :: "jsval \<Rightarrow> jsval \<Rightarrow> jsval" where
  "js_add a b = (if is_stringy a \<or> is_stringy b then JStr (js_str a @ js_str b)
     else case (to_num a, to_num b) of (Some m, Some n) \<Rightarrow> JNum (m + n) | _ \<Rightarrow> JNaN)"

definition js_sub :: "jsval \<Rightarrow> jsval \<Rightarrow> jsval" where
  "js_sub a b = (case (to_num a, to_num b) of (Some m, Some n) \<Rightarrow> JNum (m - n) | _ \<Rightarrow> JNaN)"

lemma js_arith_num [simp]:
  "js_add (JNum m) (JNum n) = JNum (m + n)" "js_sub (JNum m) (JNum n) = JNum (m - n)"
  by (simp_all add: js_add_def js_sub_def)

lemma js_eq_num [simp]: "js_eq (JNum m) (JNum n) \<longleftrightarrow> m = n"
  by (simp add: nullish_def num_eq_def)

lemma js_eq_str [simp]: "js_eq (JStr s) (JStr t) \<longleftrightarrow> s = t"
  by simp

lemma js_eq_bool_num [simp]: "js_eq (JBool b) (JNum n) \<longleftrightarrow> n = (if b then 1 else 0)"
  by (auto simp: nullish_def num_eq_def)

lemma js_eq_undef_num [simp]: "\<not> js_eq JUndef (JNum n)" "\<not> js_eq JNull (JNum n)"
  by (simp_all add: nullish_def)

lemma js_gt_num [simp]: "js_gt (JNum m) (JNum n) \<longleftrightarrow> n < m"
  by simp

lemma js_gt_str [simp]: "js_gt (JStr s) (JStr t) \<longleftrightarrow> t < s"
  by simp

lemma js_gt_undef_num [simp]: "\<not> js_gt JUndef (JNum n)"
  by simp

lemma js_eq_null: "js_eq v JNull \<longleftrightarrow> nullish v"
  by (cases v) (auto simp: nullish_def num_eq_def)

lemma str_num_show_nat [simp]: "str_num (show_nat n) = Some (int n)"
proof -
  obtain c cs where cs: "show_nat n = c # cs"
    using show_nat_nonempty [of n] by (cases "show_nat n") auto
  have "c \<in> set digits" using show_nat_digits [of n] cs by auto
  then have "c \<noteq> CHR ''-''" and "c \<noteq> CHR ''+''" by (auto simp: digits_def)
  moreover have "read_nat (c # cs) = Some n" by (simp flip: cs)
  moreover have "trim (c # cs) = c # cs" by (simp flip: cs)
  ultimately show ?thesis by (simp add: str_num_def cs)
qed

lemma js_eq_printed_id [simp]: "js_eq (JStr (show_nat m)) (JNum (int n)) \<longleftrightarrow> m = n"
  by (simp add: nullish_def num_eq_def)

declare js_eq.simps [simp del] js_gt.simps [simp del]
declare js_eq_str [simp] js_gt_str [simp]

section \<open>Property access\<close>

text \<open>\<open>get_prop v k\<close> is \<open>v.k\<close>; \<open>None\<close> is the \<open>TypeError\<close> of a read on \<open>undefined\<close> or \<open>null\<close>.\<close>

fun get_prop :: "jsval \<Rightarrow> string \<Rightarrow> jsval option" where
  "get_prop JUndef k = None"
| "get_prop JNull k = None"
| "get_prop (JObj fs) k = Some (case map_of fs k of None \<Rightarrow> JUndef | Some v \<Rightarrow> v)"
| "get_prop (JArr xs) k = Some (if k = ''length'' then JNum (int (length xs)) else JUndef)"
| "get_prop (JStr s) k = Some (if k = ''length'' then JNum (int (length s)) else JUndef)"
| "get_prop v k = Some JUndef"

fun has_prop :: "jsval \<Rightarrow> string \<Rightarrow> bool" where
  "has_prop (JObj fs) k = (map_of fs k \<noteq> None)"
| "has_prop v k = False"

text \<open>\<open>v.k = x\<close>: the property is replaced in place or appended; primitives ignore it.\<close>

fun put :: "string \<Rightarrow> jsval \<Rightarrow> (string \<times> jsval) list \<Rightarrow> (string \<times> jsval) list" where
  "put k x [] = [(k, x)]"
| "put k x ((k', y) # fs) = (if k' = k then (k, x) # fs else (k', y) # put k x fs)"

fun set_prop :: "jsval \<Rightarrow> string \<Rightarrow> jsval \<Rightarrow> jsval" where
  "set_prop (JObj fs) k x = JObj (put k x fs)"
| "set_prop v k x = v"

text \<open>\<open>a || b\<close>.\<close>

definition js_or :: "jsval \<Rightarrow> jsval \<Rightarrow> jsval" where
  [js_defs]: "js_or a b = (if truthy a then a else b)"

text \<open>The elements of an array-like value.\<close>

fun elems :: "jsval \<Rightarrow> jsval list" where
  "elems (JArr xs) = xs"
| "elems (JStr s) = map (\<lambda>c. JStr [c]) s"
| "elems v = []"

text \<open>\<open>get_props k xs\<close> reads \<open>x.k\<close> for every \<open>x\<close> of \<open>xs\<close> in order, failing at the first failure.\<close>

fun get_props :: "string \<Rightarrow> jsval list \<Rightarrow> jsval list option" where
  "get_props k [] = Some []"
| "get_props k (x # xs) = (case get_prop x k of None \<Rightarrow> None
     | Some v \<Rightarrow> map_option (Cons v) (get_props k xs))"

lemma map_of_put: "map_of (put k x fs) = (map_of fs)(k \<mapsto> x)"
  by (induction fs) auto

lemma get_prop_set_prop:
  "get_prop (set_prop (JObj fs) k x) j = (if j = k then Some x else get_prop (JObj fs) j)"
  by (simp add: map_of_put)

lemma get_prop_None_iff: "get_prop v k = None \<longleftrightarrow> nullish v"
  by (cases v) (auto simp: nullish_def)

lemma get_prop_nullish [simp]: "nullish v \<Longrightarrow> get_prop v k = None"
  by (simp add: get_prop_None_iff)

lemma get_prop_SomeD: "get_prop v k = Some x \<Longrightarrow> \<not> nullish v"
  by (metis get_prop_None_iff option.distinct(1))

lemma get_props_None_iff: "get_props k xs = None \<longleftrightarrow> (\<exists>x \<in> set xs. nullish x)"
proof (induction xs)
  case (Cons x xs)
  then show ?case by (cases "get_prop x k") (auto dest: get_prop_SomeD simp: get_prop_None_iff)
qed simp

lemma length_get_props: "get_props k xs = Some vs \<Longrightarrow> length vs = length xs"
  by (induction xs arbitrary: vs) (auto split: option.splits)

section \<open>parseInt\<close>

definition hex_val :: "char \<Rightarrow> nat option" where
  "hex_val c = map_of (zip ''0123456789abcdefABCDEF'' ([0..<16] @ [10..<16])) c"

definition read_hex :: "string \<Rightarrow> nat option" where
  "read_hex s = (case takeWhile (\<lambda>c. hex_val c \<noteq> None) s of
      [] \<Rightarrow> None
    | ds \<Rightarrow> Some (foldl (\<lambda>a c. 16 * a + the (hex_val c)) 0 ds))"

text \<open>\<open>parseInt(s)\<close> without a radix: blanks, a sign, then a \<open>0x\<close> literal or decimal digits.\<close>

definition js_parseInt :: "string \<Rightarrow> jsval" where
  "js_parseInt s =
     (let t = dropWhile is_ws s;
          neg = (t \<noteq> [] \<and> hd t = CHR ''-'');
          u = (if t \<noteq> [] \<and> (hd t = CHR ''-'' \<or> hd t = CHR ''+'') then tl t else t);
          r = (if take 2 u = ''0x'' \<or> take 2 u = ''0X'' then read_hex (drop 2 u)
               else read_nat (takeWhile (\<lambda>c. c \<in> set digits) u))
      in case r of None \<Rightarrow> JNaN | Some n \<Rightarrow> JNum (if neg then - int n else int n))"

lemma parseInt_show_nat [simp]: "js_parseInt (show_nat n) = JNum (int n)"
proof -
  obtain c cs where cs: "show_nat n = c # cs"
    using show_nat_nonempty [of n] by (cases "show_nat n") auto
  have in_digits: "set (c # cs) \<subseteq> set digits" using show_nat_digits [of n] cs by simp
  then have "c \<in> set digits" by simp
  then have c: "c \<noteq> CHR ''-''" "c \<noteq> CHR ''+''" "\<not> is_ws c"
    using digits_not_ws by (auto simp: digits_def)
  have tw: "takeWhile (\<lambda>c. c \<in> set digits) (c # cs) = c # cs"
    using in_digits by (simp add: takeWhile_eq_all_conv subset_iff)
  have "read_nat (c # cs) = Some n" by (simp flip: cs)
  moreover have "take 2 (c # cs) \<noteq> ''0x''" "take 2 (c # cs) \<noteq> ''0X''"
    using in_digits by (cases cs; auto simp: digits_def)+
  ultimately show ?thesis using c tw by (auto simp: js_parseInt_def cs Let_def)
qed

section \<open>JSON.stringify\<close>

definition hex_digit :: "nat \<Rightarrow> char" where
  "hex_digit d = ''0123456789abcdef'' ! d"

definition json_esc :: "char \<Rightarrow> string" where
  "json_esc c =
     (if c = CHR 0x22 then [CHR 0x5C, CHR 0x22]
      else if c = CHR 0x5C then [CHR 0x5C, CHR 0x5C]
      else if c = CHR 0x08 then [CHR 0x5C, CHR ''b'']
      else if c = CHR 0x09 then [CHR 0x5C, CHR ''t'']
      else if c = CHR 0x0A then [CHR 0x5C, CHR ''n'']
      else if c = CHR 0x0C then [CHR 0x5C, CHR ''f'']
      else if c = CHR 0x0D then [CHR 0x5C, CHR ''r'']
      else if (of_char c :: nat) < 32
        then [CHR 0x5C, CHR ''u'', CHR ''0'', CHR ''0'',
              hex_digit (of_char c div 16), hex_digit (of_char c mod 16)]
      else [c])"

definition json_quote :: "string \<Rightarrow> string" where
  "json_quote s = CHR 0x22 # concat (map json_esc s) @ [CHR 0x22]"

fun json_str :: "jsval \<Rightarrow> string" where
  "json_str JUndef = ''null''"
| "json_str JNull = ''null''"
| "json_str (JBool b) = (if b then ''true'' else ''false'')"
| "json_str (JNum n) = show_int n"
| "json_str JNaN = ''null''"
| "json_str (JStr s) = json_quote s"
| "json_str (JArr xs) = ''['' @ join '','' (map json_str xs) @ '']''"
| "json_str (JObj fs) = ''{'' @ join '',''
     (map (\<lambda>kv. json_quote (fst kv) @ '':'' @ json_str (snd kv))
       (filter (\<lambda>kv. snd kv \<noteq> JUndef) fs)) @ ''}''"

text \<open>
  A reader for the arrays of numeric ids the console sends: what the server recovers from
  the text.
\<close>

fun split_at :: "char \<Rightarrow> string \<Rightarrow> string list" where
  "split_at c [] = [[]]"
| "split_at c (x # xs) =
     (if x = c then [] # split_at c xs
      else case split_at c xs of [] \<Rightarrow> [[x]] | w # ws \<Rightarrow> (x # w) # ws)"

fun read_all :: "string list \<Rightarrow> nat list option" where
  "read_all [] = Some []"
| "read_all (s # ss) =
     (case read_nat s of None \<Rightarrow> None | Some n \<Rightarrow> map_option (Cons n) (read_all ss))"

definition read_id_array :: "string \<Rightarrow> nat list option" where
  "read_id_array s =
     (if s = ''[]'' then Some []
      else if s \<noteq> [] \<and> hd s = CHR ''['' \<and> last s = CHR '']''
        then read_all (split_at (CHR '','') (butlast (tl s))) else None)"

lemma split_at_none [simp]: "c \<notin> set s \<Longrightarrow> split_at c s = [s]"
  by (induction s) auto

lemma split_at_append:
  "c \<notin> set w \<Longrightarrow> split_at c (w @ c # s) = w # split_at c s"
  by (induction w) auto

lemma comma_notin_show_nat [simp]: "CHR '','' \<notin> set (show_nat n)"
  using show_nat_digits [of n] by (auto simp: digits_def)

lemma split_join_ids:
  "ns \<noteq> [] \<Longrightarrow> split_at (CHR '','') (join '','' (map show_nat ns)) = map show_nat ns"
proof (induction ns rule: induct_list012)
  case (3 m n ns)
  then show ?case by (simp add: split_at_append)
qed auto

lemma read_all_show: "read_all (map show_nat ns) = Some ns"
  by (induction ns) auto

lemma json_ids: "json_str (JArr (map (\<lambda>n. JNum (int n)) ns)) =
    ''['' @ join '','' (map show_nat ns) @ '']''"
proof -
  have "map json_str (map (\<lambda>n. JNum (int n)) ns) = map show_nat ns"
    by (simp add: show_int_def)
  then show ?thesis by (metis json_str.simps(7))
qed

lemma join_ids_nonempty: "ns \<noteq> [] \<Longrightarrow> join '','' (map show_nat ns) \<noteq> []"
  by (induction ns rule: induct_list012) auto

lemma read_id_array_json:
  "read_id_array (json_str (JArr (map (\<lambda>n. JNum (int n)) ns))) = Some ns"
proof (cases "ns = []")
  case True
  then show ?thesis by (simp add: read_id_array_def)
next
  case False
  have "butlast (join '','' (map show_nat ns) @ '']'') = join '','' (map show_nat ns)"
    by (simp add: butlast_append)
  with False show ?thesis
    unfolding json_ids read_id_array_def
    by (auto simp: split_join_ids read_all_show join_ids_nonempty)
qed

end
