(* ===== verification/Browser.thy ===== *)
theory Browser
  imports JsValue
begin

text \<open>
  The browser the console scripts run in, as an event-driven machine.

  A handler is a \<open>prog\<close>: a tree of effects on the page (\<open>Do\<close>), reads of the page (\<open>Ask\<close>),
  server requests with their success and error callbacks (\<open>Ajax\<close>, for \<open>$.ajax\<close> and
  \<open>$http.get\<close>), dialogs with the callback of their confirm button (\<open>Swal\<close>) and uncaught
  exceptions (\<open>Throw\<close>). \<open>exec\<close> runs a handler until it returns, throws or blocks on a
  synchronous request (\<open>async: false\<close>); callbacks wait in the state (\<open>sys\<close>) until an event
  fires them. The events are the user's (click, confirm, cancel, edit, select a row, mark text) and the
  network's (a reply to a pending request); \<open>step\<close> is the relation of one event, \<open>steps\<close>
  of a sequence of them, for a page with the set \<open>H\<close> of handlers. The dialog follows the
  bundled SweetAlert, the table methods the bundled bootstrap-table. Button colours and
  captions, animations and CSS are not modelled; message texts are given in English.
\<close>

section \<open>Programs\<close>

record swal_opts =
  sw_title :: jsval
  sw_text :: jsval
  sw_type :: string
  sw_html :: bool
  sw_cancel :: bool
  sw_close :: bool

record ajax_req =
  rq_url :: string
  rq_type :: string
  rq_async :: bool
  rq_ctype :: string
  rq_dtype :: string
  rq_data :: jsval

record table_opts =
  t_data :: jsval
  t_url :: string
  t_columns :: "(string \<times> string) list"

text \<open>
  The callback of a dialog: none, a function without parameters (called on confirm only), or
  a function of the input (called with \<open>false\<close> on cancel too).
\<close>

datatype cbkind = NoCallback | Thunk | TakesInput

datatype effect =
    SetVal string jsval
  | SetText string jsval
  | SetAttr string string jsval
  | RemoveAttr string string
  | AddClass string string
  | RemoveClass string string
  | RemoveEl string
  | EmptyOptions string
  | AppendOption string jsval jsval
  | Alert jsval
  | ModalShow string
  | ModalHide string
  | Goto string
  | Reload
  | HistoryBack
  | TableInit string table_opts
  | TableRemove string string jsval
  | TableLoad string jsval
  | TableRefresh string string
  | InputError jsval
  | CloseSwal
  | ScopeSet string jsval
  | NewSelect string "(jsval \<times> jsval) list"
  | ShowTab string
  | LoadFrame string
  | Uncaught js_error
  | PickerInit string jsval jsval
  | PickerUpdate string
  | NewChart string
  | ShowLoading string string
  | HideLoading string
  | AddSeries string jsval
  | AppendRow string string "(string \<times> jsval) list"
  | RemoveRow string string "string list"
  | SetCursor string nat nat
  | Message string jsval
  | Progress bool
  | AddTab string
  | SelectOnly string jsval

datatype query =
    QVal string
  | QSelections string
  | QScope string
  | QSelectedText string
  | QCount string
  | QFirstOption string
  | QMarkedText string

datatype prog =
    Done
  | Throw js_error
  | Do effect prog
  | Ask query "jsval \<Rightarrow> prog"
  | Ajax ajax_req "jsval \<Rightarrow> prog" "jsval \<Rightarrow> prog" prog
  | Swal swal_opts cbkind "jsval \<Rightarrow> prog" prog

text \<open>Induction over programs, with the hypotheses for every answer of a continuation.\<close>

lemma prog_induct [case_names Done Throw Do Ask Ajax Swal, induct type: prog]:
  assumes "P Done" and "\<And>e. P (Throw e)" and "\<And>e p. P p \<Longrightarrow> P (Do e p)"
    and "\<And>q k. (\<And>v. P (k v)) \<Longrightarrow> P (Ask q k)"
    and "\<And>r ok bad p. (\<And>v. P (ok v)) \<Longrightarrow> (\<And>v. P (bad v)) \<Longrightarrow> P p \<Longrightarrow> P (Ajax r ok bad p)"
    and "\<And>opt c k p. (\<And>v. P (k v)) \<Longrightarrow> P p \<Longrightarrow> P (Swal opt c k p)"
  shows "P p"
  by (rule prog.induct) (auto intro: assms)

text \<open>Sequencing: an exception of the first part skips the second, a blocking request keeps it.\<close>

primrec seq :: "prog \<Rightarrow> prog \<Rightarrow> prog" where
  "seq Done q = q"
| "seq (Throw e) q = Throw e"
| "seq (Do e p) q = Do e (seq p q)"
| "seq (Ask qu k) q = Ask qu (\<lambda>v. seq (k v) q)"
| "seq (Ajax r ok bad p) q = Ajax r ok bad (seq p q)"
| "seq (Swal opt c k p) q = Swal opt c k (seq p q)"

text \<open>
  The rest of a handler after the callback of its synchronous request: the callback runs as an
  event listener of the request, so an exception it throws is reported and the rest still runs.
\<close>

primrec after :: "prog \<Rightarrow> prog \<Rightarrow> prog" where
  "after Done q = q"
| "after (Throw e) q = Do (Uncaught e) q"
| "after (Do e p) q = Do e (after p q)"
| "after (Ask qu k) q = Ask qu (\<lambda>v. after (k v) q)"
| "after (Ajax r ok bad p) q = Ajax r ok bad (after p q)"
| "after (Swal opt c k p) q = Swal opt c k (after p q)"

section \<open>The page\<close>

record chart =
  ch_series :: "jsval list"
  ch_loading :: "string option"

type_synonym dialog = "swal_opts \<times> cbkind \<times> (jsval \<Rightarrow> prog)"
type_synonym pending = "ajax_req \<times> (jsval \<Rightarrow> prog) \<times> (jsval \<Rightarrow> prog)"
type_synonym blocking = "ajax_req \<times> (jsval \<Rightarrow> prog) \<times> (jsval \<Rightarrow> prog) \<times> prog"

record sys =
  vals :: "string \<rightharpoonup> jsval"
  rows :: "string \<Rightarrow> (jsval \<times> bool) list"
  opts :: "string \<Rightarrow> (jsval \<times> jsval) list"
  attrs :: "string \<Rightarrow> string \<rightharpoonup> jsval"
  classes :: "string \<Rightarrow> string \<Rightarrow> bool"
  scope :: "string \<Rightarrow> jsval"
  charts :: "string \<Rightarrow> chart"
  cursor :: "string \<Rightarrow> nat \<times> nat"
  log :: "effect list"
  dlg :: "dialog option"
  pend :: "pending list"
  blocked :: "blocking option"
  sent :: "ajax_req list"
  errs :: "js_error list"

definition empty_sys :: sys where
  "empty_sys = \<lparr>vals = Map.empty, rows = (\<lambda>_. []), opts = (\<lambda>_. []), attrs = (\<lambda>_. Map.empty),
     classes = (\<lambda>_ _. False), scope = (\<lambda>_. JUndef),
     charts = (\<lambda>_. \<lparr>ch_series = [], ch_loading = None\<rparr>), cursor = (\<lambda>_. (0, 0)), log = [], dlg = None, pend = [],
     blocked = None, sent = [], errs = []\<rparr>"

text \<open>
  \<open>$.inArray(v, values)\<close> is not -1: \<open>Array.prototype.indexOf\<close> called on \<open>values\<close>, so a number
  (which has no \<open>length\<close>) holds nothing and a string holds its characters.
\<close>

definition in_array :: "jsval \<Rightarrow> jsval \<Rightarrow> bool" where
  "in_array v values \<longleftrightarrow> list_ex (\<lambda>x. js_seq x v) (elems values)"

definition table_keeps :: "string \<Rightarrow> jsval \<Rightarrow> jsval \<Rightarrow> bool" where
  "table_keeps field values row \<longleftrightarrow>
     \<not> (has_prop row field \<and>
        in_array (case get_prop row field of None \<Rightarrow> JUndef | Some v \<Rightarrow> v) values)"

text \<open>
  What the value setter of a form field stores: a string, empty for \<open>null\<close> and \<open>undefined\<close>; a
  drop-down list without such an option is left with nothing selected.
\<close>

definition field_text :: "jsval \<Rightarrow> jsval" where
  "field_text v = JStr (if nullish v then [] else js_str v)"

fun apply_effect :: "effect \<Rightarrow> sys \<Rightarrow> sys" where
  "apply_effect (SetVal i v) s =
     (case vals s i of None \<Rightarrow> s | Some _ \<Rightarrow> s\<lparr>vals := (vals s)(i \<mapsto>
        (if opts s i = [] \<or> field_text v \<in> set (map fst (opts s i)) then field_text v else JNull))\<rparr>)"
| "apply_effect (SetAttr i a v) s = s\<lparr>attrs := (attrs s)(i := (attrs s i)(a \<mapsto> v))\<rparr>"
| "apply_effect (RemoveAttr i a) s = s\<lparr>attrs := (attrs s)(i := (attrs s i)(a := None))\<rparr>"
| "apply_effect (AddClass i c) s = s\<lparr>classes := (classes s)(i := (classes s i)(c := True))\<rparr>"
| "apply_effect (RemoveClass i c) s = s\<lparr>classes := (classes s)(i := (classes s i)(c := False))\<rparr>"
| "apply_effect (EmptyOptions i) s =
     s\<lparr>opts := (opts s)(i := []),
       vals := (case vals s i of None \<Rightarrow> vals s | Some _ \<Rightarrow> (vals s)(i \<mapsto> JNull))\<rparr>"
| "apply_effect (AppendOption i v t) s =
     s\<lparr>opts := (opts s)(i := opts s i @ [(field_text v, t)]),
       vals := (if opts s i = [] \<and> vals s i \<noteq> None then (vals s)(i \<mapsto> field_text v) else vals s)\<rparr>"
| "apply_effect (NewSelect i os) s =
     s\<lparr>opts := (opts s)(i := map (\<lambda>(v, t). (field_text v, t)) os),
       vals := (vals s)(i \<mapsto> (case os of [] \<Rightarrow> JNull | (v, t) # _ \<Rightarrow> field_text v))\<rparr>"
| "apply_effect (Uncaught e) s = s\<lparr>errs := errs s @ [e]\<rparr>"
| "apply_effect (TableInit i t) s =
     s\<lparr>rows := (rows s)(i := map (\<lambda>r. (r, False)) (elems (t_data t)))\<rparr>"
| "apply_effect (TableRemove i f values) s =
     s\<lparr>rows := (rows s)(i := filter (\<lambda>r. table_keeps f values (fst r)) (rows s i))\<rparr>"
| "apply_effect (TableLoad i d) s =
     s\<lparr>rows := (rows s)(i := map (\<lambda>r. (r, False)) (elems d))\<rparr>"
| "apply_effect CloseSwal s = s\<lparr>dlg := None\<rparr>"
| "apply_effect (ScopeSet k v) s = s\<lparr>scope := (scope s)(k := v)\<rparr>"
| "apply_effect (NewChart c) s =
     s\<lparr>charts := (charts s)(c := \<lparr>ch_series = [], ch_loading = None\<rparr>)\<rparr>"
| "apply_effect (ShowLoading c m) s =
     s\<lparr>charts := (charts s)(c := (charts s c)\<lparr>ch_loading := Some m\<rparr>)\<rparr>"
| "apply_effect (HideLoading c) s =
     s\<lparr>charts := (charts s)(c := (charts s c)\<lparr>ch_loading := None\<rparr>)\<rparr>"
| "apply_effect (AddSeries c v) s =
     s\<lparr>charts := (charts s)(c := (charts s c)\<lparr>ch_series := ch_series (charts s c) @ [v]\<rparr>)\<rparr>"
| "apply_effect (AppendRow i k fs) s =
     s\<lparr>rows := (rows s)(i := rows s i @ [(JObj [(''id'', JStr k)], False)]),
       vals := (\<lambda>f. case vals s f of None \<Rightarrow> map_of fs f | Some v \<Rightarrow> Some v)\<rparr>"
| "apply_effect (RemoveRow i k fs) s =
     s\<lparr>rows := (rows s)(i := filter (\<lambda>r. get_prop (fst r) ''id'' \<noteq> Some (JStr k)) (rows s i)),
       vals := (\<lambda>f. if f \<in> set fs \<and> list_ex (\<lambda>r. get_prop (fst r) ''id'' = Some (JStr k)) (rows s i)
         then None else vals s f)\<rparr>"
| "apply_effect (SelectOnly i k) s = s\<lparr>rows := (rows s)(i := map (\<lambda>r. (fst r,
     case get_prop (fst r) ''id'' of None \<Rightarrow> False | Some v \<Rightarrow> js_str v = js_str k)) (rows s i))\<rparr>"
| "apply_effect (SetCursor i a b) s = s\<lparr>cursor := (cursor s)(i := (a, b))\<rparr>"
| "apply_effect e s = s"

text \<open>
  \<open>AppendRow\<close> and \<open>RemoveRow\<close> are rows of plain HTML that bring and take their form fields \<open>fs\<close>; of
  two fields with one id a selector finds the first, so an appended field never hides an older one.
\<close>

text \<open>Every effect is also recorded, in order, in \<open>log\<close>.\<close>

definition do_effect :: "effect \<Rightarrow> sys \<Rightarrow> sys" where
  [machine_defs]: "do_effect e s = (apply_effect e s)\<lparr>log := log s @ [e]\<rparr>"

fun answer :: "query \<Rightarrow> sys \<Rightarrow> jsval" where
  "answer (QVal i) s = (case vals s i of None \<Rightarrow> JUndef | Some v \<Rightarrow> v)"
| "answer (QSelections t) s = JArr (map fst (filter snd (rows s t)))"
| "answer (QScope k) s = scope s k"
| "answer (QSelectedText i) s =
     (case vals s i of None \<Rightarrow> JStr []
      | Some v \<Rightarrow> (case find (\<lambda>p. fst p = v) (opts s i) of
            None \<Rightarrow> JStr [] | Some p \<Rightarrow> snd p))"
| "answer (QCount i) s = JNum (int (length (rows s i)))"
| "answer (QFirstOption i) s = (case opts s i of [] \<Rightarrow> JUndef | (v, t) # _ \<Rightarrow> v)"
| "answer (QMarkedText i) s =
     (case vals s i of None \<Rightarrow> JUndef
      | Some v \<Rightarrow> JStr (take (snd (cursor s i) - fst (cursor s i)) (drop (fst (cursor s i)) (js_str v))))"

primrec exec :: "prog \<Rightarrow> sys \<Rightarrow> sys" where
  "exec Done = (\<lambda>s. s)"
| "exec (Throw e) = (\<lambda>s. do_effect (Uncaught e) s)"
| "exec (Do e p) = (\<lambda>s. exec p (do_effect e s))"
| "exec (Ask q k) = (\<lambda>s. exec (k (answer q s)) s)"
| "exec (Ajax r ok bad p) = (\<lambda>s.
     if rq_async r
     then exec p (s\<lparr>pend := pend s @ [(r, ok, bad)], sent := sent s @ [r]\<rparr>)
     else s\<lparr>blocked := Some (r, ok, bad, p), sent := sent s @ [r]\<rparr>)"
| "exec (Swal opt c k p) = (\<lambda>s. exec p (s\<lparr>dlg := Some (opt, c, k)\<rparr>))"

section \<open>Events\<close>

datatype event =
    Click prog
  | Confirm string
  | Cancel
  | Reply nat bool jsval
  | SyncReply bool jsval
  | Edit string jsval
  | Select string nat bool
  | Mark string nat nat

text \<open>
  SweetAlert's confirm button passes the input's text, or \<open>true\<close> where the dialog has no
  input, and then closes the dialog if \<open>closeOnConfirm\<close> is set; its cancel button calls a
  callback that has a parameter with \<open>false\<close>, and closes. A dialog without callback just closes.
\<close>

definition confirm_value :: "swal_opts \<Rightarrow> string \<Rightarrow> jsval" where
  "confirm_value opt t = (if sw_type opt = ''input'' then JStr t else JBool True)"

fun confirm_prog :: "string \<Rightarrow> dialog \<Rightarrow> prog" where
  "confirm_prog t (opt, NoCallback, k) = Do CloseSwal Done"
| "confirm_prog t (opt, c, k) =
     seq (k (confirm_value opt t)) (if sw_close opt then Do CloseSwal Done else Done)"

fun cancel_prog :: "dialog \<Rightarrow> prog" where
  "cancel_prog (opt, TakesInput, k) = seq (k (JBool False)) (Do CloseSwal Done)"
| "cancel_prog (opt, c, k) = Do CloseSwal Done"

definition select_row :: "string \<Rightarrow> nat \<Rightarrow> bool \<Rightarrow> sys \<Rightarrow> sys" where
  "select_row t i b s =
     (if i < length (rows s t)
      then s\<lparr>rows := (rows s)(t := (rows s t)[i := (fst (rows s t ! i), b)])\<rparr> else s)"

text \<open>A drop-down list only takes the values of its options.\<close>

definition can_edit :: "string \<Rightarrow> jsval \<Rightarrow> sys \<Rightarrow> bool" where
  "can_edit i v s \<longleftrightarrow> vals s i \<noteq> None \<and> (opts s i = [] \<or> v \<in> set (map fst (opts s i)))"

text \<open>\<open>fire e s\<close> is the state after event \<open>e\<close>; an event that cannot happen in \<open>s\<close> changes nothing.\<close>

fun fire :: "event \<Rightarrow> sys \<Rightarrow> sys" where
  "fire (Click p) s = (case blocked s of None \<Rightarrow> exec p s | Some _ \<Rightarrow> s)"
| "fire (Confirm t) s = (case (blocked s, dlg s) of
     (None, Some d) \<Rightarrow> exec (confirm_prog t d) s | _ \<Rightarrow> s)"
| "fire Cancel s = (case (blocked s, dlg s) of
     (None, Some d) \<Rightarrow> exec (cancel_prog d) s | _ \<Rightarrow> s)"
| "fire (Reply i good v) s = (case blocked s of
     None \<Rightarrow>
       if i < length (pend s)
       then (case pend s ! i of (r, ok, bad) \<Rightarrow>
               exec (if good then ok v else bad v) (s\<lparr>pend := splice1 i (pend s)\<rparr>))
       else s
   | Some _ \<Rightarrow> s)"
| "fire (SyncReply good v) s = (case blocked s of
     None \<Rightarrow> s
   | Some (r, ok, bad, p) \<Rightarrow>
       exec (after (if good then ok v else bad v) p) (s\<lparr>blocked := None\<rparr>))"
| "fire (Edit i v) s = (case blocked s of
     None \<Rightarrow> if can_edit i v s then s\<lparr>vals := (vals s)(i \<mapsto> v)\<rparr> else s | Some _ \<Rightarrow> s)"
| "fire (Select t i b) s = (case blocked s of None \<Rightarrow> select_row t i b s | Some _ \<Rightarrow> s)"
| "fire (Mark i a b) s = (case blocked s of None \<Rightarrow> s\<lparr>cursor := (cursor s)(i := (a, b))\<rparr> | Some _ \<Rightarrow> s)"

text \<open>When an event can happen, and that a sequence of possible events is a run of the page.\<close>

fun possible :: "event \<Rightarrow> sys \<Rightarrow> bool" where
  "possible (Click p) s = (case blocked s of None \<Rightarrow> True | Some _ \<Rightarrow> False)"
| "possible (Confirm t) s = (case (blocked s, dlg s) of (None, Some _) \<Rightarrow> True | _ \<Rightarrow> False)"
| "possible Cancel s = (case (blocked s, dlg s) of (None, Some _) \<Rightarrow> True | _ \<Rightarrow> False)"
| "possible (Reply i g v) s = (case blocked s of None \<Rightarrow> i < length (pend s) | Some _ \<Rightarrow> False)"
| "possible (SyncReply g v) s = (case blocked s of None \<Rightarrow> False | Some _ \<Rightarrow> True)"
| "possible (Edit i v) s = (case blocked s of None \<Rightarrow> can_edit i v s | Some _ \<Rightarrow> False)"
| "possible (Select t i b) s = (case blocked s of None \<Rightarrow> True | Some _ \<Rightarrow> False)"
| "possible (Mark i a b) s = (case blocked s of None \<Rightarrow> True | Some _ \<Rightarrow> False)"

fun all_possible :: "sys \<Rightarrow> event list \<Rightarrow> bool" where
  "all_possible s [] = True"
| "all_possible s (e # es) = (possible e s \<and> all_possible (fire e s) es)"

fun clicked :: "event list \<Rightarrow> prog list" where
  "clicked [] = []"
| "clicked (Click p # es) = p # clicked es"
| "clicked (e # es) = clicked es"

definition run :: "sys \<Rightarrow> event list \<Rightarrow> sys" where
  "run s es = foldl (\<lambda>s e. fire e s) s es"

lemma run_simps [simp]:
  "run s [] = s"
  "run s (e # es) = run (fire e s) es"
  by (simp_all add: run_def)

text \<open>The step relation of a page with handlers \<open>H\<close>: one rule per kind of event.\<close>

inductive step :: "prog set \<Rightarrow> sys \<Rightarrow> event \<Rightarrow> sys \<Rightarrow> bool" for H :: "prog set" where
  click: "p \<in> H \<Longrightarrow> blocked s = None \<Longrightarrow> step H s (Click p) (exec p s)"
| confirm: "dlg s = Some d \<Longrightarrow> blocked s = None \<Longrightarrow>
    step H s (Confirm t) (exec (confirm_prog t d) s)"
| cancel: "dlg s = Some d \<Longrightarrow> blocked s = None \<Longrightarrow>
    step H s Cancel (exec (cancel_prog d) s)"
| reply: "i < length (pend s) \<Longrightarrow> pend s ! i = (r, ok, bad) \<Longrightarrow> blocked s = None \<Longrightarrow>
    step H s (Reply i good v)
      (exec (if good then ok v else bad v) (s\<lparr>pend := splice1 i (pend s)\<rparr>))"
| sync: "blocked s = Some (r, ok, bad, p) \<Longrightarrow>
    step H s (SyncReply good v) (exec (after (if good then ok v else bad v) p) (s\<lparr>blocked := None\<rparr>))"
| edit: "can_edit i v s \<Longrightarrow> blocked s = None \<Longrightarrow>
    step H s (Edit i v) (s\<lparr>vals := (vals s)(i \<mapsto> v)\<rparr>)"
| select: "blocked s = None \<Longrightarrow> step H s (Select t i b) (select_row t i b s)"
| mark: "blocked s = None \<Longrightarrow> step H s (Mark i a b) (s\<lparr>cursor := (cursor s)(i := (a, b))\<rparr>)"

inductive steps :: "prog set \<Rightarrow> sys \<Rightarrow> event list \<Rightarrow> sys \<Rightarrow> bool" for H :: "prog set" where
  none: "steps H s [] s"
| more: "steps H s es t \<Longrightarrow> step H t e u \<Longrightarrow> steps H s (es @ [e]) u"

inductive_cases step_ClickE [elim]: "step H s (Click p) t"
inductive_cases step_ConfirmE [elim]: "step H s (Confirm x) t"
inductive_cases step_CancelE [elim]: "step H s Cancel t"
inductive_cases step_ReplyE [elim]: "step H s (Reply i g v) t"

lemma step_fire: "step H s e t \<Longrightarrow> t = fire e s"
  by (cases rule: step.cases) (auto split: option.splits)

lemma step_deterministic: "step H s e t \<Longrightarrow> step H s e u \<Longrightarrow> t = u"
  by (auto dest: step_fire)

lemma steps_run: "steps H s es t \<Longrightarrow> t = run s es"
proof (induction rule: steps.induct)
  case (more s es t e u)
  then show ?case by (auto dest!: step_fire simp: run_def)
qed simp

lemma steps_single: "step H s e t \<Longrightarrow> steps H s [e] t"
  using steps.more [OF steps.none] by fastforce

lemma steps_append: "steps H t fs u \<Longrightarrow> steps H s es t \<Longrightarrow> steps H s (es @ fs) u"
proof (induction rule: steps.induct)
  case (more t fs u e v)
  then show ?case by (metis append_assoc steps.more)
qed simp

lemma steps_Cons: "step H s e t \<Longrightarrow> steps H t es u \<Longrightarrow> steps H s (e # es) u"
  using steps_append [OF _ steps_single] by fastforce

lemma step_possible:
  assumes "possible e s" and "set (clicked [e]) \<subseteq> H"
  shows "step H s e (fire e s)"
proof (cases e)
  case (Reply i g v)
  obtain r ok bad where "pend s ! i = (r, ok, bad)" by (cases "pend s ! i")
  then show ?thesis
    using assms step.reply [of i s r ok bad H g v] Reply by (auto split: option.splits)
next
  case (SyncReply g v)
  then obtain r ok bad p where "blocked s = Some (r, ok, bad, p)"
    using assms(1) by (auto split: option.splits)
  then show ?thesis using step.sync [of s r ok bad p H g v] SyncReply by auto
qed (use assms in \<open>auto split: option.splits intro: step.intros\<close>)

lemma steps_possible: "all_possible s es \<Longrightarrow> set (clicked es) \<subseteq> H \<Longrightarrow> steps H s es (run s es)"
proof (induction es arbitrary: s)
  case (Cons e es)
  have "set (clicked [e]) \<subseteq> H" "set (clicked es) \<subseteq> H" using Cons.prems(2) by (cases e; simp)+
  then show ?case using Cons step_possible [of e s H] by (simp add: steps_Cons)
qed (simp add: steps.none)

end
