(* ===== verification/Handlers.thy ===== *)
theory Handlers
  imports Browser
begin

text \<open>
  The idioms the console's handlers share: property reads that may throw, dialogs, form posts
  and the row loop of the batch operations; and the confirmation discipline of a page: a
  handler is disciplined for a class \<open>M\<close> of requests when every request of the class is sent
  from the confirm callback of a dialog, at most once per callback. The locale
  \<open>confirmed_page\<close> turns that syntactic discipline of the handlers into a safety property of
  every event sequence of the page.
\<close>

section \<open>Idioms\<close>

definition read_prop :: "jsval \<Rightarrow> string \<Rightarrow> (jsval \<Rightarrow> prog) \<Rightarrow> prog" where
  "read_prop v k f = (case get_prop v k of None \<Rightarrow> Throw (TypeError k) | Some x \<Rightarrow> f x)"

definition swal1 :: "string \<Rightarrow> prog \<Rightarrow> prog" where
  "swal1 t p = Swal \<lparr>sw_title = JStr t, sw_text = JStr [], sw_type = [], sw_html = False,
     sw_cancel = False, sw_close = True\<rparr> NoCallback (\<lambda>_. Done) p"

definition swal3 :: "string \<Rightarrow> jsval \<Rightarrow> string \<Rightarrow> prog \<Rightarrow> prog" where
  "swal3 t x ty p = Swal \<lparr>sw_title = JStr t, sw_text = (if truthy x then x else JStr []),
     sw_type = ty, sw_html = False, sw_cancel = False, sw_close = True\<rparr> NoCallback (\<lambda>_. Done) p"

definition swal_html :: "string \<Rightarrow> string \<Rightarrow> string \<Rightarrow> prog \<Rightarrow> prog" where
  "swal_html t x ty p = Swal \<lparr>sw_title = JStr t, sw_text = JStr x, sw_type = ty, sw_html = True,
     sw_cancel = False, sw_close = True\<rparr> NoCallback (\<lambda>_. Done) p"

text \<open>A dialog with a confirm and a cancel button that stays open on confirm.\<close>

definition ask_confirm :: "string \<Rightarrow> string \<Rightarrow> string \<Rightarrow> prog \<Rightarrow> prog \<Rightarrow> prog" where
  "ask_confirm t x ty body p = Swal \<lparr>sw_title = JStr t, sw_text = JStr x, sw_type = ty,
     sw_html = False, sw_cancel = True, sw_close = False\<rparr> Thunk (\<lambda>_. body) p"

definition ask_input :: "string \<Rightarrow> string \<Rightarrow> (jsval \<Rightarrow> prog) \<Rightarrow> prog \<Rightarrow> prog" where
  "ask_input t x body p = Swal \<lparr>sw_title = JStr t, sw_text = JStr x, sw_type = ''input'',
     sw_html = False, sw_cancel = True, sw_close = False\<rparr> TakesInput body p"

text \<open>
  A dialog whose text is a drop-down list: opening it puts the list \<open>i\<close> with its options on the
  page, the first one selected.
\<close>

definition quoted :: "string \<Rightarrow> string" where
  "quoted s = CHR 0x27 # s @ [CHR 0x27]"

text \<open>The \<open>onclick\<close> text of a row's button: a call with its arguments in single quotes.\<close>

definition onclick :: "string \<Rightarrow> string list \<Rightarrow> string" where
  "onclick f args = f @ ''('' @ join '','' (map quoted args) @ '');''"

definition prop_text :: "jsval \<Rightarrow> string \<Rightarrow> string" where
  "prop_text row k = (case get_prop row k of None \<Rightarrow> ''undefined'' | Some v \<Rightarrow> js_str v)"

definition select_html :: "string \<Rightarrow> (string \<times> string) list \<Rightarrow> string" where
  "select_html i os = ''<select class='form-control' id='' @ quoted i @ '' style='height: 33px'>'' @
     concat (map (\<lambda>(v, t). ''<option value='' @ quoted v @ ''>'' @ t @ ''</option>'') os) @
     ''</select>''"

definition ask_select :: "string \<Rightarrow> string \<Rightarrow> (string \<times> string) list \<Rightarrow> prog \<Rightarrow> prog \<Rightarrow> prog" where
  "ask_select t i os body p =
     Do (NewSelect i (map (\<lambda>(v, x). (JStr v, JStr x)) os))
       (Swal \<lparr>sw_title = JStr t, sw_text = JStr (select_html i os), sw_type = [],
          sw_html = True, sw_cancel = True, sw_close = False\<rparr> Thunk (\<lambda>_. body) p)"

definition ask_select_input ::
    "string \<Rightarrow> string \<Rightarrow> (string \<times> string) list \<Rightarrow> (jsval \<Rightarrow> prog) \<Rightarrow> prog \<Rightarrow> prog" where
  "ask_select_input t i os body p =
     Do (NewSelect i (map (\<lambda>(v, x). (JStr v, JStr x)) os))
       (Swal \<lparr>sw_title = JStr t, sw_text = JStr (select_html i os), sw_type = ''input'',
          sw_html = True, sw_cancel = True, sw_close = False\<rparr> TakesInput body p)"

definition form_type :: string where
  "form_type = ''application/x-www-form-urlencoded; charset=UTF-8''"

definition form_post :: "string \<Rightarrow> (string \<times> jsval) list \<Rightarrow> ajax_req" where
  "form_post u d = \<lparr>rq_url = u, rq_type = ''post'', rq_async = True, rq_ctype = form_type,
     rq_dtype = ''json'', rq_data = JObj d\<rparr>"

definition form_post_sync :: "string \<Rightarrow> (string \<times> jsval) list \<Rightarrow> ajax_req" where
  "form_post_sync u d = (form_post u d)\<lparr>rq_async := False\<rparr>"

definition http_get :: "string \<Rightarrow> ajax_req" where
  "http_get u = \<lparr>rq_url = u, rq_type = ''get'', rq_async = True, rq_ctype = [],
     rq_dtype = [], rq_data = JUndef\<rparr>"

definition http_get_sync :: "string \<Rightarrow> ajax_req" where
  "http_get_sync u = (http_get u)\<lparr>rq_async := False\<rparr>"

text \<open>\<open>if (v.code === 0) ... else ...\<close>, the test every reply goes through.\<close>

definition if_code0 :: "jsval \<Rightarrow> prog \<Rightarrow> prog \<Rightarrow> prog" where
  "if_code0 v p q = read_prop v ''code'' (\<lambda>c. if js_seq c (JNum 0) then p else q)"

text \<open>The usual success callback: \<open>p\<close> on code 0, otherwise the reply's message in an error dialog.\<close>

definition on_reply :: "prog \<Rightarrow> string \<Rightarrow> jsval \<Rightarrow> prog" where
  "on_reply p t v = if_code0 v p (read_prop v ''msg'' (\<lambda>m. swal3 t m ''error'' Done))"

text \<open>The usual error callbacks: a fixed text, or the request object itself as the text.\<close>

definition call_admin :: "string \<Rightarrow> jsval \<Rightarrow> prog" where
  "call_admin t v = swal3 t (JStr ''please contact the administrator!'') ''error'' Done"

definition show_failure :: "string \<Rightarrow> jsval \<Rightarrow> prog" where
  "show_failure t v = swal3 t v ''error'' Done"

text \<open>The data of a successful reply and the message of a failed one.\<close>

definition ok_reply :: "jsval \<Rightarrow> jsval" where
  "ok_reply d = JObj [(''code'', JNum 0), (''data'', d)]"

definition bad_reply :: "int \<Rightarrow> string \<Rightarrow> jsval" where
  "bad_reply c m = JObj [(''code'', JNum c), (''msg'', JStr m)]"

text \<open>
  The loop of the batch handlers over the selected rows: the first row with a refused status
  ends the handler; otherwise the ids are collected in order.
\<close>

fun collect_ids :: "(jsval \<Rightarrow> bool) \<Rightarrow> prog \<Rightarrow> jsval list \<Rightarrow> (jsval list \<Rightarrow> prog) \<Rightarrow> prog" where
  "collect_ids bad refuse [] k = k []"
| "collect_ids bad refuse (r # rs) k =
     read_prop r ''status'' (\<lambda>st. if bad st then refuse
       else read_prop r ''id'' (\<lambda>i. collect_ids bad refuse rs (\<lambda>is. k (i # is))))"

text \<open>The ids of the selected rows, in order.\<close>

fun push_ids :: "jsval list \<Rightarrow> (jsval list \<Rightarrow> prog) \<Rightarrow> prog" where
  "push_ids [] k = k []"
| "push_ids (r # rs) k = read_prop r ''id'' (\<lambda>i. push_ids rs (\<lambda>is. k (i # is)))"

text \<open>The same for any property, and for the objects a page builds from each row.\<close>

fun push_props :: "string \<Rightarrow> jsval list \<Rightarrow> (jsval list \<Rightarrow> prog) \<Rightarrow> prog" where
  "push_props f [] k = k []"
| "push_props f (r # rs) k = read_prop r f (\<lambda>v. push_props f rs (\<lambda>vs. k (v # vs)))"

fun for_each :: "('a \<Rightarrow> prog \<Rightarrow> prog) \<Rightarrow> 'a list \<Rightarrow> prog \<Rightarrow> prog" where
  "for_each f [] p = p"
| "for_each f (x # xs) p = f x (for_each f xs p)"

declare read_prop_def [handler_defs] swal1_def [handler_defs] swal3_def [handler_defs]
  swal_html_def [handler_defs] ask_confirm_def [handler_defs] ask_input_def [handler_defs]
  ask_select_def [handler_defs] ask_select_input_def [handler_defs] on_reply_def [handler_defs]
  call_admin_def [handler_defs] show_failure_def [handler_defs]
  form_post_def [handler_defs] form_post_sync_def [handler_defs] http_get_def [handler_defs]
  http_get_sync_def [handler_defs] if_code0_def [handler_defs]

section \<open>Laws of programs\<close>

lemma seq_Done [simp]: "seq p Done = p"
  by (induction p) auto

lemma seq_assoc: "seq (seq p q) r = seq p (seq q r)"
  by (induction p) auto

text \<open>No step of a program that neither blocks nor throws is lost: \<open>seq\<close> is composition.\<close>

primrec runs_through :: "prog \<Rightarrow> bool" where
  "runs_through Done = True"
| "runs_through (Throw e) = False"
| "runs_through (Do e p) = runs_through p"
| "runs_through (Ask q k) = (\<forall>v. runs_through (k v))"
| "runs_through (Ajax r ok bad p) = (rq_async r \<and> runs_through p)"
| "runs_through (Swal opt c k p) = runs_through p"

lemma exec_seq: "runs_through p \<Longrightarrow> exec (seq p q) s = exec q (exec p s)"
  by (induction p arbitrary: s) auto

text \<open>A program without synchronous requests runs to its end, or to an exception.\<close>

primrec nonblocking :: "prog \<Rightarrow> bool" where
  "nonblocking Done = True"
| "nonblocking (Throw e) = True"
| "nonblocking (Do e p) = nonblocking p"
| "nonblocking (Ask q k) = (\<forall>v. nonblocking (k v))"
| "nonblocking (Ajax r ok bad p) = (rq_async r \<and> nonblocking p)"
| "nonblocking (Swal opt c k p) = nonblocking p"

lemma exec_after_Done: "nonblocking p \<Longrightarrow> exec (after p Done) s = exec p s"
  by (induction p arbitrary: s) auto

lemma apply_effect_machine [simp]:
  "pend (apply_effect e s) = pend s"
  "blocked (apply_effect e s) = blocked s"
  "sent (apply_effect e s) = sent s"
  by (cases "(e, s)" rule: apply_effect.cases; simp split: option.splits)+

lemma do_effect_machine [simp]:
  "pend (do_effect e s) = pend s"
  "blocked (do_effect e s) = blocked s"
  "sent (do_effect e s) = sent s"
  by (simp_all add: do_effect_def)

lemma dlg_do_effect: "dlg (do_effect e s) = (if e = CloseSwal then None else dlg s)"
  by (cases "(e, s)" rule: apply_effect.cases)
     (simp_all add: do_effect_def split: option.splits)

lemma sent_extends: "\<exists>rs. sent (exec p s) = sent s @ rs"
proof (induction p arbitrary: s)
  case (Do e p) then show ?case by (metis do_effect_machine(3) exec.simps(3))
next
  case (Ajax r ok bad p)
  show ?case
    using Ajax.IH(3) [of "s\<lparr>pend := pend s @ [(r, ok, bad)], sent := sent s @ [r]\<rparr>"] by auto
next
  case (Swal opt c k p)
  show ?case using Swal.IH(2) [of "s\<lparr>dlg := Some (opt, c, k)\<rparr>"] by simp
qed auto

lemma step_sent: "step H s e t \<Longrightarrow> \<exists>rs. sent t = sent s @ rs"
proof (induction rule: step.induct)
  case (reply i s r ok bad good v)
  then show ?case
    using sent_extends [of "if good then ok v else bad v" "s\<lparr>pend := splice1 i (pend s)\<rparr>"] by simp
next
  case (sync s r ok bad p good v)
  then show ?case
    using sent_extends [of "after (if good then ok v else bad v) p" "s\<lparr>blocked := None\<rparr>"] by simp
qed (auto intro: sent_extends simp: select_row_def)

lemma steps_sent: "steps H s es t \<Longrightarrow> \<exists>rs. sent t = sent s @ rs"
  by (induction rule: steps.induct) (auto dest: step_sent)

section \<open>Rows with numeric ids\<close>

definition num_id :: "jsval \<Rightarrow> int option" where
  "num_id r = (case get_prop r ''id'' of Some (JNum n) \<Rightarrow> Some n | _ \<Rightarrow> None)"

definition rid :: "jsval \<Rightarrow> int" where
  "rid r = (case num_id r of None \<Rightarrow> 0 | Some n \<Rightarrow> n)"

definition numbered :: "(jsval \<times> bool) list \<Rightarrow> bool" where
  "numbered rs \<longleftrightarrow> list_all (\<lambda>r. num_id (fst r) \<noteq> None) rs \<and> distinct (map (rid \<circ> fst) rs)"

definition selected_ids :: "(jsval \<times> bool) list \<Rightarrow> int list" where
  "selected_ids rs = map (rid \<circ> fst) (filter snd rs)"

lemma num_id_SomeD:
  assumes "num_id r \<noteq> None"
  shows "get_prop r ''id'' = Some (JNum (rid r)) \<and> has_prop r ''id''"
proof -
  obtain v where v: "get_prop r ''id'' = Some v"
    using assms by (cases "get_prop r ''id''") (auto simp: num_id_def)
  then obtain n where n: "v = JNum n" using assms by (cases v) (auto simp: num_id_def)
  have "has_prop r ''id''" using v n by (cases r) (simp_all split: option.split_asm)
  with v n show ?thesis by (simp add: rid_def num_id_def)
qed

lemma get_props_ids:
  "\<forall>r \<in> set rs. num_id r \<noteq> None \<Longrightarrow> get_props ''id'' rs = Some (map (JNum \<circ> rid) rs)"
proof (induction rs)
  case (Cons r rs)
  then show ?case using num_id_SomeD [of r] by simp
qed simp

lemma push_ids_get_props: "get_props ''id'' rs = Some is \<Longrightarrow> push_ids rs k = k is"
proof (induction rs arbitrary: "is" k)
  case (Cons r rs)
  then show ?case by (cases "get_prop r ''id''") (auto simp: read_prop_def)
qed simp

lemma push_props_get_props: "get_props f rs = Some vs \<Longrightarrow> push_props f rs k = k vs"
proof (induction rs arbitrary: vs k)
  case (Cons r rs)
  then show ?case by (cases "get_prop r f") (auto simp: read_prop_def)
qed simp

text \<open>Every row of a table is an object, so its properties can be read.\<close>

definition prop_or_undef :: "string \<Rightarrow> jsval \<Rightarrow> jsval" where
  "prop_or_undef f r = (case get_prop r f of None \<Rightarrow> JUndef | Some v \<Rightarrow> v)"

lemma get_props_total: "\<forall>r \<in> set rs. \<not> nullish r \<Longrightarrow> get_props f rs = Some (map (prop_or_undef f) rs)"
proof (induction rs)
  case (Cons r rs)
  then show ?case by (cases "get_prop r f") (auto simp: prop_or_undef_def get_prop_None_iff)
qed simp

lemma push_props_total:
  "\<forall>r \<in> set rs. \<not> nullish r \<Longrightarrow> push_props f rs k = k (map (prop_or_undef f) rs)"
  using push_props_get_props get_props_total by blast

lemma push_ids_selected:
  assumes "numbered rs"
  shows "push_ids (map fst (filter snd rs)) k = k (map JNum (selected_ids rs))"
proof -
  have "\<forall>r \<in> set (map fst (filter snd rs)). num_id r \<noteq> None"
    using assms by (auto simp: numbered_def list_all_iff)
  from push_ids_get_props [OF get_props_ids [OF this]] show ?thesis
    by (simp add: selected_ids_def comp_def)
qed

lemma in_array_nums [simp]: "in_array (JNum n) (JArr (map JNum ns)) \<longleftrightarrow> n \<in> set ns"
  by (auto simp: in_array_def list_ex_iff js_seq_def)

lemma in_array_number [simp]: "\<not> in_array v (JNum n)"
  by (simp add: in_array_def)

lemma table_keeps_number [simp]: "table_keeps f (JNum n) r"
  by (simp add: table_keeps_def)

lemma table_keeps_nums:
  "num_id r \<noteq> None \<Longrightarrow> table_keeps ''id'' (JArr (map JNum ns)) r \<longleftrightarrow> rid r \<notin> set ns"
  using num_id_SomeD [of r] by (simp add: table_keeps_def)

lemma selected_ids_iff:
  assumes "numbered rs" and "(r, b) \<in> set rs"
  shows "rid r \<in> set (selected_ids rs) \<longleftrightarrow> b"
proof -
  have inj: "inj_on (rid \<circ> fst) (set rs)"
    using assms(1) by (simp add: numbered_def distinct_map)
  have only: "x = (r, b)" if "x \<in> set rs" "rid (fst x) = rid r" for x
    using inj_onD [OF inj, of x "(r, b)"] assms(2) that by simp
  show ?thesis
  proof
    assume "rid r \<in> set (selected_ids rs)"
    then obtain x where "x \<in> set rs" "snd x" "rid (fst x) = rid r"
      unfolding selected_ids_def by auto
    with only [of x] show b by simp
  next
    assume b
    with assms(2) have "(r, b) \<in> set (filter snd rs)" by simp
    then show "rid r \<in> set (selected_ids rs)" unfolding selected_ids_def set_map
      by (metis (no_types) comp_apply fst_conv image_eqI)
  qed
qed

section \<open>The confirmation discipline\<close>

primrec disciplined :: "(ajax_req \<Rightarrow> bool) \<Rightarrow> prog \<Rightarrow> nat \<Rightarrow> bool" where
  "disciplined M Done = (\<lambda>n. True)"
| "disciplined M (Throw e) = (\<lambda>n. True)"
| "disciplined M (Do e p) = disciplined M p"
| "disciplined M (Ask q k) = (\<lambda>n. \<forall>v. disciplined M (k v) n)"
| "disciplined M (Ajax r ok bad p) = (\<lambda>n.
     (M r \<longrightarrow> 0 < n) \<and> (\<forall>v. disciplined M (ok v) 0) \<and> (\<forall>v. disciplined M (bad v) 0) \<and>
     (if rq_async r then disciplined M p (if M r then n - 1 else n) else disciplined M p 0))"
| "disciplined M (Swal opt c k p) = (\<lambda>n.
     (\<forall>v. v \<noteq> JBool False \<longrightarrow> disciplined M (k v) 1) \<and>
     (c = TakesInput \<longrightarrow> disciplined M (k (JBool False)) 0) \<and> disciplined M p n)"

lemma disciplined_mono: "disciplined M p n \<Longrightarrow> n \<le> m \<Longrightarrow> disciplined M p m"
proof (induction p arbitrary: n m)
  case (Ajax r ok bad p)
  have "n - 1 \<le> m - 1" using Ajax.prems(2) by simp
  then have "disciplined M p (n - 1) \<Longrightarrow> disciplined M p (m - 1)" by (rule Ajax.IH(3) [rotated])
  moreover have "disciplined M p n \<Longrightarrow> disciplined M p m" using Ajax.IH(3) Ajax.prems(2) by blast
  ultimately show ?case using Ajax.prems by auto
qed auto

lemma disciplined_seq:
  "disciplined M p n \<Longrightarrow> disciplined M q 0 \<Longrightarrow> disciplined M (seq p q) n"
proof (induction p arbitrary: n)
  case Done then show ?case by (auto intro: disciplined_mono)
qed auto

lemma disciplined_after:
  "disciplined M p n \<Longrightarrow> disciplined M q 0 \<Longrightarrow> disciplined M (after p q) n"
proof (induction p arbitrary: n)
  case Done then show ?case by (auto intro: disciplined_mono)
next
  case Throw then show ?case by (auto intro: disciplined_mono)
qed auto

subsection \<open>The discipline of the idioms\<close>

text \<open>
  Rules that let the simplifier decide the discipline of a handler written with the idioms above;
  \<open>disc_simps\<close> collects them.
\<close>

named_theorems disc_simps \<open>discipline of the handler idioms\<close>

declare disciplined_seq [disc_simps]

lemma disciplined_read_prop [disc_simps]:
  "(\<And>x. disciplined M (f x) n) \<Longrightarrow> disciplined M (read_prop v k f) n"
  by (simp add: read_prop_def split: option.split)

lemma disciplined_if_code0 [disc_simps]:
  "disciplined M p n \<Longrightarrow> disciplined M q n \<Longrightarrow> disciplined M (if_code0 v p q) n"
  by (simp add: if_code0_def disciplined_read_prop)

lemma disciplined_swals [disc_simps]:
  "disciplined M (swal1 t p) n = disciplined M p n"
  "disciplined M (swal3 t x ty p) n = disciplined M p n"
  "disciplined M (swal_html t y ty p) n = disciplined M p n"
  by (simp_all add: swal1_def swal3_def swal_html_def)

lemma disciplined_asks [disc_simps]:
  "disciplined M (ask_confirm t x ty b p) n = (disciplined M b 1 \<and> disciplined M p n)"
  "disciplined M (ask_select t i os b p) n = (disciplined M b 1 \<and> disciplined M p n)"
  by (auto simp: ask_confirm_def ask_select_def)

lemma disciplined_ask_inputs [disc_simps]:
  assumes "\<And>v. disciplined M (c v) (if v = JBool False then 0 else 1)"
  shows "disciplined M (ask_input t x c p) n = disciplined M p n"
    and "disciplined M (ask_select_input t i os c p) n = disciplined M p n"
proof -
  have "v \<noteq> JBool False \<Longrightarrow> disciplined M (c v) 1" for v using assms [of v] by simp
  moreover have "disciplined M (c (JBool False)) 0" using assms [of "JBool False"] by simp
  ultimately show "disciplined M (ask_input t x c p) n = disciplined M p n"
    and "disciplined M (ask_select_input t i os c p) n = disciplined M p n"
    by (simp_all add: ask_input_def ask_select_input_def)
qed

lemma disciplined_replies [disc_simps]:
  "disciplined M p n \<Longrightarrow> disciplined M (on_reply p t v) n"
  "disciplined M (call_admin t v) n"
  "disciplined M (show_failure t v) n"
  by (simp_all add: on_reply_def call_admin_def show_failure_def disc_simps)

lemma disciplined_collect_ids [disc_simps]:
  "disciplined M refuse n \<Longrightarrow> (\<And>is. disciplined M (k is) n) \<Longrightarrow>
     disciplined M (collect_ids bad refuse rs k) n"
  by (induction rs arbitrary: k) (auto simp: disc_simps)

lemma disciplined_push_ids [disc_simps]:
  "(\<And>is. disciplined M (k is) n) \<Longrightarrow> disciplined M (push_ids rs k) n"
  by (induction rs arbitrary: k) (auto simp: disc_simps)

lemma disciplined_push_props [disc_simps]:
  "(\<And>vs. disciplined M (k vs) n) \<Longrightarrow> disciplined M (push_props f rs k) n"
  by (induction rs arbitrary: k) (auto simp: disc_simps)

lemma disciplined_for_each [disc_simps]:
  "(\<And>x q. disciplined M (f x q) n = disciplined M q n) \<Longrightarrow>
     disciplined M (for_each f xs p) n = disciplined M p n"
  by (induction xs) auto

lemma request_simps [simp]:
  "rq_url (form_post u d) = u" "rq_async (form_post u d)" "rq_data (form_post u d) = JObj d"
  "rq_type (form_post u d) = ''post''"
  "rq_url (form_post_sync u d) = u" "\<not> rq_async (form_post_sync u d)"
  "rq_data (form_post_sync u d) = JObj d" "rq_type (form_post_sync u d) = ''post''"
  "rq_url (http_get u) = u" "rq_async (http_get u)" "rq_url (http_get_sync u) = u"
  "\<not> rq_async (http_get_sync u)" "rq_type (http_get u) = ''get''" "rq_type (http_get_sync u) = ''get''"
  by (simp_all add: form_post_def form_post_sync_def http_get_def http_get_sync_def)

text \<open>The requests to a set of paths, read up to the query string.\<close>

definition to_paths :: "string list \<Rightarrow> ajax_req \<Rightarrow> bool" where
  "to_paths us r \<longleftrightarrow> takeWhile (\<lambda>c. c \<noteq> CHR ''?'') (rq_url r) \<in> set us"

lemma to_paths_simps [disc_simps]:
  "to_paths us (form_post u d) \<longleftrightarrow> takeWhile (\<lambda>c. c \<noteq> CHR ''?'') u \<in> set us"
  "to_paths us (form_post_sync u d) \<longleftrightarrow> takeWhile (\<lambda>c. c \<noteq> CHR ''?'') u \<in> set us"
  "to_paths us (http_get u) \<longleftrightarrow> takeWhile (\<lambda>c. c \<noteq> CHR ''?'') u \<in> set us"
  "to_paths us (http_get_sync u) \<longleftrightarrow> takeWhile (\<lambda>c. c \<noteq> CHR ''?'') u \<in> set us"
  by (simp_all add: to_paths_def)

text \<open>What the callbacks waiting in a state may still send.\<close>

definition waiting_ok :: "(ajax_req \<Rightarrow> bool) \<Rightarrow> sys \<Rightarrow> bool" where
  "waiting_ok M s \<longleftrightarrow>
     (\<forall>opt c k. dlg s = Some (opt, c, k) \<longrightarrow>
        (\<forall>v. v \<noteq> JBool False \<longrightarrow> disciplined M (k v) 1) \<and>
        (c = TakesInput \<longrightarrow> disciplined M (k (JBool False)) 0)) \<and>
     (\<forall>r ok bad. (r, ok, bad) \<in> set (pend s) \<longrightarrow>
        (\<forall>v. disciplined M (ok v) 0 \<and> disciplined M (bad v) 0)) \<and>
     (\<forall>r ok bad p. blocked s = Some (r, ok, bad, p) \<longrightarrow>
        (\<forall>v. disciplined M (ok v) 0 \<and> disciplined M (bad v) 0) \<and> disciplined M p 0)"

definition count_sent :: "(ajax_req \<Rightarrow> bool) \<Rightarrow> sys \<Rightarrow> nat" where
  "count_sent M s = length (filter M (sent s))"

fun is_confirm :: "event \<Rightarrow> bool" where
  "is_confirm (Confirm t) = True"
| "is_confirm e = False"

definition confirms :: "event list \<Rightarrow> nat" where
  "confirms es = length (filter is_confirm es)"

lemma waiting_ok_empty [simp]: "waiting_ok M empty_sys"
  by (simp add: waiting_ok_def empty_sys_def)

lemma waiting_ok_exec: "disciplined M p n \<Longrightarrow> waiting_ok M s \<Longrightarrow> waiting_ok M (exec p s)"
proof (induction p arbitrary: n s)
  case (Do e p)
  have "waiting_ok M (do_effect e s)" using Do.prems(2) by (auto simp: waiting_ok_def dlg_do_effect)
  then show ?case using Do by auto
next
  case (Ajax r ok bad p)
  have "waiting_ok M (s\<lparr>pend := pend s @ [(r, ok, bad)], sent := sent s @ [r]\<rparr>)"
    using Ajax.prems by (auto simp: waiting_ok_def)
  moreover have "waiting_ok M (s\<lparr>blocked := Some (r, ok, bad, p), sent := sent s @ [r]\<rparr>)"
    if "\<not> rq_async r" using Ajax.prems that by (auto simp: waiting_ok_def)
  ultimately show ?case using Ajax.IH(3) Ajax.prems(1) by (auto split: if_splits)
next
  case (Swal opt c k p)
  have "waiting_ok M (s\<lparr>dlg := Some (opt, c, k)\<rparr>)" using Swal.prems by (auto simp: waiting_ok_def)
  then show ?case using Swal.IH(2) Swal.prems(1) by auto
next
  case (Throw e)
  then show ?case by (auto simp: waiting_ok_def dlg_do_effect)
qed auto

lemma count_sent_exec: "disciplined M p n \<Longrightarrow> count_sent M (exec p s) \<le> count_sent M s + n"
proof (induction p arbitrary: n s)
  case (Do e p)
  then show ?case using Do.IH [of n "do_effect e s"] by (simp add: count_sent_def)
next
  case (Ajax r ok bad p)
  let ?t = "s\<lparr>pend := pend s @ [(r, ok, bad)], sent := sent s @ [r]\<rparr>"
  have "count_sent M ?t = count_sent M s + (if M r then 1 else 0)" by (simp add: count_sent_def)
  then show ?case
    using Ajax.IH(3) [of "if M r then n - 1 else n" ?t] Ajax.prems by (auto simp: count_sent_def)
next
  case (Swal opt c k p)
  then show ?case
    using Swal.IH(2) [of n "s\<lparr>dlg := Some (opt, c, k)\<rparr>"] by (simp add: count_sent_def)
qed (auto simp: count_sent_def)

lemma disciplined_confirm:
  assumes "waiting_ok M s" and "dlg s = Some d"
  shows "disciplined M (confirm_prog t d) 1"
proof -
  obtain opt c k where d: "d = (opt, c, k)" by (cases d)
  have "disciplined M (k (confirm_value opt t)) 1"
    using assms unfolding waiting_ok_def d confirm_value_def by simp
  then show ?thesis unfolding d by (cases c) (auto intro: disciplined_seq)
qed

lemma disciplined_cancel:
  assumes "waiting_ok M s" and "dlg s = Some d"
  shows "disciplined M (cancel_prog d) 0"
proof -
  obtain opt c k where d: "d = (opt, c, k)" by (cases d)
  then show ?thesis
    using assms by (cases c) (auto simp: waiting_ok_def intro: disciplined_seq)
qed

lemma waiting_ok_reply:
  assumes "waiting_ok M s" and "i < length (pend s)" and "pend s ! i = (r, ok, bad)"
  shows "disciplined M (if good then ok v else bad v) 0"
    and "waiting_ok M (s\<lparr>pend := splice1 i (pend s)\<rparr>)"
proof -
  have "(r, ok, bad) \<in> set (pend s)" using assms(2,3) by (metis nth_mem)
  then show "disciplined M (if good then ok v else bad v) 0"
    using assms(1) by (auto simp: waiting_ok_def)
  show "waiting_ok M (s\<lparr>pend := splice1 i (pend s)\<rparr>)"
    using assms(1) set_splice1 [of i "pend s"] by (fastforce simp: waiting_ok_def)
qed

text \<open>A page that has just been loaded: no dialog, no request, whatever its fields and tables hold.\<close>

definition fresh :: "sys \<Rightarrow> bool" where
  "fresh s \<longleftrightarrow> (case dlg s of None \<Rightarrow> True | Some _ \<Rightarrow> False) \<and> length (pend s) = 0 \<and>
     (case blocked s of None \<Rightarrow> True | Some _ \<Rightarrow> False) \<and> sent s = []"

lemma fresh_waiting_ok: "fresh s \<Longrightarrow> waiting_ok M s"
  by (simp add: fresh_def waiting_ok_def split: option.splits)

lemma fresh_count: "fresh s \<Longrightarrow> count_sent M s = 0"
  by (simp add: fresh_def count_sent_def)

lemma fresh_simps: "fresh s \<Longrightarrow> dlg s = None \<and> pend s = [] \<and> blocked s = None \<and> sent s = []"
  by (simp add: fresh_def split: option.splits)

locale confirmed_page =
  fixes H :: "prog set" and M :: "ajax_req \<Rightarrow> bool"
  assumes handler_disciplined: "p \<in> H \<Longrightarrow> disciplined M p 0"
begin

lemma step_safe:
  assumes "step H s e t" and "waiting_ok M s"
  shows "waiting_ok M t \<and> count_sent M t \<le> count_sent M s + (if is_confirm e then 1 else 0)"
  using assms
proof (cases rule: step.cases)
  case (click p)
  with handler_disciplined assms(2) show ?thesis
    using count_sent_exec [of M p 0 s] by (auto intro: waiting_ok_exec)
next
  case (confirm d x)
  with assms(2) disciplined_confirm [of M s d x] show ?thesis
    using count_sent_exec [of M "confirm_prog x d" 1 s] by (auto intro: waiting_ok_exec)
next
  case (cancel d)
  with assms(2) disciplined_cancel [of M s d] show ?thesis
    using count_sent_exec [of M "cancel_prog d" 0 s] by (auto intro: waiting_ok_exec)
next
  case (reply i r ok bad good v)
  let ?p = "if good then ok v else bad v" and ?s = "s\<lparr>pend := splice1 i (pend s)\<rparr>"
  have "disciplined M ?p 0" "waiting_ok M ?s" using waiting_ok_reply assms(2) reply by blast+
  then show ?thesis
    using count_sent_exec [of M ?p 0 ?s] waiting_ok_exec [of M ?p 0 ?s] reply
    by (simp add: count_sent_def)
next
  case (sync r ok bad p good v)
  let ?p = "after (if good then ok v else bad v) p" and ?s = "s\<lparr>blocked := None\<rparr>"
  have "disciplined M ?p 0" "waiting_ok M ?s"
    using sync assms(2) by (auto simp: waiting_ok_def intro: disciplined_after)
  then show ?thesis
    using count_sent_exec [of M ?p 0 ?s] waiting_ok_exec [of M ?p 0 ?s] sync
    by (simp add: count_sent_def)
qed (use assms(2) in \<open>auto simp: waiting_ok_def count_sent_def select_row_def\<close>)

lemma steps_safe:
  assumes "steps H s es t" and "waiting_ok M s"
  shows "waiting_ok M t \<and> count_sent M t \<le> count_sent M s + confirms es"
  using assms
proof (induction rule: steps.induct)
  case (more s es t e u)
  then show ?case using step_safe [of t e u] by (auto simp: confirms_def)
qed (simp add: confirms_def)

lemma fresh_safe:
  assumes "steps H s es t" and "fresh s"
  shows "count_sent M t \<le> confirms es"
  using steps_safe [OF assms(1) fresh_waiting_ok [OF assms(2)]] fresh_count [OF assms(2)] by simp

end

end
