(* ===== verification/JsDate.thy ===== *)
theory JsDate
  imports JsValue
begin

text \<open>
  The \<open>Date\<close> objects of JavaScript as the date-time picker uses them. A time value is a number of
  milliseconds since 1970-01-01 UTC, or \<open>NaN\<close> (\<open>None\<close>) for an invalid date; a value further than
  8.64e15 ms from 1970 is invalid. The getters and setters are those of ECMAScript (\<open>DayFromYear\<close>,
  \<open>MonthFromTime\<close>, \<open>MakeDay\<close>, \<open>TimeClip\<close>), so a day or a month out of its range carries over
  into the next. The lemmas show that the calendar is consistent: the fields of a date made from
  valid fields are these fields, and a date is made of its fields.
\<close>

type_synonym num = "int option"
type_synonym jsdate = "int option"

section \<open>Days, years and months\<close>

definition ms_day :: int where
  "ms_day = 86400000"

definition day_from_year :: "int \<Rightarrow> int" where
  "day_from_year y = 365 * (y - 1970) + (y - 1969) div 4 - (y - 1901) div 100 + (y - 1601) div 400"

definition leap :: "int \<Rightarrow> bool" where
  "leap y \<longleftrightarrow> y mod 4 = 0 \<and> y mod 100 \<noteq> 0 \<or> y mod 400 = 0"

text \<open>The year of a day: an estimate by the mean length of a year, corrected by at most one.\<close>

definition year_of_day :: "int \<Rightarrow> int" where
  "year_of_day d =
     (let y = 1970 + 400 * d div 146097
      in if d < day_from_year y then y - 1 else if day_from_year (y + 1) \<le> d then y + 1 else y)"

definition month_start :: "int \<Rightarrow> int \<Rightarrow> int" where
  "month_start y m =
     (if m \<le> 0 then 0 else if m = 1 then 31
      else [59, 90, 120, 151, 181, 212, 243, 273, 304, 334] ! nat (m - 2) + (if leap y then 1 else 0))"

definition month_len :: "int \<Rightarrow> int \<Rightarrow> int" where
  "month_len y m = (if m = 1 then (if leap y then 29 else 28) else if m \<in> {3, 5, 8, 10} then 30 else 31)"

definition month_of_day :: "int \<Rightarrow> int" where
  "month_of_day d =
     (let y = year_of_day d; n = d - day_from_year y
      in if n < month_start y 1 then 0 else if n < month_start y 2 then 1
         else if n < month_start y 3 then 2 else if n < month_start y 4 then 3
         else if n < month_start y 5 then 4 else if n < month_start y 6 then 5
         else if n < month_start y 7 then 6 else if n < month_start y 8 then 7
         else if n < month_start y 9 then 8 else if n < month_start y 10 then 9
         else if n < month_start y 11 then 10 else 11)"

definition date_of_day :: "int \<Rightarrow> int" where
  "date_of_day d = d - day_from_year (year_of_day d) - month_start (year_of_day d) (month_of_day d) + 1"

definition week_day :: "int \<Rightarrow> int" where
  "week_day d = (d + 4) mod 7"

definition make_day :: "int \<Rightarrow> int \<Rightarrow> int \<Rightarrow> int" where
  "make_day y m d =
     (let ym = y + m div 12; mn = m mod 12 in day_from_year ym + month_start ym mn + d - 1)"

section \<open>Time values\<close>

definition time_clip :: "int \<Rightarrow> jsdate" where
  "time_clip t = (if \<bar>t\<bar> \<le> 8640000000000000 then Some t else None)"

definition day_of :: "int \<Rightarrow> int" where
  "day_of t = t div ms_day"

definition make_time :: "int \<Rightarrow> int \<Rightarrow> int \<Rightarrow> int \<Rightarrow> int" where
  "make_time h i s ms = ((h * 60 + i) * 60 + s) * 1000 + ms"

definition getUTCFullYear :: "jsdate \<Rightarrow> num" where
  "getUTCFullYear d = map_option (\<lambda>t. year_of_day (day_of t)) d"

definition getUTCMonth :: "jsdate \<Rightarrow> num" where
  "getUTCMonth d = map_option (\<lambda>t. month_of_day (day_of t)) d"

definition getUTCDate :: "jsdate \<Rightarrow> num" where
  "getUTCDate d = map_option (\<lambda>t. date_of_day (day_of t)) d"

definition getUTCDay :: "jsdate \<Rightarrow> num" where
  "getUTCDay d = map_option (\<lambda>t. week_day (day_of t)) d"

definition hour_of :: "int \<Rightarrow> int" where
  "hour_of t = t div 3600000 mod 24"

definition minute_of :: "int \<Rightarrow> int" where
  "minute_of t = t div 60000 mod 60"

definition second_of :: "int \<Rightarrow> int" where
  "second_of t = t div 1000 mod 60"

definition getUTCHours :: "jsdate \<Rightarrow> num" where
  "getUTCHours d = map_option hour_of d"

definition getUTCMinutes :: "jsdate \<Rightarrow> num" where
  "getUTCMinutes d = map_option minute_of d"

definition getUTCSeconds :: "jsdate \<Rightarrow> num" where
  "getUTCSeconds d = map_option second_of d"

definition num2 :: "(int \<Rightarrow> int \<Rightarrow> int option) \<Rightarrow> num \<Rightarrow> num \<Rightarrow> num" where
  "num2 f a b = Option.bind a (\<lambda>x. Option.bind b (f x))"

definition setUTCDate :: "num \<Rightarrow> jsdate \<Rightarrow> jsdate" where
  "setUTCDate = num2 (\<lambda>v t.
     time_clip (make_day (year_of_day (day_of t)) (month_of_day (day_of t)) v * ms_day + t mod ms_day))"

definition setUTCMonth :: "num \<Rightarrow> jsdate \<Rightarrow> jsdate" where
  "setUTCMonth = num2 (\<lambda>v t.
     time_clip (make_day (year_of_day (day_of t)) v (date_of_day (day_of t)) * ms_day + t mod ms_day))"

text \<open>\<open>setUTCMonth(month, date)\<close>, with both arguments.\<close>

definition setUTCMonth_date :: "num \<Rightarrow> num \<Rightarrow> jsdate \<Rightarrow> jsdate" where
  "setUTCMonth_date m v d = Option.bind m (\<lambda>m. num2 (\<lambda>v t.
     time_clip (make_day (year_of_day (day_of t)) m v * ms_day + t mod ms_day)) v d)"

text \<open>The one setter that makes an invalid date valid again: it starts from time 0.\<close>

definition setUTCFullYear :: "num \<Rightarrow> jsdate \<Rightarrow> jsdate" where
  "setUTCFullYear v d = Option.bind v (\<lambda>y. let t = (case d of None \<Rightarrow> 0 | Some t \<Rightarrow> t) in
     time_clip (make_day y (month_of_day (day_of t)) (date_of_day (day_of t)) * ms_day + t mod ms_day))"

definition setUTCHours :: "num \<Rightarrow> jsdate \<Rightarrow> jsdate" where
  "setUTCHours = num2 (\<lambda>v t.
     time_clip (day_of t * ms_day + make_time v (minute_of t) (second_of t) (t mod 1000)))"

definition setUTCMinutes :: "num \<Rightarrow> jsdate \<Rightarrow> jsdate" where
  "setUTCMinutes = num2 (\<lambda>v t.
     time_clip (day_of t * ms_day + make_time (hour_of t) v (second_of t) (t mod 1000)))"

definition setUTCSeconds :: "num \<Rightarrow> jsdate \<Rightarrow> jsdate" where
  "setUTCSeconds = num2 (\<lambda>v t.
     time_clip (day_of t * ms_day + make_time (hour_of t) (minute_of t) v (t mod 1000)))"

text \<open>
  \<open>Date.UTC\<close> with seven arguments on valid numbers. A year from 0 to 99 stands for 1900 to 1999.
\<close>

definition full_year :: "int \<Rightarrow> int" where
  "full_year y = (if 0 \<le> y \<and> y \<le> 99 then 1900 + y else y)"

definition date_UTC :: "int \<Rightarrow> int \<Rightarrow> int \<Rightarrow> int \<Rightarrow> int \<Rightarrow> int \<Rightarrow> jsdate" where
  "date_UTC y m d h i s = time_clip (make_day (full_year y) m d * ms_day + make_time h i s 0)"

section \<open>The calendar is consistent\<close>

lemma month_cases: "0 \<le> m \<Longrightarrow> m < 12 \<Longrightarrow> m \<in> {0, 1, 2, 3, 4, 5, 6, 7, 8, 9, 10, 11 :: int}"
  by simp presburger

lemma div_succ:
  assumes "0 < (n :: int)"
  shows "(x + 1) div n = x div n + (if (x + 1) mod n = 0 then 1 else 0)"
proof -
  define q r where "q = x div n" and "r = x mod n"
  have x: "x = n * q + r" and r: "0 \<le> r" "r < n" using assms by (simp_all add: q_def r_def)
  show ?thesis
  proof (cases "r + 1 = n")
    case True
    then have "x + 1 = n * (q + 1)" using x by (simp add: algebra_simps)
    then show ?thesis using assms by (simp add: q_def)
  next
    case False
    then have "(x + 1) div n = q" "(x + 1) mod n = r + 1"
      using x r by (simp_all add: int_div_pos_eq [of _ _ _ "r + 1"] int_mod_pos_eq [of _ _ q])
    then show ?thesis using r by (simp add: q_def)
  qed
qed

lemma div_bounds: "0 < (n :: int) \<Longrightarrow> n * (x div n) \<le> x \<and> x < n * (x div n) + n"
  using mult_div_mod_eq [of n x] pos_mod_sign [of n x] pos_mod_bound [of n x] by linarith

lemma day_from_year_Suc: "day_from_year (y + 1) = day_from_year y + (if leap y then 366 else 365)"
proof -
  have "(y + 4 * (- 492)) mod 4 = y mod 4" "(y + 100 * (- 19)) mod 100 = y mod 100"
    "(y + 400 * (- 4)) mod 400 = y mod 400"
    by (rule mod_mult_self2)+
  then have m: "(y - 1969 + 1) mod 4 = y mod 4" "(y - 1901 + 1) mod 100 = y mod 100"
    "(y - 1601 + 1) mod 400 = y mod 400"
    by simp_all
  have sub: "y mod 400 = 0 \<Longrightarrow> y mod 100 = 0" "y mod 100 = 0 \<Longrightarrow> y mod 4 = 0"
    by (auto simp: mod_eq_0_iff_dvd elim: dvd_trans [rotated])
  have "day_from_year (y + 1) = 365 * (y - 1970) + 365 + (y - 1969 + 1) div 4 - (y - 1901 + 1) div 100
      + (y - 1601 + 1) div 400"
    by (simp add: day_from_year_def algebra_simps)
  also have "\<dots> = day_from_year y + 365 + (if y mod 4 = 0 then 1 else 0) - (if y mod 100 = 0 then 1 else 0)
      + (if y mod 400 = 0 then 1 else 0)"
    unfolding div_succ [OF zero_less_numeral] m by (simp only: day_from_year_def)
  finally show ?thesis using sub unfolding leap_def by (simp split: if_split)
qed

lemma day_from_year_near:
  "400 * day_from_year y \<le> 146097 * (y - 1970) + 1000"
  "146097 * (y - 1970) \<le> 400 * day_from_year y + 1000"
proof -
  define e a b c where "e = y - 1970" and "a = (y - 1969) div 4" and "b = (y - 1901) div 100"
    and "c = (y - 1601) div 400"
  have a: "4 * a \<le> e + 1" "e + 1 < 4 * a + 4"
    unfolding a_def e_def using div_bounds [of 4 "y - 1969"] by simp_all
  have b: "100 * b \<le> e + 69" "e + 69 < 100 * b + 100"
    unfolding b_def e_def using div_bounds [of 100 "y - 1901"] by simp_all
  have c: "400 * c \<le> e + 369" "e + 369 < 400 * c + 400"
    unfolding c_def e_def using div_bounds [of 400 "y - 1601"] by simp_all
  have "400 * day_from_year y = 146000 * e + 400 * a - 400 * b + 400 * c"
    by (simp add: day_from_year_def a_def b_def c_def e_def)
  then show "400 * day_from_year y \<le> 146097 * (y - 1970) + 1000"
    and "146097 * (y - 1970) \<le> 400 * day_from_year y + 1000"
    unfolding e_def [symmetric] using a b c by linarith+
qed

lemma year_of_day: "day_from_year (year_of_day d) \<le> d" "d < day_from_year (year_of_day d + 1)"
proof -
  define y where "y = 1970 + 400 * d div 146097"
  have "146097 * (y - 1970) \<le> 400 * d" "400 * d < 146097 * (y - 1970) + 146097"
    using div_bounds [of 146097 "400 * d"] by (simp_all add: y_def)
  then have lo: "day_from_year y \<le> d + 365" and hi: "d < day_from_year y + 730"
    using day_from_year_near [of y] by linarith+
  have prev: "day_from_year y = day_from_year (y - 1) + (if leap (y - 1) then 366 else 365)"
    using day_from_year_Suc [of "y - 1"] by simp
  have nxt: "day_from_year (y + 2) = day_from_year (y + 1) + (if leap (y + 1) then 366 else 365)"
    using day_from_year_Suc [of "y + 1"] by (simp add: add.assoc)
  show "day_from_year (year_of_day d) \<le> d" "d < day_from_year (year_of_day d + 1)"
    using lo hi prev nxt day_from_year_Suc [of y]
    by (auto simp: year_of_day_def Let_def add.assoc simp flip: y_def split: if_splits)
qed

lemma day_from_year_mono: "x < y \<Longrightarrow> day_from_year (x + 1) \<le> day_from_year y"
proof (induction "nat (y - x)" arbitrary: x)
  case (Suc n)
  show ?case
  proof (cases "x + 1 = y")
    case False
    with Suc.hyps(2) Suc.prems have "n = nat (y - (x + 1))" "x + 1 < y" by simp_all
    then have "day_from_year (x + 1 + 1) \<le> day_from_year y" by (rule Suc.hyps(1))
    then show ?thesis using day_from_year_Suc [of "x + 1"] by (simp split: if_splits)
  qed simp
qed simp

lemma year_of_dayI:
  assumes "day_from_year y \<le> d" and "d < day_from_year (y + 1)"
  shows "year_of_day d = y"
proof (rule ccontr)
  assume "year_of_day d \<noteq> y"
  then consider "year_of_day d < y" | "y < year_of_day d" by linarith
  then show False
    using assms year_of_day [of d] day_from_year_mono [of "year_of_day d" y]
      day_from_year_mono [of y "year_of_day d"] by cases auto
qed

lemma month_start_step:
  assumes "0 \<le> m" and "m < 12"
  shows "month_start y m + month_len y m =
    (if m = 11 then day_from_year (y + 1) - day_from_year y else month_start y (m + 1))"
  using month_cases [OF assms] by (auto simp: month_start_def month_len_def day_from_year_Suc)

lemma month_len_bounds: "28 \<le> month_len y m" "month_len y m \<le> 31"
  by (simp_all add: month_len_def)

definition month_of_offset :: "bool \<Rightarrow> int \<Rightarrow> int" where
  "month_of_offset l n =
     (let k = (if l then 1 else 0) in
      if n < 31 then 0 else if n < 59 + k then 1 else if n < 90 + k then 2 else if n < 120 + k then 3
      else if n < 151 + k then 4 else if n < 181 + k then 5 else if n < 212 + k then 6
      else if n < 243 + k then 7 else if n < 273 + k then 8 else if n < 304 + k then 9
      else if n < 334 + k then 10 else 11)"

lemma month_of_day_offset:
  "month_of_day d = month_of_offset (leap (year_of_day d)) (d - day_from_year (year_of_day d))"
  by (simp add: month_of_day_def month_of_offset_def month_start_def Let_def)

lemma month_of_dayI:
  assumes y: "year_of_day d = y" and m: "0 \<le> m" "m < 12"
    and "day_from_year y + month_start y m \<le> d" and "d < day_from_year y + month_start y m + month_len y m"
  shows "month_of_day d = m"
proof -
  define n where "n = d - day_from_year y"
  have n: "month_start y m \<le> n" "n < month_start y m + month_len y m" using assms(4,5) by (simp_all add: n_def)
  have "month_of_offset (leap y) n = m"
  proof (cases "leap y")
    case True
    from month_cases [OF m] n True show ?thesis
      by (elim insertE emptyE) (simp_all add: month_of_offset_def month_start_def month_len_def)
  next
    case False
    from month_cases [OF m] n False show ?thesis
      by (elim insertE emptyE) (simp_all add: month_of_offset_def month_start_def month_len_def)
  qed
  then show ?thesis by (simp add: month_of_day_offset y n_def)
qed

lemma month_start_bound:
  assumes "0 \<le> m" "m < 12"
  shows "0 \<le> month_start y m" "day_from_year y + month_start y m + month_len y m \<le> day_from_year (y + 1)"
  using month_cases [OF assms] by (auto simp: month_start_def month_len_def day_from_year_Suc)

text \<open>The fields of the day made from valid fields are these fields.\<close>

lemma fields_make_day:
  assumes "0 \<le> m" "m < 12" "1 \<le> v" "v \<le> month_len y m"
  shows "year_of_day (make_day y m v) = y" "month_of_day (make_day y m v) = m"
    "date_of_day (make_day y m v) = v"
proof -
  have d: "make_day y m v = day_from_year y + month_start y m + v - 1"
    using assms by (simp add: make_day_def div_pos_pos_trivial)
  show y: "year_of_day (make_day y m v) = y"
    using assms month_start_bound [OF assms(1,2), of y] by (intro year_of_dayI) (simp_all add: d)
  show m: "month_of_day (make_day y m v) = m"
    using assms by (intro month_of_dayI [OF y]) (simp_all add: d)
  show "date_of_day (make_day y m v) = v" by (simp add: date_of_day_def y m) (simp add: d)
qed

lemma month_exists:
  assumes "0 \<le> m" "m < 12" "month_start y m \<le> n" "n < day_from_year (y + 1) - day_from_year y"
  shows "\<exists>m'. 0 \<le> m' \<and> m' < 12 \<and> month_start y m' \<le> n \<and> n < month_start y m' + month_len y m'"
  using assms
proof (induction "nat (11 - m)" arbitrary: m)
  case 0
  then have "m = 11" by simp
  with 0 show ?case using month_start_step [of 11 y] by (intro exI [of _ 11]) simp
next
  case (Suc k)
  show ?case
  proof (cases "n < month_start y m + month_len y m")
    case True
    with Suc.prems show ?thesis by blast
  next
    case False
    with Suc.prems Suc.hyps(2) show ?thesis
      using month_start_step [of m y] by (intro Suc.hyps(1) [of "m + 1"]) (auto split: if_splits)
  qed
qed

lemma month_of_day_props:
  "0 \<le> month_of_day d \<and> month_of_day d < 12 \<and>
   day_from_year (year_of_day d) + month_start (year_of_day d) (month_of_day d) \<le> d \<and>
   d < day_from_year (year_of_day d) + month_start (year_of_day d) (month_of_day d)
     + month_len (year_of_day d) (month_of_day d)"
proof -
  define y where "y = year_of_day d"
  obtain m where m: "0 \<le> m" "m < 12" "month_start y m \<le> d - day_from_year y"
    "d - day_from_year y < month_start y m + month_len y m"
    using month_exists [of 0 y "d - day_from_year y"] year_of_day [of d]
    by (auto simp: month_start_def simp flip: y_def)
  then have "month_of_day d = m" by (intro month_of_dayI [OF y_def [symmetric]]) simp_all
  with m show ?thesis by (simp flip: y_def)
qed

lemma month_range [simp]: "0 \<le> month_of_day d" "month_of_day d < 12"
  using month_of_day_props [of d] by simp_all

lemma date_range: "1 \<le> date_of_day d" "date_of_day d \<le> month_len (year_of_day d) (month_of_day d)"
  using month_of_day_props [of d] by (simp_all add: date_of_day_def)

text \<open>A day is made of its fields.\<close>

lemma make_day_fields [simp]: "make_day (year_of_day d) (month_of_day d) (date_of_day d) = d"
  by (simp add: make_day_def div_pos_pos_trivial date_of_day_def)

lemma make_day_shift: "make_day y m (v + k) = make_day y m v + k"
  by (simp add: make_day_def Let_def)

lemma make_day_carry: "make_day (y + m div 12) (m mod 12) v = make_day y m v"
  by (simp add: make_day_def Let_def)

section \<open>Time values and their fields\<close>

lemma day_of_make [simp]: "0 \<le> r \<Longrightarrow> r < ms_day \<Longrightarrow> day_of (k * ms_day + r) = k"
  by (simp add: day_of_def ms_day_def)

lemma mod_ms_day [simp]: "0 \<le> t mod ms_day" "t mod ms_day < ms_day" "(k * ms_day + t mod ms_day) mod ms_day = t mod ms_day"
  by (simp_all add: ms_day_def)

lemma day_of_split: "day_of t * ms_day + t mod ms_day = t"
  by (simp add: day_of_def)

lemma make_time_fields [simp]:
  "make_time (hour_of t) (minute_of t) (second_of t) (t mod 1000) = t mod ms_day"
proof -
  have 1: "t = 1000 * (t div 1000) + t mod 1000" by simp
  have 2: "t div 1000 = 60 * (t div 60000) + second_of t"
    using mult_div_mod_eq [of 60 "t div 1000"] zdiv_zmult2_eq [of 60 t 1000] by (simp add: second_of_def)
  have 3: "t div 60000 = 60 * (t div 3600000) + minute_of t"
    using mult_div_mod_eq [of 60 "t div 60000"] zdiv_zmult2_eq [of 60 t 60000] by (simp add: minute_of_def)
  have 4: "t div 3600000 = 24 * (t div 86400000) + hour_of t"
    using mult_div_mod_eq [of 24 "t div 3600000"] zdiv_zmult2_eq [of 24 t 3600000] by (simp add: hour_of_def)
  have "t mod ms_day = t - 86400000 * (t div 86400000)" by (simp add: ms_day_def minus_mult_div_eq_mod)
  moreover have "x = 1000 * a + r \<Longrightarrow> a = 60 * b + s \<Longrightarrow> b = 60 * c + i \<Longrightarrow> c = 24 * d + h \<Longrightarrow>
      make_time h i s r = x - 86400000 * d" for x a b c d h i s r :: int
    by (simp add: make_time_def)
  ultimately show ?thesis using 1 2 3 4 by metis
qed

lemma hour_range [simp]: "0 \<le> hour_of t" "hour_of t < 24"
  by (simp_all add: hour_of_def)

lemma minute_range [simp]: "0 \<le> minute_of t" "minute_of t < 60"
  by (simp_all add: minute_of_def)

lemma second_range [simp]: "0 \<le> second_of t" "second_of t < 60"
  by (simp_all add: second_of_def)

lemma make_time_bounds:
  assumes "0 \<le> h" "h < 24" "0 \<le> i" "i < 60" "0 \<le> s" "s < 60" "0 \<le> ms" "ms < 1000"
  shows "0 \<le> make_time h i s ms \<and> make_time h i s ms < ms_day"
  using assms by (simp add: make_time_def ms_day_def)

lemma fields_make_time:
  assumes "0 \<le> h" "h < 24" "0 \<le> i" "i < 60" "0 \<le> s" "s < 60" "0 \<le> ms" "ms < 1000"
  shows "hour_of (k * ms_day + make_time h i s ms) = h"
    and "minute_of (k * ms_day + make_time h i s ms) = i"
    and "second_of (k * ms_day + make_time h i s ms) = s"
    and "(k * ms_day + make_time h i s ms) mod 1000 = ms"
proof -
  let ?t = "k * ms_day + make_time h i s ms"
  have "?t = (((k * 24 + h) * 60 + i) * 60 + s) * 1000 + ms"
    by (simp add: make_time_def ms_day_def algebra_simps)
  with assms have 1: "?t div 1000 = ((k * 24 + h) * 60 + i) * 60 + s" and m: "?t mod 1000 = ms"
    by (simp_all only: mod_mult_self3 div_mult_self3 mod_pos_pos_trivial div_pos_pos_trivial)
  have "?t div 60000 = ?t div 1000 div 60" by (simp add: zdiv_zmult2_eq [symmetric])
  with 1 assms have 2: "?t div 60000 = (k * 24 + h) * 60 + i" by simp
  have "?t div 3600000 = ?t div 60000 div 60" by (simp add: zdiv_zmult2_eq [symmetric])
  with 2 assms have 3: "?t div 3600000 = k * 24 + h" by simp
  show "hour_of ?t = h" "?t mod 1000 = ms" using assms by (simp_all add: hour_of_def 3 m)
  show "minute_of ?t = i" unfolding minute_of_def 2 using assms
    by (simp only: mod_mult_self3 mod_pos_pos_trivial)
  show "second_of ?t = s" unfolding second_of_def 1 using assms
    by (simp only: mod_mult_self3 mod_pos_pos_trivial)
qed

lemma getters_Some [simp]:
  "getUTCFullYear (Some t) = Some (year_of_day (day_of t))"
  "getUTCMonth (Some t) = Some (month_of_day (day_of t))"
  "getUTCDate (Some t) = Some (date_of_day (day_of t))"
  "getUTCDay (Some t) = Some (week_day (day_of t))"
  "getUTCHours (Some t) = Some (hour_of t)"
  "getUTCMinutes (Some t) = Some (minute_of t)"
  "getUTCSeconds (Some t) = Some (second_of t)"
  by (simp_all add: getUTCFullYear_def getUTCMonth_def getUTCDate_def getUTCDay_def getUTCHours_def
      getUTCMinutes_def getUTCSeconds_def)

lemma getters_None [simp]:
  "getUTCFullYear None = None" "getUTCMonth None = None" "getUTCDate None = None" "getUTCDay None = None"
  "getUTCHours None = None" "getUTCMinutes None = None" "getUTCSeconds None = None"
  by (simp_all add: getUTCFullYear_def getUTCMonth_def getUTCDate_def getUTCDay_def getUTCHours_def
      getUTCMinutes_def getUTCSeconds_def)

lemma time_clip_Some [simp]: "\<bar>t\<bar> \<le> 8640000000000000 \<Longrightarrow> time_clip t = Some t"
  by (simp add: time_clip_def)

lemma time_clipD: "time_clip t = Some u \<Longrightarrow> u = t \<and> \<bar>t\<bar> \<le> 8640000000000000"
  by (simp add: time_clip_def split: if_splits)

lemma setters_NaN [simp]:
  "setUTCDate v None = None" "setUTCMonth v None = None" "setUTCHours v None = None"
  "setUTCMinutes v None = None" "setUTCSeconds v None = None"
  "setUTCDate None d = None" "setUTCMonth None d = None" "setUTCHours None d = None"
  "setUTCMinutes None d = None" "setUTCSeconds None d = None"
  by (simp_all add: setUTCDate_def setUTCMonth_def setUTCHours_def setUTCMinutes_def setUTCSeconds_def
      num2_def split: option.split)

end
