(* ===== verification/Utils.thy ===== *)
theory Utils
  imports Handlers JsDate
begin

text \<open>
  \<open>commons/utils.js\<close> (\<open>hasText\<close>, the pattern \<open>formatDate\<close>, \<open>preId\<close>, \<open>parseIntById\<close>) and the date
  range pickers every monitoring page carries a copy of (\<open>formatDate\<close> with its \<open>padding\<close>, and
  \<open>datePairs\<close>). A \<open>Date\<close> is its local calendar fields; \<open>date_of\<close> computes them from a
  millisecond stamp for a fixed offset of the host's time zone.
\<close>

section \<open>commons/utils.js\<close>

definition hasText :: "jsval \<Rightarrow> bool" where
  "hasText text = (if nullish text \<or> trim (js_str text) = [] then False else True)"

record js_date =
  getFullYear :: nat
  getMonth :: nat
  getDate :: nat
  getHours :: nat
  getMinutes :: nat
  getSeconds :: nat

definition paddNum :: "nat \<Rightarrow> string" where
  "paddNum num = (let s = show_nat num in if length s = 1 then CHR ''0'' # s else s)"

text \<open>\<open>cfg[m]\<close>: the replacement of one run of letters, \<open>undefined\<close> for an unknown run.\<close>

definition date_cfg :: "js_date \<Rightarrow> string \<Rightarrow> string" where
  "date_cfg date m =
     (case map_of
       [(''yyyy'', show_nat (getFullYear date)),
        (''yy'', drop 2 (show_nat (getFullYear date))),
        (''M'', show_nat (getMonth date + 1)),
        (''MM'', paddNum (getMonth date + 1)),
        (''d'', show_nat (getDate date)),
        (''dd'', paddNum (getDate date)),
        (''hh'', show_nat (getHours date)),
        (''mm'', show_nat (getMinutes date)),
        (''ss'', show_nat (getSeconds date))] m of
      None \<Rightarrow> ''undefined'' | Some s \<Rightarrow> s)"

definition letters :: string where
  "letters = ''abcdefghijklmnopqrstuvwxyz''"

definition upper_letters :: string where
  "upper_letters = ''ABCDEFGHIJKLMNOPQRSTUVWXYZ''"

definition lower :: "char \<Rightarrow> char" where
  "lower c = (case map_of (zip upper_letters letters) c of None \<Rightarrow> c | Some l \<Rightarrow> l)"

text \<open>
  \<open>format.replace(/([a-z])(\1)*/ig, f)\<close>: every maximal run of one letter, read without regard to
  case, goes through \<open>f\<close>.
\<close>

fun replace_runs :: "(string \<Rightarrow> string) \<Rightarrow> string \<Rightarrow> string" where
  "replace_runs f [] = []"
| "replace_runs f (c # cs) =
     (if lower c \<in> set letters
      then (let r = takeWhile (\<lambda>d. lower d = lower c) cs
            in f (c # r) @ replace_runs f (drop (length r) cs))
      else c # replace_runs f cs)"

definition default_format :: string where
  "default_format = ''yyyy-MM-dd hh:mm:ss''"

definition utils_formatDate :: "js_date \<Rightarrow> string \<Rightarrow> string" where
  "utils_formatDate date format =
     replace_runs (date_cfg date) (if format = [] then default_format else format)"

definition preId :: "string \<Rightarrow> string" where
  "preId i = (if index_of ''#'' i = None then CHR ''#'' # i else i)"

text \<open>The element a selector \<open>#id\<close> names.\<close>

definition sel_id :: "string \<Rightarrow> string" where
  "sel_id s = (if s \<noteq> [] \<and> hd s = CHR ''#'' then tl s else s)"

definition parseIntById :: "string \<Rightarrow> (jsval \<Rightarrow> prog) \<Rightarrow> prog" where
  "parseIntById i k = Ask (QVal (sel_id (preId i)))
     (\<lambda>text. k (if hasText text then js_parseInt (js_str text) else JNum 1))"

section \<open>Date ranges\<close>

text \<open>The local calendar fields of a stamp.\<close>

definition date_of :: "int \<Rightarrow> int \<Rightarrow> js_date" where
  "date_of tz ms =
     (let t = ms + tz * 60000; d = day_of t
      in \<lparr>getFullYear = nat (year_of_day d), getMonth = nat (month_of_day d), getDate = nat (date_of_day d),
          getHours = nat (hour_of t), getMinutes = nat (minute_of t), getSeconds = nat (second_of t)\<rparr>)"

text \<open>
  \<open>Date.parse(new Date(text))\<close> on the pickers' \<open>yyyy-mm-dd hh:ii\<close> texts: the millisecond stamp,
  \<open>NaN\<close> for any other text.
\<close>

definition read_stamp :: "string \<Rightarrow> nat list option" where
  "read_stamp s = (case split_at (CHR '' '') s of
      [d, t] \<Rightarrow> (case (split_at (CHR ''-'') d, split_at (CHR '':'') t) of
          ([y, m, dd], [h, mi]) \<Rightarrow> read_all [y, m, dd, h, mi]
        | _ \<Rightarrow> None)
    | _ \<Rightarrow> None)"

definition date_parse :: "int \<Rightarrow> jsval \<Rightarrow> jsval" where
  "date_parse tz v = (case read_stamp (js_str v) of
      Some [y, m, d, h, mi] \<Rightarrow>
        if m \<in> {1..12} \<and> d \<in> {1..31} \<and> h < 24 \<and> mi < 60
        then JNum (make_day (int y) (int m - 1) (int d) * ms_day + make_time (int h) (int mi) 0 0 - tz * 60000)
        else JNaN
    | _ \<Rightarrow> JNaN)"

definition padding :: "nat \<Rightarrow> string" where
  "padding str = (if str > 0 \<and> str < 10 then CHR ''0'' # show_nat str else show_nat str)"

definition formatDate :: "js_date \<Rightarrow> string" where
  "formatDate date =
     show_nat (getFullYear date) @ ''-'' @ padding (getMonth date + 1) @ ''-'' @
     padding (getDate date) @ '' '' @ padding (getHours date) @ '':'' @ padding (getMinutes date)"

text \<open>\<open>a || b\<close> on optional millisecond arguments.\<close>

definition or_default :: "int option \<Rightarrow> int \<Rightarrow> int" where
  "or_default a b = (case a of None \<Rightarrow> b | Some x \<Rightarrow> if x = 0 then b else x)"

text \<open>The two pickers: the range they allow and their initial values.\<close>

definition datePairs :: "int \<Rightarrow> int \<Rightarrow> string \<Rightarrow> string \<Rightarrow> int option \<Rightarrow> int option \<Rightarrow> prog" where
  "datePairs tz nowdate date1 date2 start maxDate =
     (let startDate = nowdate - or_default maxDate (1000 * 60 * 60 * 24 * 30);
          defaultEnd = formatDate (date_of tz nowdate);
          startVal = or_default start (4 * 1000 * 60 * 60);
          defaultStart = formatDate (date_of tz (nowdate - startVal))
      in Do (PickerInit date1 (JNum startDate) (JNum nowdate))
         (Do (PickerInit date2 (JNum startDate) (JNum nowdate))
         (Do (SetVal date1 (JStr defaultStart)) (Do (PickerUpdate date1)
         (Do (SetVal date2 (JStr defaultEnd)) (Do (PickerUpdate date2) Done))))))"

definition date1_changed :: "string \<Rightarrow> string \<Rightarrow> prog" where
  "date1_changed date1 date2 =
     Ask (QVal date1) (\<lambda>v1. Ask (QVal date2) (\<lambda>v2.
       if js_gt v1 v2
       then Do (Alert (JStr ''the start may not be after the end''))
              (Do (SetVal date1 v2) (Do (PickerUpdate date1) Done))
       else Done))"

definition date2_changed :: "string \<Rightarrow> string \<Rightarrow> prog" where
  "date2_changed date1 date2 =
     Ask (QVal date1) (\<lambda>v1. Ask (QVal date2) (\<lambda>v2.
       if js_gt v1 v2
       then Do (Alert (JStr ''the end may not be before the start''))
              (Do (SetVal date2 v1) (Do (PickerUpdate date2) Done))
       else Done))"

section \<open>Facts\<close>

lemma hasText_str: "hasText (JStr s) \<longleftrightarrow> (\<exists>c \<in> set s. \<not> is_ws c)"
  by (auto simp: hasText_def nullish_def trim_Nil_iff)

lemma hasText_nullish [simp]: "\<not> hasText JUndef" "\<not> hasText JNull"
  by (simp_all add: hasText_def nullish_def)

lemma append_less_iff:
  fixes u v x y :: string
  shows "length u = length v \<Longrightarrow> u @ x < v @ y \<longleftrightarrow> u < v \<or> u = v \<and> x < y"
  by (induction u v rule: list_induct2) auto

lemma digit_char_less: "m < 10 \<Longrightarrow> n < 10 \<Longrightarrow> digit_char m < digit_char n \<longleftrightarrow> m < n"
  by (drule less_10_cases, drule less_10_cases)
     (auto simp: digit_char_def digits_def less_char_def)

lemma digit_char_inj: "m < 10 \<Longrightarrow> n < 10 \<Longrightarrow> digit_char m = digit_char n \<longleftrightarrow> m = n"
  by (metis digit_val_char option.inject)

lemma less_by_digits:
  "(m::nat) < n \<longleftrightarrow> m div 10 < n div 10 \<or> m div 10 = n div 10 \<and> m mod 10 < n mod 10"
proof -
  have "10 * a + b < 10 * c + d \<longleftrightarrow> a < c \<or> a = c \<and> b < d" if "b < 10" "d < 10" for a b c d :: nat
    using that by linarith
  from this [of "m mod 10" "n mod 10" "m div 10" "n div 10"] show ?thesis by simp
qed

lemma show_nat_less:
  "length (show_nat m) = length (show_nat n) \<Longrightarrow> show_nat m < show_nat n \<longleftrightarrow> m < n"
proof (induction m arbitrary: n rule: show_nat.induct)
  case (1 m)
  show ?case
  proof (cases "m < 10")
    case True
    with 1 have "n < 10" by (auto simp: show_nat.simps [of n] show_nat.simps [of m] split: if_splits)
    with True show ?thesis by (simp add: show_nat.simps digit_char_less)
  next
    case False
    with 1 have n: "\<not> n < 10"
      by (auto simp: show_nat.simps [of n] show_nat.simps [of m] split: if_splits)
    have len: "length (show_nat (m div 10)) = length (show_nat (n div 10))"
      using "1.prems" False n by (simp add: show_nat.simps [of n] show_nat.simps [of m])
    have "show_nat m < show_nat n \<longleftrightarrow>
        m div 10 < n div 10 \<or> m div 10 = n div 10 \<and> m mod 10 < n mod 10"
      using "1.IH" [OF False len] False n len
      by (simp add: show_nat.simps [of n] show_nat.simps [of m] append_less_iff digit_char_less)
    also have "\<dots> \<longleftrightarrow> m < n" by (rule less_by_digits [symmetric])
    finally show ?thesis .
  qed
qed

lemma show_nat_step: "10 \<le> n \<Longrightarrow> show_nat n = show_nat (n div 10) @ [digit_char (n mod 10)]"
  by (simp add: show_nat.simps [of n])

lemma length_show_nat_4:
  assumes "1000 \<le> n" and "n < 10000"
  shows "length (show_nat n) = 4"
proof -
  have "10 \<le> n div 10" "10 \<le> n div 100" "n div 1000 < 10" using assms by auto
  then show ?thesis
    using assms(1) show_nat.simps [of "n div 1000"]
    by (simp add: show_nat_step div_mult2_eq [symmetric])
qed

lemma padding_digits:
  "0 < n \<Longrightarrow> n < 100 \<Longrightarrow> padding n = [digit_char (n div 10), digit_char (n mod 10)]"
  by (cases "n < 10")
     (simp_all add: padding_def show_nat_step show_nat.simps [of n] show_nat.simps [of "n div 10"]
        less_mult_imp_div_less digit_char_def digits_def)

lemma length_padding: "0 < n \<Longrightarrow> n < 100 \<Longrightarrow> length (padding n) = 2"
  by (simp add: padding_digits)

lemma padding_less:
  assumes "0 < m" "m < 100" "0 < n" "n < 100"
  shows "padding m < padding n \<longleftrightarrow> m < n"
  using assms unfolding less_by_digits [of m n]
  by (simp add: padding_digits digit_char_less digit_char_inj less_mult_imp_div_less)

lemma padding_inj: "0 < m \<Longrightarrow> m < 100 \<Longrightarrow> 0 < n \<Longrightarrow> n < 100 \<Longrightarrow> padding m = padding n \<longleftrightarrow> m = n"
  by (metis less_irrefl linorder_neqE_nat padding_less)

text \<open>A date the pickers print with every field at its full width.\<close>

definition full_width :: "js_date \<Rightarrow> bool" where
  "full_width d \<longleftrightarrow> 1000 \<le> getFullYear d \<and> getFullYear d < 10000 \<and> getMonth d < 12 \<and>
     0 < getDate d \<and> getDate d < 32 \<and> 0 < getHours d \<and> getHours d < 24 \<and>
     0 < getMinutes d \<and> getMinutes d < 60"

definition minute_stamp :: "js_date \<Rightarrow> nat list" where
  "minute_stamp d = [getFullYear d, getMonth d, getDate d, getHours d, getMinutes d]"

lemma formatDate_less:
  assumes "full_width a" and "full_width b"
  shows "formatDate a < formatDate b \<longleftrightarrow> minute_stamp a < minute_stamp b"
proof -
  have "length (show_nat (getFullYear a)) = length (show_nat (getFullYear b))"
    using assms by (simp add: full_width_def length_show_nat_4)
  then show ?thesis
    using assms
    by (simp add: formatDate_def minute_stamp_def append_less_iff length_padding full_width_def
        show_nat_less padding_less padding_inj)
qed

section \<open>The order of the two dates\<close>

definition past_midnight :: js_date where
  "past_midnight = \<lparr>getFullYear = 2018, getMonth = 5, getDate = 14, getHours = 0, getMinutes = 30, getSeconds = 0\<rparr>"

definition at_nine :: js_date where
  "at_nine = past_midnight\<lparr>getHours := 9\<rparr>"



end
