(* ===== verification/ClusterInfo.thy ===== *)
theory ClusterInfo
  imports Utils
begin

text \<open>
  The page of one cluster, \<open>cluster/loadInfoData.js\<close>: the event, monitor, database, node and task
  tabs, the administration of the data-server nodes and the operations on running tasks.
  Angular controllers are programs run when the page loads; variables a synchronous request's
  callback assigns are kept in \<open>scope\<close> under the variable's name.
\<close>

section \<open>Tabs\<close>

definition cluster_ready :: "int \<Rightarrow> int \<Rightarrow> prog" where
  "cluster_ready tz now =
     seq (datePairs tz now ''startMonitor'' ''endMonitor'' None None)
       (seq (datePairs tz now ''startTask'' ''endTask'' None None)
       (seq (datePairs tz now ''startGateWay'' ''endGateWay'' None None)
         (datePairs tz now ''startEvent'' ''endEvent'' None None)))"

definition clusterEvent :: prog where
  "clusterEvent =
     Ask (QVal ''clusterId'') (\<lambda>clusterId. Ask (QVal ''startEvent'') (\<lambda>startTime.
     Ask (QVal ''endEvent'') (\<lambda>endTime.
     Do (ScopeSet ''options.data'' (JArr []))
     (Ajax (form_post_sync ''/cluster/getClusterEvent''
         [(''clusterId'', clusterId), (''startTime'', startTime), (''endTime'', endTime)])
       (\<lambda>data. if_code0 data
          (read_prop data ''attach'' (\<lambda>a. Do (ScopeSet ''options.data'' a) Done)) Done)
       (\<lambda>_. Done)
     (Ask (QScope ''options.data'') (\<lambda>d.
       Do (TableInit ''viewclustereventlist'' \<lparr>t_data = d, t_url = [],
         t_columns = [(''dbName'', ''database''), (''tableName'', ''table''),
           (''rangeId'', ''rangeId''), (''nodeId'', ''nodeId''), (''statisticsType'', ''type''),
           (''startTime'', ''start''), (''endTime'', ''end''),
           (''continuedTime'', ''duration (ns)'')]\<rparr>) Done))))))"

definition getMonitorUrl :: "string \<Rightarrow> string \<Rightarrow> jsval \<Rightarrow> jsval \<Rightarrow> jsval \<Rightarrow> jsval \<Rightarrow> string" where
  "getMonitorUrl dashboardName panelId clusterId startTime endTime type =
     ''/page/monitor/cluster?clusterId='' @ js_str clusterId @ ''&dashboardName='' @ dashboardName @
     ''&panelId='' @ panelId @ ''&startTime='' @ js_str startTime @ ''&endTime='' @ js_str endTime @
     ''&type='' @ js_str type"

definition set_frame :: "string \<Rightarrow> string \<Rightarrow> prog \<Rightarrow> prog" where
  [handler_defs]: "set_frame i url p = Do (SetAttr i ''src'' (JStr url)) (Do (LoadFrame i) p)"

definition myClusterMonitor_load :: "int \<Rightarrow> string \<Rightarrow> prog" where
  "myClusterMonitor_load tz type =
     Ask (QVal ''clusterId'') (\<lambda>clusterId. Ask (QVal ''startMonitor'') (\<lambda>s. Ask (QVal ''endMonitor'') (\<lambda>e.
       let startTime = (if type \<noteq> ''defaultOptions'' then date_parse tz s else JUndef);
           endTime = (if type \<noteq> ''defaultOptions'' then date_parse tz e else JUndef);
           url = (\<lambda>panel. getMonitorUrl ''ji-qun-gai-kuang'' panel clusterId startTime endTime (JStr []))
       in set_frame ''clusterSummary'' (url ''1'') (set_frame ''clientNum'' (url ''5'')
          (set_frame ''capacity'' (url ''9'') (set_frame ''tps'' (url ''3'')
          (set_frame ''tp999'' (url ''8'') (set_frame ''tpStd'' (url ''4'') Done))))))))"

definition monitor_queryFilter :: "int \<Rightarrow> prog" where
  "monitor_queryFilter tz = myClusterMonitor_load tz ''setOptions''"

definition myClusterDbList :: prog where
  "myClusterDbList =
     Ask (QVal ''clusterId'') (\<lambda>clusterId.
     Do (ScopeSet ''bt_data'' (JArr []))
     (Ajax (form_post_sync ''/metadata/dbDataGetAll'' [(''clusterId'', clusterId)])
       (\<lambda>data. read_prop data ''code'' (\<lambda>c. if js_eq c (JNum 0)
          then read_prop data ''data'' (\<lambda>d. read_prop d ''length'' (\<lambda>n.
            if js_gt n (JNum 0) then Do (ScopeSet ''bt_data'' d) Done else Done))
          else Done))
       (\<lambda>_. Done)
     (Ask (QScope ''bt_data'') (\<lambda>bt_data.
       Do (TableInit ''viewdbList'' \<lparr>t_data = bt_data, t_url = [],
         t_columns = [(''id'', ''ID''), (''name'', ''database''), (''operation'', ''operation'')]\<rparr>) Done))))"

definition db_buttons :: "jsval \<Rightarrow> string list" where
  "db_buttons row =
     [onclick ''viewConsole'' [prop_text row ''id'', prop_text row ''name''],
      onclick ''getTableInfo'' [prop_text row ''id'', prop_text row ''name''],
      onclick ''deleteDb'' [prop_text row ''name''],
      onclick ''dbmonitor'' [prop_text row ''id'', prop_text row ''name'']]"

definition viewConsole :: "string \<Rightarrow> string \<Rightarrow> prog" where
  "viewConsole dbId dbName = Ask (QVal ''clusterId'') (\<lambda>clusterId.
     Do (Goto (''/page/db/viewConsole?dbName='' @ dbName @ ''&dbId='' @ dbId @
       ''&clusterId='' @ js_str clusterId)) Done)"

definition getTableInfo :: "string \<Rightarrow> string \<Rightarrow> prog" where
  "getTableInfo dbId dbName = Ask (QVal ''clusterId'') (\<lambda>clusterId.
     Do (Goto (''/page/tables/tablelist?dbName='' @ dbName @ ''&dbId='' @ dbId @
       ''&clusterId='' @ js_str clusterId)) Done)"

definition deleteDb :: "string \<Rightarrow> prog" where
  "deleteDb dbName =
     ask_confirm ''delete database'' ''only a database without tables can be deleted'' []
       (Ask (QVal ''clusterId'') (\<lambda>clusterId.
        Ajax (form_post ''/metadata/deleteDb'' [(''dbName'', JStr dbName), (''clusterId'', clusterId)])
          (on_reply (swal3 ''database deleted'' (JStr ''database deleted'') ''success'' Done)
             ''delete failed'')
          (call_admin ''delete failed'') Done))
       Done"

definition dbmonitor :: "string \<Rightarrow> string \<Rightarrow> prog" where
  "dbmonitor dbId dbName = Ask (QVal ''clusterId'') (\<lambda>clusterId.
     Do (Goto (''/monitor/dbmonitor?dbId='' @ dbId @ ''&dbName='' @ dbName @
       ''&clusterId='' @ js_str clusterId)) Done)"

section \<open>Nodes\<close>

definition node_state :: "jsval \<Rightarrow> jsval" where
  "node_state value =
     (if js_eq value (JNum 0) then JStr ''N_Invalid''
      else if js_eq value (JNum 1) then JStr ''N_Login''
      else if js_eq value (JNum 2) then JStr ''N_Logout''
      else if js_eq value (JNum 3) then JStr ''N_Offline''
      else if js_eq value (JNum 4) then JStr ''N_Tombstone''
      else if js_eq value (JNum 5) then JStr ''N_Upgrade''
      else if js_eq value (JNum 6) then JStr ''N_Initial''
      else value)"

definition node_buttons :: "jsval \<Rightarrow> string list" where
  "node_buttons row = (let i = prop_text row ''id'' in
     [onclick ''upgradeNode'' [i],
      onclick ''viewNodeMonitor'' [i, prop_text row ''server_addr''],
      onclick ''updateNodeStatus'' [i],
      ''deleteNode('' @ i @ '');'',
      onclick ''updateNodeLogLevel'' [i],
      onclick ''getRangeTopoOfNode'' [i],
      onclick ''getConfigOfNode'' [i],
      onclick ''setConfigOfNode'' [i],
      onclick ''getDsInfoOfNode'' [i],
      onclick ''clearQueueOfNode'' [i],
      onclick ''getPendingQueuesOfNode'' [i],
      onclick ''flushDBOfNode'' [i]])"

definition myClusterNodeInfo :: prog where
  "myClusterNodeInfo =
     Ask (QVal ''clusterId'') (\<lambda>clusterId.
     Do (ScopeSet ''bt_data'' JUndef)
     (Ajax (form_post_sync ''/node/nodeInfoGetAll'' [(''clusterId'', clusterId)])
       (\<lambda>data. if_code0 data (read_prop data ''data'' (\<lambda>d. Do (ScopeSet ''bt_data'' d) Done)) Done)
       (\<lambda>_. Done)
     (Ask (QScope ''bt_data'') (\<lambda>bt_data.
       Do (TableInit ''viewnodeList'' \<lparr>t_data = bt_data, t_url = [],
         t_columns = [([], ''checkbox''), (''id'', ''ID''), (''server_addr'', ''server_address''),
           (''admin_addr'', ''admin_addr''), (''raft_addr'', ''replicate_addr''),
           (''version'', ''opsStat_max''), (''state'', ''state''), (''operation'', ''operation'')]\<rparr>)
       Done))))"

definition viewNodeMonitor :: "string \<Rightarrow> string \<Rightarrow> prog" where
  "viewNodeMonitor nodeId host = Ask (QVal ''clusterId'') (\<lambda>clusterId.
     Do (Goto (''/monitor/nodeMonitor?nodeId='' @ nodeId @ ''&host='' @ host @
       ''&clusterId='' @ js_str clusterId)) Done)"

definition updateNodeStatus :: "string \<Rightarrow> prog" where
  "updateNodeStatus nodeId =
     ask_select ''node status'' ''selectNodeStatus'' [(''1'', ''force online''), (''2'', ''offline'')]
       (Ask (QVal ''selectNodeStatus'') (\<lambda>status.
        if \<not> hasText status then swal1 ''please choose the node status'' Done
        else Ask (QVal ''clusterId'') (\<lambda>clusterId.
          Ajax (form_post ''/node/nodeStatusUpdate''
              [(''nodeId'', JStr nodeId), (''clusterId'', clusterId), (''status'', status)])
            (on_reply (swal3 ''status updated'' (JStr ''status updated'') ''success'' Done)
               ''status update failed'')
            (call_admin ''status update failed'') Done)))
       Done"

definition batchDeleteNode :: prog where
  "batchDeleteNode =
     Ask (QSelections ''viewnodeList'') (\<lambda>sel.
     if length (elems sel) \<le> 0
     then swal3 ''delete nodes'' (JStr ''please choose the nodes to delete'') ''error'' Done
     else push_ids (elems sel) (\<lambda>nodeIds.
       ask_confirm ''delete nodes, only logged-out nodes can be deleted'' [] ''warning''
         (Ask (QVal ''clusterId'') (\<lambda>clusterId.
          Ajax (form_post ''/node/deleteNode''
              [(''clusterId'', clusterId), (''nodeIds'', JStr (json_str (JArr nodeIds)))])
            (on_reply (swal3 ''deleted'' (JStr ''deleted'') ''success''
                 (for_each (\<lambda>i. Do (TableRemove ''viewnodeList'' ''id'' i)) nodeIds Done))
               ''delete failed'')
            (call_admin ''delete failed'') Done))
         Done))"

definition deleteNode :: "jsval \<Rightarrow> prog" where
  "deleteNode nodeId =
     ask_confirm ''delete node, only logged-out nodes can be deleted'' [] ''warning''
       (Ask (QVal ''clusterId'') (\<lambda>clusterId.
        Ajax (form_post ''/node/deleteNode''
            [(''nodeIds'', JStr (json_str (JArr [nodeId]))), (''clusterId'', clusterId)])
          (on_reply (swal3 ''deleted'' (JStr ''deleted'') ''success''
               (Do (TableRemove ''viewnodeList'' ''id'' nodeId) Done))
             ''delete failed'')
          (call_admin ''delete failed'') Done))
       Done"

definition upgradeNode :: "string \<Rightarrow> prog" where
  "upgradeNode nodeId =
     ask_confirm ''do you want to upgrade?'' [] ''warning''
       (Ask (QVal ''clusterId'') (\<lambda>clusterId.
        Ajax (form_post ''/node/nodeStatusUpdate''
            [(''nodeId'', JStr nodeId), (''clusterId'', clusterId), (''status'', JNum 3)])
          (on_reply (swal3 ''node upgraded'' (JStr ''node upgraded'') ''success'' Done)
             ''upgrade failed'')
          (call_admin ''upgrade failed'') Done))
       Done"

definition updateNodeLogLevel :: "string \<Rightarrow> prog" where
  "updateNodeLogLevel nodeId =
     ask_select ''log level'' ''selectLogLevel''
       [(''debug'', ''debug''), (''info'', ''info''), (''warn'', ''warn''), (''error'', ''error'')]
       (Ask (QVal ''selectLogLevel'') (\<lambda>logLevel.
        if \<not> hasText logLevel then swal1 ''please choose the log level'' Done
        else Ask (QVal ''clusterId'') (\<lambda>clusterId.
          Ajax (form_post ''/node/nodeLogLevelUpdate''
              [(''nodeId'', JStr nodeId), (''clusterId'', clusterId), (''logLevel'', logLevel)])
            (on_reply (swal3 ''log level updated'' (JStr ''log level updated'') ''success'' Done)
               ''log level update failed'')
            (call_admin ''log level update failed'') Done)))
       Done"

definition getRangeTopoOfNode :: "string \<Rightarrow> prog" where
  "getRangeTopoOfNode nodeId =
     ask_confirm ''view ranges'' ''with many ranges the page may take long to load'' []
       (Ask (QVal ''clusterId'') (\<lambda>clusterId.
        Do (Goto (''/node/getRangeTopo?clusterId='' @ js_str clusterId @ ''&nodeId='' @ nodeId)) Done))
       Done"

definition getConfigOfNode :: "string \<Rightarrow> prog" where
  "getConfigOfNode nodeId = Ask (QVal ''clusterId'') (\<lambda>clusterId.
     Do (Goto (''/node/goConfigPage?clusterId='' @ js_str clusterId @ ''&nodeId='' @ nodeId @
       ''&isGet=true'')) Done)"

definition setConfigOfNode :: "string \<Rightarrow> prog" where
  "setConfigOfNode nodeId = Ask (QVal ''clusterId'') (\<lambda>clusterId.
     Do (Goto (''/node/goConfigPage?clusterId='' @ js_str clusterId @ ''&nodeId='' @ nodeId @
       ''&isGet=false'')) Done)"

definition getDsInfoOfNode :: "string \<Rightarrow> prog" where
  "getDsInfoOfNode nodeId =
     ask_input ''data-server information'' ''enter a path, empty for the server information''
       (\<lambda>inputValue.
        if js_seq inputValue (JBool False) then Done
        else let path = (if js_seq inputValue (JStr []) then JStr ''server'' else inputValue) in
          Ask (QVal ''clusterId'') (\<lambda>clusterId.
          Ajax (form_post ''/node/getDsInfoOfNode''
              [(''nodeId'', JStr nodeId), (''clusterId'', clusterId), (''dsInfoPath'', path)])
            (\<lambda>data. on_reply (read_prop data ''data'' (\<lambda>d.
                 swal_html ''info''
                   (''<textarea style='overflow: auto;width: 100%;height: 100px' readonly >'' @
                      js_str d @ ''</textarea>'') ''success'' Done))
               ''data-server information failed'' data)
            (show_failure ''data-server information failed'') Done))
       Done"

definition clearQueueOfNode :: "string \<Rightarrow> prog" where
  "clearQueueOfNode nodeId =
     ask_select ''queue to clear'' ''selectQueueType''
       [(''0'', ''ALL''), (''1'', ''FAST_WORKER''), (''2'', ''SLOW_WORKER'')]
       (Ask (QVal ''selectQueueType'') (\<lambda>queueType.
        if \<not> hasText queueType then swal1 ''please choose the queue'' Done
        else Ask (QVal ''clusterId'') (\<lambda>clusterId.
          Ajax (form_post ''/node/clearQueueOfNode''
              [(''nodeId'', JStr nodeId), (''clusterId'', clusterId), (''queueType'', queueType)])
            (\<lambda>data. on_reply (read_prop data ''data'' (\<lambda>d.
                 swal3 ''queue cleared'' (JStr (''cleared='' @ js_str d)) ''success'' Done))
               ''clearing failed'' data)
            (show_failure ''clearing failed'') Done)))
       Done"

definition getPendingQueuesOfNode :: "string \<Rightarrow> prog" where
  "getPendingQueuesOfNode nodeId =
     ask_select_input ''type and number'' ''selectPendingType''
       [(''0'', ''ALL''), (''1'', ''INSERT''), (''2'', ''SELECT''), (''3'', ''POINT_SELECT''),
        (''4'', ''RANGE_SELECT'')]
       (\<lambda>inputValue. Ask (QVal ''selectPendingType'') (\<lambda>pendingType.
        if \<not> hasText pendingType then swal1 ''please choose the type'' Done
        else if js_seq inputValue (JBool False) then Done
        else if js_seq inputValue (JStr [])
          then Do (InputError (JStr ''please enter the number'')) Done
        else Ask (QVal ''clusterId'') (\<lambda>clusterId.
          Ajax (form_post ''/node/getPendingQueuesOfNode''
              [(''nodeId'', JStr nodeId), (''clusterId'', clusterId),
               (''pendingType'', pendingType), (''count'', inputValue)])
            (\<lambda>data. on_reply (read_prop data ''data'' (\<lambda>d.
                 swal3 ''pending queue'' d ''success'' Done))
               ''pending queue failed'' data)
            (show_failure ''pending queue failed'') Done)))
       Done"

definition flushDBOfNode :: "string \<Rightarrow> prog" where
  "flushDBOfNode nodeId =
     ask_select ''Wait FlushDB?'' ''selectWaitType'' [(''true'', ''True''), (''false'', ''False'')]
       (Ask (QVal ''selectWaitType'') (\<lambda>waitType.
        if \<not> hasText waitType then swal1 ''please choose whether to wait'' Done
        else Ask (QVal ''clusterId'') (\<lambda>clusterId.
          Ajax (form_post ''/node/flushDBOfNode''
              [(''nodeId'', JStr nodeId), (''clusterId'', clusterId), (''wait'', waitType)])
            (on_reply (swal3 ''Flush DB done'' (JStr ''Flush DB done'') ''success'' Done)
               ''Flush DB failed'')
            (show_failure ''Flush DB failed'') Done)))
       Done"

section \<open>Tasks\<close>

definition historyClusterTask :: prog where
  "historyClusterTask =
     Ask (QVal ''clusterId'') (\<lambda>clusterId.
     Ajax (http_get (''/task/getTypeAll?clusterId='' @ js_str clusterId))
       (\<lambda>data. on_reply (read_prop data ''data'' (\<lambda>d.
            Do (ScopeSet ''taskTypes'' d) (Do (ScopeSet ''item'' (JStr ''all'')) Done)))
          ''fetch failed'' data)
       (\<lambda>_. Done) Done)"

definition load_history_task :: "int \<Rightarrow> string \<Rightarrow> prog" where
  "load_history_task tz type =
     Ask (QVal ''clusterId'') (\<lambda>clusterId. Ask (QVal ''startTask'') (\<lambda>s. Ask (QVal ''endTask'') (\<lambda>e.
       let startTime = (if type \<noteq> ''defaultOptions'' then date_parse tz s else JUndef);
           endTime = (if type \<noteq> ''defaultOptions'' then date_parse tz e else JUndef)
       in Ask (QVal ''taskType'') (\<lambda>taskType.
          if \<not> hasText taskType
          then set_frame ''historyTask'' (getMonitorUrl ''li-shi-ren-wu-lie-biao-cluster'' ''1''
                 clusterId startTime endTime (JStr [])) Done
          else Ask (QSelectedText ''taskType'') (\<lambda>tt.
               set_frame ''historyTask'' (getMonitorUrl ''li-shi-ren-wu-lie-biao-cluster-type'' ''1''
                 clusterId startTime endTime tt) Done)))))"

definition presentClusterTask :: prog where
  "presentClusterTask =
     Ask (QVal ''clusterId'') (\<lambda>clusterId.
     Do (ScopeSet ''task.clusterId'' clusterId)
     (Do (ScopeSet ''options.data'' (JArr []))
     (Ajax (form_post_sync ''/task/getPresentTaskById''
         [(''type'', JStr ''allTask''), (''clusterId'', clusterId)])
       (\<lambda>data. if_code0 data (read_prop data ''data'' (\<lambda>d.
          if nullish d then Done
          else read_prop d ''length'' (\<lambda>n.
            if js_gt n (JNum 0) then Do (ScopeSet ''options.data'' d) Done else Done))) Done)
       (\<lambda>_. Done)
     (Ask (QScope ''options.data'') (\<lambda>d.
       Do (TableInit ''viewpresentlist'' \<lparr>t_data = d, t_url = [],
         t_columns = [(''id'', ''task ID''), (''range_id'', ''rangeID''), (''type'', ''type''),
           (''describe'', ''description''), (''state'', ''state''), (''operation'', ''checkbox'')]\<rparr>)
       Done)))))"

text \<open>
  The clean-up of the ids the server reports as failed: for each of them a loop over \<open>ids\<close> that
  splices equal elements out while its index runs on.
\<close>

function splice_equal :: "jsval \<Rightarrow> jsval list \<Rightarrow> nat \<Rightarrow> jsval list" where
  "splice_equal f ids j =
     (if j < length ids
      then splice_equal f (if js_eq f (ids ! j) then splice1 j ids else ids) (j + 1)
      else ids)"
  by pat_completeness auto
termination by (relation "measure (\<lambda>(f, ids, j). length ids - j)") auto

declare splice_equal.simps [simp del]

definition remove_failed :: "jsval list \<Rightarrow> jsval list \<Rightarrow> jsval list" where
  "remove_failed failed ids = foldl (\<lambda>ids f. splice_equal f ids 0) ids failed"

definition task_done :: "jsval \<Rightarrow> jsval list \<Rightarrow> jsval \<Rightarrow> prog" where
  "task_done selectTask ids data =
     if_code0 data
       (read_prop data ''data'' (\<lambda>failed. read_prop data ''msg'' (\<lambda>msg. read_prop failed ''length'' (\<lambda>n.
          let remove = (\<lambda>ids. if js_eq selectTask (JStr ''delete'')
                then Do (TableRemove ''viewpresentlist'' ''id'' (JArr ids)) Done else Done)
          in if js_gt n (JNum 0)
             then swal3 ''result'' (JStr (js_str msg @ '' failed tasks: '' @ js_str failed)) ''info''
                    (remove (remove_failed (elems failed) ids))
             else swal3 ''done'' msg ''info'' (remove ids)))))
       Done"

definition queryPut :: prog where
  "queryPut =
     Ask (QSelections ''viewpresentlist'') (\<lambda>sel.
     if length (elems sel) = 0 then Do (Alert (JStr ''please choose a task!'')) Done
     else push_ids (elems sel) (\<lambda>ids.
       Ask (QVal ''selectTask'') (\<lambda>selectTask. Ask (QScope ''task.clusterId'') (\<lambda>clusterId.
       ask_confirm ''task operation'' [] ''warning''
         (Ajax (form_post_sync ''/task/taskOperationById''
             [(''type'', selectTask), (''clusterId'', clusterId),
              (''taskId'', JStr (json_str (JArr ids)))])
           (task_done selectTask ids)
           (show_failure ''operation failed'') Done)
         Done))))"

definition showTabs :: "string \<Rightarrow> string \<Rightarrow> prog" where
  "showTabs tabsId url = Do (ShowTab tabsId) Done"

definition tabsHandler :: "jsval \<Rightarrow> prog" where
  "tabsHandler event = read_prop event ''data'' (\<lambda>data.
     read_prop data ''id'' (\<lambda>i. read_prop data ''url'' (\<lambda>u. showTabs (js_str i) (js_str u))))"

section \<open>Confirmation\<close>

text \<open>The requests of the page that change the cluster, and the handlers it installs.\<close>

definition cluster_changes :: "string list" where
  "cluster_changes = [''/metadata/deleteDb'', ''/node/nodeStatusUpdate'', ''/node/deleteNode'',
     ''/node/nodeLogLevelUpdate'', ''/node/clearQueueOfNode'', ''/node/flushDBOfNode'',
     ''/task/taskOperationById'']"

definition node_handlers :: "jsval \<Rightarrow> string \<Rightarrow> prog list" where
  "node_handlers nodeId host = (let i = js_str nodeId in
     [upgradeNode i, viewNodeMonitor i host, updateNodeStatus i, deleteNode nodeId,
      updateNodeLogLevel i, getRangeTopoOfNode i, getConfigOfNode i, setConfigOfNode i,
      getDsInfoOfNode i, clearQueueOfNode i, getPendingQueuesOfNode i, flushDBOfNode i])"

definition db_handlers :: "string \<Rightarrow> string \<Rightarrow> prog list" where
  "db_handlers dbId dbName =
     [viewConsole dbId dbName, getTableInfo dbId dbName, deleteDb dbName, dbmonitor dbId dbName]"

definition tab_handlers :: "int \<Rightarrow> prog list" where
  "tab_handlers tz = [clusterEvent, monitor_queryFilter tz, myClusterDbList, myClusterNodeInfo,
     batchDeleteNode, historyClusterTask, load_history_task tz ''setOptions'', presentClusterTask,
     queryPut]"

definition cluster_handlers :: "int \<Rightarrow> prog set" where
  "cluster_handlers tz = set (tab_handlers tz) \<union> {p. \<exists>i h. p \<in> set (node_handlers i h)} \<union>
     {p. \<exists>i n. p \<in> set (db_handlers i n)} \<union> range tabsHandler"

lemma task_done_disciplined [disc_simps]: "disciplined M (task_done t ids v) n"
  by (simp add: task_done_def Let_def disc_simps)

lemma node_handlers_disciplined:
  "p \<in> set (node_handlers i h) \<Longrightarrow> disciplined (to_paths cluster_changes) p 0"
  by (auto simp: node_handlers_def Let_def disc_simps cluster_changes_def js_seq_def
      upgradeNode_def viewNodeMonitor_def updateNodeStatus_def deleteNode_def updateNodeLogLevel_def
      getRangeTopoOfNode_def getConfigOfNode_def setConfigOfNode_def getDsInfoOfNode_def
      clearQueueOfNode_def getPendingQueuesOfNode_def flushDBOfNode_def)

lemma db_handlers_disciplined:
  "p \<in> set (db_handlers i n) \<Longrightarrow> disciplined (to_paths cluster_changes) p 0"
  by (auto simp: db_handlers_def disc_simps cluster_changes_def viewConsole_def getTableInfo_def
      deleteDb_def dbmonitor_def)

lemma tab_handlers_disciplined:
  "p \<in> set (tab_handlers tz) \<Longrightarrow> disciplined (to_paths cluster_changes) p 0"
  by (auto simp: tab_handlers_def Let_def disc_simps cluster_changes_def clusterEvent_def
      monitor_queryFilter_def myClusterMonitor_load_def set_frame_def myClusterDbList_def
      myClusterNodeInfo_def batchDeleteNode_def historyClusterTask_def load_history_task_def
      presentClusterTask_def queryPut_def)

interpretation cluster_page: confirmed_page "cluster_handlers tz" "to_paths cluster_changes" for tz
proof
  fix p assume "p \<in> cluster_handlers tz"
  then show "disciplined (to_paths cluster_changes) p 0"
    unfolding cluster_handlers_def
    by (auto simp: tabsHandler_def showTabs_def disc_simps dest: node_handlers_disciplined
        db_handlers_disciplined tab_handlers_disciplined)
qed

section \<open>Task clean-up\<close>

lemma splice_equal_absent: "f \<notin> set ns \<Longrightarrow> splice_equal (JNum f) (map JNum ns) j = map JNum ns"
proof (induction "length ns - j" arbitrary: j)
  case 0
  then show ?case by (simp add: splice_equal.simps)
next
  case (Suc n)
  have "\<not> js_eq (JNum f) (map JNum ns ! j)"
    using Suc.hyps(2) Suc.prems by auto
  with Suc show ?case by (subst splice_equal.simps) (auto)
qed

lemma splice_equal_distinct:
  "distinct ns \<Longrightarrow> splice_equal (JNum f) (map JNum ns) j =
     map JNum (take j ns @ filter (\<lambda>n. n \<noteq> f) (drop j ns))"
proof (induction "length ns - j" arbitrary: j)
  case 0
  then show ?case by (simp add: splice_equal.simps)
next
  case (Suc n)
  then have j: "j < length ns" by simp
  then have dr: "drop j ns = ns ! j # drop (Suc j) ns" by (simp add: Cons_nth_drop_Suc)
  show ?case
  proof (cases "ns ! j = f")
    case True
    have "f \<notin> set (splice1 j ns)" and tail: "f \<notin> set (drop (Suc j) ns)"
      using Suc.prems True j id_take_nth_drop [OF j] distinct_append [of "take j ns" "drop j ns"]
      by (auto simp: splice1_def dr)
    then have "splice_equal (JNum f) (map JNum ns) j = map JNum (splice1 j ns)"
      using j True splice_equal_absent [of f "splice1 j ns" "Suc j"]
      by (subst splice_equal.simps) (simp add: splice1_map)
    moreover have "filter (\<lambda>n. n \<noteq> f) (drop (Suc j) ns) = drop (Suc j) ns"
      by (rule filter_True) (use tail in auto)
    ultimately show ?thesis using True by (simp add: dr splice1_def)
  next
    case False
    then have "splice_equal (JNum f) (map JNum ns) j = splice_equal (JNum f) (map JNum ns) (Suc j)"
      using j by (subst splice_equal.simps) simp
    also have "\<dots> = map JNum (take (Suc j) ns @ filter (\<lambda>n. n \<noteq> f) (drop (Suc j) ns))"
      using Suc by simp
    finally show ?thesis using False j by (simp add: dr take_Suc_conv_app_nth)
  qed
qed

lemma remove_failed_filter:
  "distinct ns \<Longrightarrow> remove_failed (map JNum fs) (map JNum ns) =
     map JNum (filter (\<lambda>n. n \<notin> set fs) ns)"
proof (induction fs arbitrary: ns)
  case (Cons f fs)
  from Cons.IH [of "filter (\<lambda>n. n \<noteq> f) ns"] Cons.prems show ?case
    by (simp add: remove_failed_def splice_equal_distinct conj_commute)
qed (simp add: remove_failed_def)

lemma task_done_nonblocking: "nonblocking (task_done t ids v)"
  by (auto simp: task_done_def Let_def if_code0_def read_prop_def swal3_def split: option.split)

lemma task_done_delete:
  assumes "distinct ns"
  shows "rows (exec (task_done (JStr ''delete'') (map JNum ns)
      (JObj [(''code'', JNum 0), (''msg'', m), (''data'', JArr (map JNum fs))])) s) ''viewpresentlist''
    = filter (\<lambda>r. table_keeps ''id'' (JArr (map JNum (filter (\<lambda>n. n \<notin> set fs) ns))) (fst r))
        (rows s ''viewpresentlist'')"
  using assms
  by (cases fs) (simp_all add: task_done_def if_code0_def read_prop_def js_seq_def swal3_def
      do_effect_def remove_failed_filter [where fs = "_ # _", simplified])

text \<open>
  C2. Deleting running tasks: when the user selects tasks, asks for \<open>delete\<close>, confirms, and the
  server answers with the list of the tasks it failed to delete, exactly the selected tasks that
  are not in that list leave the table, in spite of the clean-up loop that splices the array it
  runs over. The table's rows have distinct numeric ids.
\<close>

theorem task_delete_rows:
  assumes "blocked s = None" and "vals s ''selectTask'' = Some (JStr ''delete'')"
    and "numbered (rows s ''viewpresentlist'')"
    and "selected_ids (rows s ''viewpresentlist'') \<noteq> []"
  shows "rows (run s [Click queryPut, Confirm x,
      SyncReply True (JObj [(''code'', JNum 0), (''msg'', m), (''data'', JArr (map JNum fs))])])
      ''viewpresentlist''
    = filter (\<lambda>(r, b). \<not> b \<or> rid r \<in> set fs) (rows s ''viewpresentlist'')"
proof -
  let ?rs = "rows s ''viewpresentlist''"
  have sel: "map fst (filter snd ?rs) \<noteq> []" using assms(4) by (simp add: selected_ids_def)
  have d: "distinct (selected_ids ?rs)"
    using assms(3) by (simp add: numbered_def selected_ids_def distinct_map_filter)
  have keep: "table_keeps ''id'' (JArr (map JNum (filter (\<lambda>n. n \<notin> set fs) (selected_ids ?rs)))) (fst r)
      \<longleftrightarrow> (case r of (r, b) \<Rightarrow> \<not> b \<or> rid r \<in> set fs)" if "r \<in> set ?rs" for r
    using that assms(3) selected_ids_iff [OF assms(3), of "fst r" "snd r"]
    by (auto simp: table_keeps_nums numbered_def list_all_iff split: prod.split)
  show ?thesis
    using assms(1,2) sel
    by (simp add: queryPut_def push_ids_selected [OF assms(3)] ask_confirm_def
        exec_after_Done [OF task_done_nonblocking] task_done_delete [OF d] keep
        del: disj_not1 cong: filter_cong)
qed

section \<open>Deleting nodes\<close>

lemma exec_for_each_remove:
  "rows (exec (for_each (\<lambda>i. Do (TableRemove t ''id'' i)) (map JNum ns) Done) s) = rows s"
  by (induction ns arbitrary: s) (simp_all add: do_effect_def fun_upd_idem)

text \<open>
  C7. The batch deletion of nodes sends exactly one request after the confirmation, and the id
  list in it, read back from its JSON text, is the list of the ids of the selected rows in the
  order of the table.
\<close>

theorem batch_delete_request:
  assumes "blocked s = None" and "numbered (rows s ''viewnodeList'')"
    and "selected_ids (rows s ''viewnodeList'') = map int ns" and "ns \<noteq> []"
  shows "\<exists>c js. sent (run s [Click batchDeleteNode, Confirm x]) =
      sent s @ [form_post ''/node/deleteNode'' [(''clusterId'', c), (''nodeIds'', JStr js)]] \<and>
      read_id_array js = Some ns"
proof -
  let ?rs = "rows s ''viewnodeList''"
  have sel: "map fst (filter snd ?rs) \<noteq> []" using assms(3,4) by (auto simp: selected_ids_def)
  have js: "read_id_array (json_str (JArr (map JNum (map int ns)))) = Some ns"
    using read_id_array_json [of ns] by (simp add: comp_def)
  show ?thesis
    using assms(1) sel js
    by (auto simp: batchDeleteNode_def push_ids_selected [OF assms(2)] assms(3) ask_confirm_def
        simp del: json_str.simps)
qed

text \<open>
  After a successful deletion the deleted node's row stays on the page, for the row button
  and for the batch button: the handlers give bootstrap-table's \<open>remove\<close> a number where it
  expects an array of values.
\<close>

theorem deleted_nodes_stay_listed:
  assumes "blocked s = None" and "numbered (rows s ''viewnodeList'')"
    and "selected_ids (rows s ''viewnodeList'') \<noteq> []"
  shows "rows (run s [Click (deleteNode (JNum n)), Confirm x,
           Reply (length (pend s)) True (ok_reply d)]) = rows s \<and>
         rows (run s [Click batchDeleteNode, Confirm x,
           Reply (length (pend s)) True (ok_reply d)]) = rows s"
proof
  have sel: "map fst (filter snd (rows s ''viewnodeList'')) \<noteq> []"
    using assms(3) by (simp add: selected_ids_def)
  show "rows (run s [Click (deleteNode (JNum n)), Confirm x,
           Reply (length (pend s)) True (ok_reply d)]) = rows s"
    using assms(1)
    by (simp add: deleteNode_def ask_confirm_def on_reply_def if_code0_def read_prop_def
        ok_reply_def js_seq_def swal3_def do_effect_def fun_upd_idem)
  show "rows (run s [Click batchDeleteNode, Confirm x,
           Reply (length (pend s)) True (ok_reply d)]) = rows s"
    using assms(1) sel
    by (simp add: batchDeleteNode_def push_ids_selected [OF assms(2)] ask_confirm_def on_reply_def
        if_code0_def read_prop_def ok_reply_def js_seq_def swal3_def exec_for_each_remove)
qed

section \<open>Concrete runs\<close>

definition demo_row :: "int \<Rightarrow> jsval" where
  "demo_row n = JObj [(''id'', JNum n), (''state'', JNum 2)]"

definition demo_cluster :: sys where
  "demo_cluster = empty_sys\<lparr>vals := [''clusterId'' \<mapsto> JStr ''1'', ''selectTask'' \<mapsto> JStr ''delete''],
     rows := (\<lambda>t. if t = ''viewpresentlist'' \<or> t = ''viewnodeList''
        then [(demo_row 4, True), (demo_row 5, True), (demo_row 6, False)] else [])\<rparr>"

lemma demo_cluster_facts:
  "blocked demo_cluster = None" "pend demo_cluster = []" "dlg demo_cluster = None"
  "sent demo_cluster = []" "fresh demo_cluster"
  "vals demo_cluster ''selectTask'' = Some (JStr ''delete'')"
  "numbered (rows demo_cluster ''viewpresentlist'')"
  "numbered (rows demo_cluster ''viewnodeList'')"
  "selected_ids (rows demo_cluster ''viewpresentlist'') = [4, 5]"
  "selected_ids (rows demo_cluster ''viewnodeList'') = map int [4, 5]"
  by (simp_all add: demo_cluster_def empty_sys_def demo_row_def numbered_def num_id_def rid_def
      selected_ids_def fresh_def)

theorem task_delete_rows_witness:
  "rows (run demo_cluster [Click queryPut, Confirm [],
      SyncReply True (JObj [(''code'', JNum 0), (''msg'', JStr ''ok''), (''data'', JArr (map JNum [5]))])])
      ''viewpresentlist'' = [(demo_row 5, True), (demo_row 6, False)]"
  by (subst task_delete_rows)
     (simp_all add: demo_cluster_facts, simp add: demo_cluster_def demo_row_def rid_def num_id_def)

theorem batch_delete_request_witness:
  "\<exists>c js. sent (run demo_cluster [Click batchDeleteNode, Confirm []]) =
      [form_post ''/node/deleteNode'' [(''clusterId'', c), (''nodeIds'', JStr js)]] \<and>
      read_id_array js = Some [4, 5]"
  using batch_delete_request [of demo_cluster "[4, 5]" "[]"] demo_cluster_facts by simp

theorem deleted_nodes_stay_listed_witness:
  "rows (run demo_cluster [Click (deleteNode (JNum 4)), Confirm [], Reply 0 True (ok_reply JNull)])
     ''viewnodeList'' = [(demo_row 4, True), (demo_row 5, True), (demo_row 6, False)]"
proof -
  have "rows (run demo_cluster [Click (deleteNode (JNum 4)), Confirm [],
      Reply (length (pend demo_cluster)) True (ok_reply JNull)]) = rows demo_cluster"
    by (rule deleted_nodes_stay_listed [THEN conjunct1]) (simp_all only: demo_cluster_facts, simp_all)
  then have "rows (run demo_cluster [Click (deleteNode (JNum 4)), Confirm [],
      Reply 0 True (ok_reply JNull)]) ''viewnodeList'' = rows demo_cluster ''viewnodeList''"
    unfolding demo_cluster_facts(2) list.size(3) by (rule fun_cong)
  then show ?thesis by (rule trans) (simp add: demo_cluster_def)
qed

lemma deleteNode_handler: "deleteNode (JNum n) \<in> cluster_handlers tz"
proof -
  have "deleteNode (JNum n) \<in> set (node_handlers (JNum n) [])"
    by (simp add: node_handlers_def Let_def)
  then show ?thesis unfolding cluster_handlers_def by blast
qed

end
