(* ===== verification/TableSchema.thy ===== *)
theory TableSchema
  imports Utils
begin

text \<open>
  The schema editors, \<open>createtables/createtable.js\<close> and \<open>createtables/edittable.js\<close>. The grid's
  column array is shared between the grid and the submit handler, which edits it in place; it is
  kept in \<open>scope\<close> as \<open>data\<close>. Exceptions of the validation loops are values of a sum type.
\<close>

section \<open>createtable.js\<close>

definition grid_fields :: "(string \<times> string) list" where
  "grid_fields = [(''name'', ''column''), (''data_type'', ''type''), (''unsigned'', ''Unsigned''),
     (''primary_key'', ''primary key''), (''auto_increment'', ''auto increment''),
     (''regxs'', ''dynamic column'')]"

text \<open>The type codes the grid offers.\<close>

definition dataTypes :: "(string \<times> int) list" where
  "dataTypes = [(''Tinyint'', 1), (''Smallint'', 2), (''Int'', 3), (''BigInt'', 4), (''Float'', 5),
     (''Double'', 6), (''Varchar'', 7), (''Binary'', 8), (''Date'', 9), (''TimeStamp'', 10)]"

definition create_ready :: prog where
  "create_ready = Do (ScopeSet ''data'' (JArr []))
     (Do (TableInit ''jsGrid'' \<lparr>t_data = JArr [], t_url = [], t_columns = grid_fields\<rparr>) Done)"

definition is_lt :: "char \<Rightarrow> bool" where
  "is_lt c \<longleftrightarrow> c = CHR 0x0A \<or> c = CHR 0x0D"

text \<open>
  \<open>x.replace(/^\s+|\s+$/gm, '')\<close>, scanning from the left: \<open>bol\<close> says that a line starts here, where
  the whole run of blanks goes; elsewhere a run goes up to the end of the text or up to its last
  line break.
\<close>

definition cut_len :: "string \<Rightarrow> string \<Rightarrow> nat" where
  "cut_len blanks rest = (if rest = [] then length blanks
     else length blanks - length (takeWhile (\<lambda>c. \<not> is_lt c) (rev blanks)) - 1)"

function trim_lines :: "bool \<Rightarrow> string \<Rightarrow> string" where
  "trim_lines bol [] = []"
| "trim_lines bol (c # cs) =
     (let blanks = takeWhile is_ws (c # cs); rest = dropWhile is_ws (c # cs); k = cut_len blanks rest in
      if bol \<and> is_ws c then trim_lines False rest
      else if is_ws c \<and> 0 < k then trim_lines (is_lt (blanks ! (k - 1))) (drop k (c # cs))
      else c # trim_lines (is_lt c) cs)"
  by pat_completeness auto
termination
proof (relation "measure (\<lambda>(b, s). length s)", goal_cases)
  case (2 bol c cs)
  then show ?case by (auto simp: less_Suc_eq_le intro: length_dropWhile_le)
qed auto

definition myTrim :: "string \<Rightarrow> string" where
  "myTrim x = trim_lines True x"

text \<open>\<open>case 1, 2, 3, 4:\<close> is one label, the value of the comma expression, which is 4.\<close>

definition isIntType :: "jsval \<Rightarrow> bool" where
  "isIntType dataType = js_seq dataType (JNum 4)"

text \<open>
  The first loop: whether a primary key was seen, whether every auto-increment column passed, and
  the number of auto-increment primary keys. \<open>is_int\<close> is the page's \<open>isIntType\<close>, \<open>None\<close> where the
  page does not define it.
\<close>

fun check_columns ::
    "(jsval \<Rightarrow> bool) option \<Rightarrow> jsval list \<Rightarrow> bool \<Rightarrow> nat \<Rightarrow> js_error + bool \<times> bool \<times> nat" where
  "check_columns is_int [] pkFlg incCount = Inr (pkFlg, True, incCount)"
| "check_columns is_int (c # cs) pkFlg incCount =
     (case (get_prop c ''primary_key'', get_prop c ''auto_increment'', get_prop c ''data_type'') of
        (Some pk, Some inc, Some ty) \<Rightarrow>
          let pkFlg' = (pkFlg \<or> truthy pk);
              incCount' = incCount + (if truthy pk \<and> truthy inc then 1 else 0)
          in if truthy inc
             then (case is_int of
                 None \<Rightarrow> Inl (ReferenceError ''isIntType'')
               | Some f \<Rightarrow>
                   if \<not> f (js_or ty (JBool (\<not> truthy pk))) then Inr (pkFlg', False, incCount)
                   else check_columns is_int cs pkFlg' incCount')
             else check_columns is_int cs pkFlg' incCount'
      | _ \<Rightarrow> Inl (TypeError ''primary_key''))"

text \<open>The fields the second loop writes into a column.\<close>

definition normalise :: "jsval \<Rightarrow> jsval" where
  "normalise c = (let d = set_prop c ''index'' (JBool True) in
     set_prop d ''primary_key''
       (case get_prop d ''primary_key'' of
          Some pk \<Rightarrow> if truthy pk then JNum 1 else JNum 0 | None \<Rightarrow> JNum 0))"

definition is_dynamic :: "jsval \<Rightarrow> bool" where
  "is_dynamic c = (case get_prop c ''regxs'' of Some r \<Rightarrow> js_eq r (JNum 1) | None \<Rightarrow> False)"

datatype loop_end = Finished | HasDash | Failed js_error

text \<open>
  The second loop, on the array in place: it stops at a name with a dash, normalises the column
  and moves a dynamic column to \<open>regxsList\<close>, splicing it out while the index runs on.
\<close>

function split_columns :: "jsval list \<Rightarrow> jsval list \<Rightarrow> nat \<Rightarrow> loop_end \<times> jsval list \<times> jsval list" where
  "split_columns data regxsList i =
     (if i < length data
      then (case get_prop (data ! i) ''name'' of
          None \<Rightarrow> (Failed (TypeError ''name''), data, regxsList)
        | Some (JStr columnName) \<Rightarrow>
            if index_of ''-'' columnName \<noteq> None then (HasDash, data, regxsList)
            else let c = normalise (data ! i) in
              if is_dynamic c then split_columns (splice1 i (data[i := c])) (regxsList @ [c]) (i + 1)
              else split_columns (data[i := c]) regxsList (i + 1)
        | Some _ \<Rightarrow> (Failed (TypeError ''indexOf''), data, regxsList))
      else (Finished, data, regxsList))"
  by pat_completeness auto
termination by (relation "measure (\<lambda>(d, r, i). length d - i)") auto

declare split_columns.simps [simp del]

text \<open>The part of the handler that the two pages share, up to the dialog.\<close>

definition validate_columns :: "(jsval \<Rightarrow> bool) option \<Rightarrow> (jsval list \<Rightarrow> prog) \<Rightarrow> prog" where
  "validate_columns is_int k = Ask (QScope ''data'') (\<lambda>data.
     if length (elems data) = 0 then swal1 ''add at least one column'' Done
     else case check_columns is_int (elems data) False 0 of
         Inl e \<Rightarrow> Throw e
       | Inr (pkFlg, incFlg, incCount) \<Rightarrow>
           if \<not> pkFlg then swal1 ''at least one primary key'' Done
           else if \<not> incFlg then swal1 ''only an int primary key can be auto-increment'' Done
           else if incCount > 1 then swal1 ''only one int column can be auto-increment'' Done
           else (case split_columns (elems data) [] 0 of (e, data', regxsList) \<Rightarrow>
             Do (ScopeSet ''data'' (JArr data'))
               (case e of
                  Finished \<Rightarrow> k regxsList
                | HasDash \<Rightarrow> swal1 ''a column name may not contain -'' Done
                | Failed er \<Rightarrow> Throw er)))"

definition trimmed_keys :: "(string \<Rightarrow> prog) \<Rightarrow> prog" where
  "trimmed_keys k = Ask (QVal ''rangeKeys'') (\<lambda>rangeKeys. case rangeKeys of
      JStr x \<Rightarrow> k (myTrim x) | _ \<Rightarrow> Throw (TypeError ''replace''))"

definition createDataBaseTable :: prog where
  "createDataBaseTable = validate_columns (Some isIntType) (\<lambda>regxsList.
     trimmed_keys (\<lambda>rangeKeys.
     Ask (QVal ''dbName'') (\<lambda>dbName. Ask (QVal ''name'') (\<lambda>name. Ask (QVal ''clusterId'') (\<lambda>clusterId.
     if nullish name \<or> js_eq name (JStr []) then swal1 ''the table name is required'' Done
     else Ask (QVal ''policy'') (\<lambda>policy.
       ask_confirm ''create table?'' [] ''warning''
         (Ask (QScope ''data'') (\<lambda>data.
          Ajax (form_post ''/metadata/createTable''
              [(''dbName'', dbName), (''name'', name), (''columns'', JStr (json_str data)),
               (''regxs'', JStr (json_str (JArr regxsList))), (''rangeKeys'', JStr rangeKeys),
               (''clusterId'', clusterId), (''policy'', policy)])
            (on_reply (swal3 ''created'' (JStr ''table created'') ''success'' (Do HistoryBack Done))
               ''create table failed'')
            (show_failure ''create table failed'') Done))
         Done))))))"

section \<open>edittable.js\<close>

definition edit_ready :: prog where
  "edit_ready =
     Ask (QVal ''dbName'') (\<lambda>dbName. Ask (QVal ''name'') (\<lambda>name. Ask (QVal ''clusterId'') (\<lambda>clusterId.
     Do (ScopeSet ''data'' (JArr []))
     (Do (ScopeSet ''regxsArray'' (JArr []))
     (Ajax (form_post_sync ''/metadata/getTableColumns''
         [(''dbName'', dbName), (''name'', name), (''clusterId'', clusterId)])
       (\<lambda>data. on_reply (read_prop data ''data'' (\<lambda>d. read_prop d ''columns'' (\<lambda>cols.
            read_prop cols ''length'' (\<lambda>_. Do (ScopeSet ''data'' (JArr (elems cols)))
            (read_prop d ''regxs'' (\<lambda>rx. if nullish rx then Done
               else Do (ScopeSet ''regxsArray'' (JArr (elems rx))) Done))))))
          ''fetch failed'' data)
       (show_failure ''fetch failed'')
     (Ask (QScope ''data'') (\<lambda>columnsArray.
       Do (TableInit ''jsGrid'' \<lparr>t_data = columnsArray, t_url = [], t_columns = grid_fields\<rparr>) Done)))))))"

text \<open>The page of \<open>edittable.js\<close> loads no script that defines \<open>isIntType\<close>.\<close>

definition edit_createDataBaseTable :: prog where
  "edit_createDataBaseTable = validate_columns None (\<lambda>regxsList.
     trimmed_keys (\<lambda>rangeKeys.
     Ask (QVal ''dbName'') (\<lambda>dbName. Ask (QVal ''name'') (\<lambda>name. Ask (QVal ''clusterId'') (\<lambda>clusterId.
     if nullish name \<or> js_eq name (JStr []) then swal1 ''the table name is required'' Done
     else ask_confirm ''edit table?'' [] ''warning''
         (Ask (QScope ''data'') (\<lambda>data.
          Ajax (form_post ''/metadata/editTable''
              [(''dbName'', dbName), (''name'', name), (''columns'', JStr (json_str data)),
               (''regxs'', JStr (json_str (JArr regxsList))), (''rangeKeys'', JStr rangeKeys),
               (''clusterId'', clusterId)])
            (on_reply (swal3 ''edited'' (JStr ''table edited'') ''success'' Done)
               ''edit table failed'')
            (show_failure ''edit table failed'') Done))
         Done)))))"

section \<open>What the loops compute\<close>

text \<open>
  The second loop as a recursion over the columns: the column after a dynamic one is passed over,
  neither checked nor normalised nor moved.
\<close>

fun walk :: "jsval list \<Rightarrow> loop_end \<times> jsval list \<times> jsval list" where
  "walk [] = (Finished, [], [])"
| "walk (c # cs) = (case get_prop c ''name'' of
     None \<Rightarrow> (Failed (TypeError ''name''), c # cs, [])
   | Some (JStr n) \<Rightarrow>
       if index_of ''-'' n \<noteq> None then (HasDash, c # cs, [])
       else let d = normalise c in
         if is_dynamic d
         then (case cs of [] \<Rightarrow> (Finished, [], [d])
               | y # ys \<Rightarrow> (case walk ys of (e, ds, rs) \<Rightarrow> (e, y # ds, d # rs)))
         else (case walk cs of (e, ds, rs) \<Rightarrow> (e, d # ds, rs))
   | Some _ \<Rightarrow> (Failed (TypeError ''indexOf''), c # cs, []))"

lemma list_update_split: "i < length xs \<Longrightarrow> xs[i := x] = take i xs @ x # drop (Suc i) xs"
  by (rule upd_conv_take_nth_drop)

lemma split_columns_walk:
  "split_columns data rs i =
     (case walk (drop i data) of (e, ds, rs') \<Rightarrow> (e, take i data @ ds, rs @ rs'))"
proof (induction data rs i rule: split_columns.induct)
  case (1 data rs i)
  show ?case
  proof (cases "i < length data")
    case False
    then show ?thesis by (simp add: split_columns.simps [of data])
  next
    case True
    then have dr: "drop i data = data ! i # drop (Suc i) data" by (simp add: Cons_nth_drop_Suc)
    show ?thesis
    proof (cases "\<exists>n. get_prop (data ! i) ''name'' = Some (JStr n) \<and> index_of ''-'' n = None")
      case False
      with True show ?thesis
        by (auto simp: split_columns.simps [of data] dr id_take_nth_drop [OF True, symmetric]
            split: option.split jsval.split)
    next
      case named: True
      then obtain n where n: "get_prop (data ! i) ''name'' = Some (JStr n)" "index_of ''-'' n = None"
        by blast
      let ?c = "normalise (data ! i)"
      show ?thesis
      proof (cases "is_dynamic ?c")
        case True
        note dyn = this
        have sp: "splice1 i (data[i := ?c]) = take i data @ drop (Suc i) data"
          using \<open>i < length data\<close> by (simp add: splice1_def list_update_split)
        have "split_columns data rs i =
            split_columns (take i data @ drop (Suc i) data) (rs @ [?c]) (i + 1)"
          using \<open>i < length data\<close> n dyn by (simp add: split_columns.simps [of data] sp)
        also have "\<dots> = (case walk (drop (Suc i) (take i data @ drop (Suc i) data)) of (e, ds, rs') \<Rightarrow>
            (e, take (Suc i) (take i data @ drop (Suc i) data) @ ds, (rs @ [?c]) @ rs'))"
          using "1.IH"(1) [OF \<open>i < length data\<close> n(1) refl _ refl dyn] n(2) sp by simp
        finally show ?thesis
          using \<open>i < length data\<close> n dyn dr
          by (cases "drop (Suc i) data") (auto split: prod.split)
      next
        case False
        have "split_columns data rs i = split_columns (data[i := ?c]) rs (i + 1)"
          using \<open>i < length data\<close> n False by (simp add: split_columns.simps [of data])
        also have "\<dots> = (case walk (drop (Suc i) (data[i := ?c])) of (e, ds, rs') \<Rightarrow>
            (e, take (Suc i) (data[i := ?c]) @ ds, rs @ rs'))"
          using "1.IH"(2) [OF \<open>i < length data\<close> n(1) refl _ refl False] n(2) by simp
        finally show ?thesis
          using \<open>i < length data\<close> n False dr
          by (auto simp: list_update_split split: prod.split)
      qed
    qed
  qed
qed

definition col :: "string \<Rightarrow> jsval \<Rightarrow> jsval" where
  "col k c = (case get_prop c k of None \<Rightarrow> JUndef | Some v \<Rightarrow> v)"

text \<open>A column the first loop lets pass.\<close>

definition passes :: "(jsval \<Rightarrow> bool) \<Rightarrow> jsval \<Rightarrow> bool" where
  "passes f c \<longleftrightarrow> \<not> nullish c \<and> (truthy (col ''auto_increment'' c) \<longrightarrow>
     f (js_or (col ''data_type'' c) (JBool (\<not> truthy (col ''primary_key'' c)))))"

definition auto_keys :: "jsval list \<Rightarrow> nat" where
  "auto_keys cs = length (filter (\<lambda>c. truthy (col ''primary_key'' c) \<and>
     truthy (col ''auto_increment'' c)) cs)"

lemma get_prop_col: "\<not> nullish c \<Longrightarrow> get_prop c k = Some (col k c)"
  by (cases "get_prop c k") (auto simp: col_def get_prop_None_iff)

lemma check_columns_pass:
  "list_all (passes f) cs \<Longrightarrow> check_columns (Some f) cs pk n =
     Inr (pk \<or> list_ex (\<lambda>c. truthy (col ''primary_key'' c)) cs, True, n + auto_keys cs)"
  by (induction cs arbitrary: pk n)
     (auto simp: passes_def get_prop_col auto_keys_def Let_def)

lemma check_columns_refuse:
  "\<not> list_all (passes f) cs \<Longrightarrow>
     (\<exists>e. check_columns (Some f) cs pk n = Inl e) \<or> (\<exists>a m. check_columns (Some f) cs pk n = Inr (a, False, m))"
proof (induction cs arbitrary: pk n)
  case (Cons c cs)
  show ?case
  proof (cases "nullish c")
    case False
    with Cons show ?thesis by (auto simp: passes_def get_prop_col Let_def)
  qed simp
qed simp

section \<open>The submit handlers\<close>

text \<open>
  When the form is accepted: some column, each of them passing the auto-increment test, a primary
  key, at most one auto-increment key, no dash found by the second loop, and a table name.
\<close>

definition accepts :: "sys \<Rightarrow> bool" where
  "accepts s \<longleftrightarrow> (let cs = elems (scope s ''data'') in
     cs \<noteq> [] \<and> list_all (passes isIntType) cs \<and>
     list_ex (\<lambda>c. truthy (col ''primary_key'' c)) cs \<and> auto_keys cs \<le> 1 \<and>
     fst (walk cs) = Finished \<and>
     (case vals s ''rangeKeys'' of Some (JStr _) \<Rightarrow> True | _ \<Rightarrow> False) \<and>
     (case vals s ''name'' of Some v \<Rightarrow> \<not> (nullish v \<or> js_eq v (JStr [])) | None \<Rightarrow> False))"

definition create_request :: "sys \<Rightarrow> ajax_req" where
  "create_request s = (case walk (elems (scope s ''data'')) of (e, cols, regxs) \<Rightarrow>
     form_post ''/metadata/createTable''
       [(''dbName'', answer (QVal ''dbName'') s), (''name'', answer (QVal ''name'') s),
        (''columns'', JStr (json_str (JArr cols))), (''regxs'', JStr (json_str (JArr regxs))),
        (''rangeKeys'', JStr (myTrim (js_str (answer (QVal ''rangeKeys'') s)))),
        (''clusterId'', answer (QVal ''clusterId'') s), (''policy'', answer (QVal ''policy'') s)])"

lemma split_columns_0: "split_columns cs [] 0 = walk cs"
  by (simp add: split_columns_walk split: prod.split)

lemma createDataBaseTable_refused:
  assumes "blocked s = None" and "dlg s = None" and "\<not> accepts s"
  shows "sent (run s [Click createDataBaseTable, Confirm x]) = sent s"
proof -
  let ?cs = "elems (scope s ''data'')"
  obtain e ds rs where w: "walk ?cs = (e, ds, rs)" by (cases "walk ?cs")
  consider (empty) "?cs = []" | (bad) "?cs \<noteq> []" "\<not> list_all (passes isIntType) ?cs"
    | (ok) "?cs \<noteq> []" "list_all (passes isIntType) ?cs" by blast
  then show ?thesis
  proof cases
    case empty
    with assms(1) show ?thesis by (simp add: createDataBaseTable_def validate_columns_def swal1_def)
  next
    case bad
    from check_columns_refuse [OF bad(2), of False 0] show ?thesis
      using bad(1) assms(1,2)
      by (auto simp: createDataBaseTable_def validate_columns_def dlg_do_effect swal1_def)
  next
    case ok
    have na: "\<not> (fst (walk ?cs) = Finished \<and> list_ex (\<lambda>c. truthy (col ''primary_key'' c)) ?cs \<and>
        auto_keys ?cs \<le> 1 \<and> (case vals s ''rangeKeys'' of Some (JStr _) \<Rightarrow> True | _ \<Rightarrow> False) \<and>
        (case vals s ''name'' of Some v \<Rightarrow> \<not> (nullish v \<or> js_eq v (JStr [])) | None \<Rightarrow> False))"
      using assms(3) ok by (simp add: accepts_def Let_def)
    show ?thesis
    proof (cases "e = Finished \<and> list_ex (\<lambda>c. truthy (col ''primary_key'' c)) ?cs \<and> auto_keys ?cs \<le> 1")
      case False
      then show ?thesis
        using ok(1) assms(1,2) w
        by (cases e) (auto simp: createDataBaseTable_def validate_columns_def do_effect_def swal1_def
            check_columns_pass [OF ok(2)] split_columns_0)
    next
      case True
      show ?thesis
      proof (cases "vals s ''rangeKeys''")
        case None
        with True show ?thesis
          using ok(1) assms(1,2) w
          by (simp add: createDataBaseTable_def validate_columns_def check_columns_pass [OF ok(2)]
              split_columns_0 trimmed_keys_def do_effect_def)
      next
        case (Some k)
        with True na w have nm: "\<not> (\<exists>x. k = JStr x) \<or>
            nullish (answer (QVal ''name'') s) \<or> js_eq (answer (QVal ''name'') s) (JStr [])"
          by (auto simp: nullish_def split: option.splits)
        from True Some nm show ?thesis
          using ok(1) assms(1,2) w
          by (cases k) (auto simp: createDataBaseTable_def validate_columns_def swal1_def
              check_columns_pass [OF ok(2)] split_columns_0 trimmed_keys_def do_effect_def)
      qed
    qed
  qed
qed

lemma createDataBaseTable_accepted:
  assumes "blocked s = None" and "accepts s"
  shows "sent (run s [Click createDataBaseTable, Confirm x]) = sent s @ [create_request s]"
proof -
  let ?cs = "elems (scope s ''data'')"
  obtain e ds rs where w: "walk ?cs = (e, ds, rs)" by (cases "walk ?cs")
  have ok: "?cs \<noteq> []" "list_all (passes isIntType) ?cs"
      "list_ex (\<lambda>c. truthy (col ''primary_key'' c)) ?cs" "auto_keys ?cs \<le> 1" "e = Finished"
    using assms(2) w by (simp_all add: accepts_def Let_def)
  obtain k where k: "vals s ''rangeKeys'' = Some (JStr k)"
    using assms(2) by (auto simp: accepts_def Let_def split: option.split_asm jsval.split_asm)
  obtain v where v: "vals s ''name'' = Some v" "\<not> nullish v" "\<not> js_eq v (JStr [])"
    using assms(2) by (auto simp: accepts_def Let_def split: option.split_asm)
  show ?thesis
    using ok assms(1) k v w
    by (simp add: createDataBaseTable_def validate_columns_def check_columns_pass [OF ok(2)]
        split_columns_0 trimmed_keys_def do_effect_def ask_confirm_def create_request_def
        del: json_str.simps)
qed

text \<open>
  C3. The create-table form sends its request exactly when the columns pass (some column, a primary
  key, every auto-increment column with type code 4, at most one auto-increment key, no dash found
  in a name) and a table name is given; the request then carries the normalised columns, the
  dynamic columns apart, and the trimmed split keys. In every other case nothing is sent.
\<close>

theorem create_table_request:
  assumes "blocked s = None" and "dlg s = None"
  shows "sent (run s [Click createDataBaseTable, Confirm x]) =
    sent s @ (if accepts s then [create_request s] else [])"
  using createDataBaseTable_refused [OF assms] createDataBaseTable_accepted [OF assms(1)] by simp

section \<open>What the loops do to the columns\<close>

definition plain_column :: "jsval \<Rightarrow> bool" where
  "plain_column c = (case get_prop c ''name'' of
     Some (JStr n) \<Rightarrow> index_of ''-'' n = None \<and> \<not> is_dynamic (normalise c) | _ \<Rightarrow> False)"

text \<open>
  Without dynamic columns and dashes the second loop does what it is written for: every column
  is normalised, in place and in order, and none is set apart.
\<close>

theorem plain_columns_normalised:
  assumes "list_all plain_column cs"
  shows "split_columns cs [] 0 = (Finished, map normalise cs, [])"
proof -
  have "walk cs = (Finished, map normalise cs, [])"
    using assms
  proof (induction cs)
    case (Cons c cs)
    then have c: "plain_column c" by simp
    then obtain n where "get_prop c ''name'' = Some (JStr n)"
      by (auto simp: plain_column_def split: option.split_asm jsval.split_asm)
    with c Cons show ?case by (simp add: plain_column_def)
  qed simp
  then show ?thesis by (simp add: split_columns_0)
qed


text \<open>
  C35. The auto-increment test of the create-table form accepts type code 4 only, and accepts it
  for columns that are not primary keys too; the message it guards asks for an int-typed primary
  key, and the grid's int types are the codes 1 to 4.
\<close>

theorem auto_increment_only_bigint:
  assumes "c = JObj fs" and "col ''auto_increment'' c = JBool True"
    and "col ''data_type'' c = JNum t" and "t \<noteq> 0"
  shows "check_columns (Some isIntType) [c] False 0 =
    Inr (truthy (col ''primary_key'' c), t = 4,
         if t = 4 \<and> truthy (col ''primary_key'' c) then 1 else 0)"
proof -
  have "\<not> nullish c" using assms(1) by (simp add: nullish_def)
  then show ?thesis
    using assms(2-4) by (simp add: get_prop_col Let_def isIntType_def js_or_def js_seq_def)
qed

lemma check_columns_undefined:
  assumes "\<forall>c \<in> set cs. \<not> nullish c" and "\<exists>c \<in> set cs. truthy (col ''auto_increment'' c)"
  shows "check_columns None cs pk n = Inl (ReferenceError ''isIntType'')"
  using assms by (induction cs arbitrary: pk n) (auto simp: get_prop_col Let_def)

text \<open>
  C36. The edit-table form cannot be submitted for a table with an auto-increment column: the
  handler calls a function its page does not define, so the submission ends in a
  \<open>ReferenceError\<close>, with no dialog and no request.
\<close>

theorem edit_auto_increment_fails:
  assumes "blocked s = None" and "scope s ''data'' = JArr cs" and "\<forall>c \<in> set cs. \<not> nullish c"
    and "\<exists>c \<in> set cs. truthy (col ''auto_increment'' c)"
  shows "run s [Click edit_createDataBaseTable] = do_effect (Uncaught (ReferenceError ''isIntType'')) s"
proof -
  have "cs \<noteq> []" using assms(4) by auto
  then show ?thesis
    using assms(1,2) check_columns_undefined [OF assms(3,4), of False 0]
    by (simp add: edit_createDataBaseTable_def validate_columns_def)
qed

subsection \<open>Trimming\<close>

lemma trim_lines_single:
  "\<forall>c \<in> set s. \<not> is_lt c \<Longrightarrow> trim_lines False s = rev (dropWhile is_ws (rev s))"
proof (induction "length s" arbitrary: s rule: less_induct)
  case less
  show ?case
  proof (cases s)
    case (Cons c cs)
    let ?b = "takeWhile is_ws (c # cs)" and ?r = "dropWhile is_ws (c # cs)"
    have IH: "trim_lines False cs = rev (dropWhile is_ws (rev cs))"
      using less.hyps [of cs] less.prems Cons by simp
    have lt: "\<forall>d \<in> set ?b. \<not> is_lt d" using less.prems Cons by (auto dest: set_takeWhileD)
    show ?thesis
    proof (cases "\<forall>d \<in> set (c # cs). is_ws d")
      case True
      then have t: "is_ws c" "takeWhile is_ws cs = cs" "dropWhile is_ws cs = []"
        "dropWhile is_ws (rev cs @ [c]) = []" by (auto simp: dropWhile_eq_Nil_conv)
      show ?thesis unfolding Cons by (simp add: t cut_len_def Let_def)
    next
      case False
      then have r: "?r \<noteq> []" by (auto simp: dropWhile_eq_Nil_conv)
      have tw: "takeWhile (\<lambda>c. \<not> is_lt c) (rev ?b) = rev ?b"
        using lt by (simp only: takeWhile_eq_all_conv set_rev)
      have "cut_len ?b ?r = 0"
        by (simp only: cut_len_def r tw if_False length_rev diff_self_eq_0 diff_0_eq_0)
      then have "trim_lines False s = c # trim_lines False cs"
        using Cons less.prems by (simp add: Let_def)
      moreover have "rev (dropWhile is_ws (rev s)) = c # rev (dropWhile is_ws (rev cs))"
        using False Cons by (auto simp: dropWhile_append)
      ultimately show ?thesis using IH by simp
    qed
  qed simp
qed

lemma myTrim_single_line:
  assumes "\<forall>c \<in> set s. \<not> is_lt c"
  shows "myTrim s = trim s"
proof (cases s)
  case (Cons c cs)
  have "\<forall>d \<in> set (dropWhile is_ws s). \<not> is_lt d" using assms by (auto dest: set_dropWhileD)
  then have "trim_lines False (dropWhile is_ws s) = trim s"
    by (simp add: trim_lines_single trim_def)
  then show ?thesis
    using Cons assms by (cases "is_ws c") (auto simp: myTrim_def trim_def Let_def)
qed (simp add: myTrim_def trim_def)

section \<open>Confirmation\<close>

definition schema_changes :: "string list" where
  "schema_changes = [''/metadata/createTable'', ''/metadata/editTable'']"

definition schema_handlers :: "prog set" where
  "schema_handlers = {create_ready, createDataBaseTable, edit_ready, edit_createDataBaseTable}"

lemma disciplined_validate [disc_simps]:
  "(\<And>rs. disciplined M (k rs) n) \<Longrightarrow> disciplined M (validate_columns f k) n"
  by (auto simp: validate_columns_def disc_simps split: sum.split prod.split loop_end.split)

lemma disciplined_trimmed_keys [disc_simps]:
  "(\<And>x. disciplined M (k x) n) \<Longrightarrow> disciplined M (trimmed_keys k) n"
  by (auto simp: trimmed_keys_def split: jsval.split)

interpretation schema_page: confirmed_page schema_handlers "to_paths schema_changes"
  by unfold_locales
     (auto simp: schema_handlers_def schema_changes_def create_ready_def createDataBaseTable_def
        edit_ready_def edit_createDataBaseTable_def disc_simps)

section \<open>Concrete columns\<close>

definition demo_col :: "string \<Rightarrow> int \<Rightarrow> bool \<Rightarrow> bool \<Rightarrow> bool \<Rightarrow> jsval" where
  "demo_col n t pk inc dyn = JObj [(''name'', JStr n), (''data_type'', JNum t),
     (''primary_key'', JBool pk), (''auto_increment'', JBool inc), (''regxs'', JBool dyn)]"

definition demo_form :: "jsval list \<Rightarrow> sys" where
  "demo_form cs = empty_sys\<lparr>vals := [''name'' \<mapsto> JStr ''t'', ''rangeKeys'' \<mapsto> JStr '' a ''],
     scope := (\<lambda>k. if k = ''data'' then JArr cs else JUndef)\<rparr>"

lemmas demo_form_simps = demo_form_def empty_sys_def demo_col_def col_def

theorem create_table_request_witness:
  "accepts (demo_form [demo_col ''id'' 4 True True False, demo_col ''v'' 7 False False False]) \<and>
   length (sent (run (demo_form [demo_col ''id'' 4 True True False, demo_col ''v'' 7 False False False])
     [Click createDataBaseTable, Confirm []])) = 1"
proof
  let ?s = "demo_form [demo_col ''id'' 4 True True False, demo_col ''v'' 7 False False False]"
  show a: "accepts ?s"
    by (simp add: accepts_def demo_form_simps passes_def nullish_def js_or_def isIntType_def js_seq_def
        auto_keys_def normalise_def is_dynamic_def num_eq_def)
  have "blocked ?s = None" "dlg ?s = None" "sent ?s = []" by (simp_all add: demo_form_simps)
  with create_table_request [of ?s "[]"] a
  show "length (sent (run ?s [Click createDataBaseTable, Confirm []])) = 1" by simp
qed

theorem plain_columns_normalised_witness:
  "split_columns [demo_col ''id'' 3 True False False] [] 0 =
     (Finished, [JObj [(''name'', JStr ''id''), (''data_type'', JNum 3), (''primary_key'', JNum 1),
        (''auto_increment'', JBool False), (''regxs'', JBool False), (''index'', JBool True)]], [])"
  by (subst plain_columns_normalised)
     (simp_all add: plain_column_def demo_col_def normalise_def is_dynamic_def nullish_def num_eq_def)


theorem auto_increment_only_bigint_witness:
  "check_columns (Some isIntType) [demo_col ''id'' 3 True True False] False 0 = Inr (True, False, 0) \<and>
   check_columns (Some isIntType) [demo_col ''id'' 4 False True False] False 0 = Inr (False, True, 0)"
  using auto_increment_only_bigint [OF demo_col_def, of "''id''" 3 True True False 3]
    auto_increment_only_bigint [OF demo_col_def, of "''id''" 4 False True False 4]
  by (simp add: col_def demo_col_def)

theorem edit_auto_increment_fails_witness:
  "errs (run (demo_form [demo_col ''id'' 4 True True False]) [Click edit_createDataBaseTable]) =
     [ReferenceError ''isIntType'']"
  by (subst edit_auto_increment_fails [where cs = "[demo_col ''id'' 4 True True False]"])
     (simp_all add: demo_form_simps nullish_def do_effect_def)

end
