(* ===== verification/Tables.thy ===== *)
theory Tables
  imports Utils
begin

text \<open>
  The pages of a database's tables: the table list (\<open>createtables/tableslist.js\<close>), the missing
  part of a table's topology (\<open>createtables/topologymiss.js\<close>), duplicate ranges
  (\<open>createtables/rangedup.js\<close>) and the read-only view of a table's columns
  (\<open>createtables/viewtablecolumn.js\<close>). The controller's \<open>clusterId\<close>, \<open>dbName\<close> and \<open>tableName\<close>
  variables are kept in \<open>scope\<close>.
\<close>

section \<open>tableslist.js\<close>

definition mytables :: prog where
  "mytables =
     Ask (QVal ''dbId'') (\<lambda>dbId. Ask (QVal ''dbName'') (\<lambda>dbName. Ask (QVal ''clusterId'') (\<lambda>clusterId.
     Do (ScopeSet ''clusterId'' clusterId)
     (Ajax (http_get (''/metadata/dbTablesDataGetByDbName?dbId='' @ js_str dbId @ ''&dbName='' @
         js_str dbName @ ''&clusterId='' @ js_str clusterId))
       (\<lambda>data. on_reply (read_prop data ''data'' (\<lambda>d. Do (ScopeSet ''tableList'' d) Done))
          ''fetch failed'' data)
       (\<lambda>_. Done) Done))))"

definition goto_table :: "string \<Rightarrow> string \<Rightarrow> string \<Rightarrow> jsval \<Rightarrow> prog" where
  "goto_table page dbKey nameKey table =
     read_prop table ''db_name'' (\<lambda>db. read_prop table ''name'' (\<lambda>name. Ask (QScope ''clusterId'') (\<lambda>clusterId.
       Do (Goto (page @ ''?'' @ dbKey @ ''='' @ js_str db @ ''&'' @ nameKey @ ''='' @ js_str name @
         ''&clusterId='' @ js_str clusterId)) Done)))"

definition viewRangePage :: "jsval \<Rightarrow> prog" where
  "viewRangePage = goto_table ''/range/viewRangeInfo'' ''db_name'' ''name''"

definition getTableMonitorInfo :: "jsval \<Rightarrow> prog" where
  "getTableMonitorInfo table =
     read_prop table ''db_name'' (\<lambda>db. read_prop table ''name'' (\<lambda>name. read_prop table ''id'' (\<lambda>i.
     Ask (QScope ''clusterId'') (\<lambda>clusterId.
       Do (Goto (''/monitor/viewTableMonitor?dbName='' @ js_str db @ ''&tableName='' @ js_str name @
         ''&tableId='' @ js_str i @ ''&clusterId='' @ js_str clusterId)) Done))))"

definition getColumnsView :: "jsval \<Rightarrow> prog" where
  "getColumnsView = goto_table ''/page/metadata/viewTableColumns'' ''db_name'' ''name''"

definition getTableEditView :: "jsval \<Rightarrow> prog" where
  "getTableEditView = goto_table ''/page/metadata/edittable'' ''dbName'' ''tableName''"

definition checkTopology :: "jsval \<Rightarrow> prog" where
  "checkTopology table =
     Ask (QScope ''clusterId'') (\<lambda>clusterId. read_prop table ''db_name'' (\<lambda>db. read_prop table ''name'' (\<lambda>name.
     Ajax (form_post ''/topology/check''
         [(''clusterId'', clusterId), (''dbName'', db), (''tableName'', name)])
       (\<lambda>data. on_reply (read_prop data ''msg'' (\<lambda>m. swal3 ''topology correct'' m ''success'' Done))
          ''topology check failed'' data)
       (show_failure ''topology check failed'') Done)))"

definition getRangeDuplicateView :: "jsval \<Rightarrow> prog" where
  "getRangeDuplicateView = goto_table ''/page/table/duplicateRange'' ''dbName'' ''tableName''"

definition getTopologyMissingView :: "jsval \<Rightarrow> prog" where
  "getTopologyMissingView = goto_table ''/page/table/topology'' ''dbName'' ''tableName''"

definition getAbnormalRangeView :: "jsval \<Rightarrow> prog" where
  "getAbnormalRangeView table =
     ask_input ''abnormal ranges or one range'' ''enter a range id''
       (\<lambda>inputValue.
        if js_seq inputValue (JBool False) then Done
        else read_prop table ''db_name'' (\<lambda>db. read_prop table ''name'' (\<lambda>name. Ask (QScope ''clusterId'') (\<lambda>clusterId.
          Do (Goto (''/page/range/unhealthy?dbName='' @ js_str db @ ''&tableName='' @ js_str name @
            ''&clusterId='' @ js_str clusterId @ ''&rangeId='' @ js_str inputValue)) Done))))
       Done"

definition getUnstableRangeView :: "jsval \<Rightarrow> prog" where
  "getUnstableRangeView = goto_table ''/page/range/unstable'' ''dbName'' ''tableName''"

text \<open>The two deletions of a table differ in their title and in the flag they send.\<close>

definition delete_table :: "string \<Rightarrow> bool \<Rightarrow> jsval \<Rightarrow> prog" where
  "delete_table title flag table =
     ask_confirm title [] ''warning''
       (Ask (QScope ''clusterId'') (\<lambda>clusterId.
        read_prop table ''db_name'' (\<lambda>db. read_prop table ''name'' (\<lambda>name.
        Ajax (form_post ''/metadata/delTable''
            [(''clusterId'', clusterId), (''dbName'', db), (''tableName'', name),
             (''flag'', JBool flag)])
          (\<lambda>data. on_reply (read_prop data ''msg'' (\<lambda>m. swal3 ''deleted'' m ''success'' (Do Reload Done)))
             ''delete failed'' data)
          (show_failure ''delete failed'') Done))))
       Done"

definition deleteRow :: "jsval \<Rightarrow> prog" where
  "deleteRow = delete_table ''delete table?'' False"

definition fastDeleteRow :: "jsval \<Rightarrow> prog" where
  "fastDeleteRow = delete_table ''delete table at once?'' True"

definition rwPolicys :: "jsval \<Rightarrow> prog" where
  "rwPolicys table =
     read_prop table ''RwPolicy'' (\<lambda>rw. read_prop rw ''policy'' (\<lambda>p.
     let policyObject = JObj [(''policy'', js_parseInt (js_str p))] in
     Ask (QScope ''clusterId'') (\<lambda>clusterId. read_prop table ''db_name'' (\<lambda>db. read_prop table ''name'' (\<lambda>name.
     Ajax (form_post ''/metadata/tableRwPolicy''
         [(''option'', JStr ''set''), (''clusterId'', clusterId), (''dbName'', db),
          (''tableName'', name), (''policy'', JStr (json_str policyObject))])
       (\<lambda>data. read_prop data ''attach'' (\<lambda>a. read_prop a ''message'' (\<lambda>m.
          if_code0 a (swal3 ''set'' m ''success'' Done) (swal3 ''set failed'' m ''error'' Done))))
       (show_failure ''set failed'') Done)))))"

definition tableStatus :: "jsval \<Rightarrow> jsval" where
  "tableStatus input =
     (if js_eq input (JNum 3) then JStr ''normal''
      else if js_eq input (JNum 1) then JStr ''initialising''
      else if js_eq input (JNum 2) then JStr ''adding shards''
      else if js_eq input (JNum 4) then JStr ''Delete''
      else if js_eq input (JNum 5) then JStr ''Deleting''
      else if js_eq input (JNum 0) then JStr ''invalid''
      else input)"

section \<open>topologymiss.js and rangedup.js\<close>

definition missList :: prog where
  "missList =
     Ask (QVal ''dbName'') (\<lambda>dbName. Ask (QVal ''tableName'') (\<lambda>tableName. Ask (QVal ''clusterId'') (\<lambda>clusterId.
     Do (ScopeSet ''clusterId'' clusterId) (Do (ScopeSet ''dbName'' dbName)
     (Do (ScopeSet ''tableName'' tableName)
     (Ajax (form_post_sync ''/table/topology/missing''
         [(''dbName'', dbName), (''tableName'', tableName), (''clusterId'', clusterId)])
       (\<lambda>data. on_reply (read_prop data ''data'' (\<lambda>d. Do (ScopeSet ''missList'' d) Done))
          ''fetching the topology failed'' data)
       (show_failure ''fetching the topology failed'') Done))))))"

definition createRange :: "jsval \<Rightarrow> prog" where
  "createRange miss =
     Ask (QScope ''clusterId'') (\<lambda>clusterId. Ask (QScope ''dbName'') (\<lambda>dbName.
     Ask (QScope ''tableName'') (\<lambda>tableName.
     read_prop miss ''start_key'' (\<lambda>startKey. read_prop miss ''end_key'' (\<lambda>endKey.
     Ajax (form_post ''/table/topology/create''
         [(''clusterId'', clusterId), (''dbName'', dbName), (''tableName'', tableName),
          (''startKey'', startKey), (''endKey'', endKey), (''batchFlag'', JBool False)])
       (\<lambda>data. on_reply (read_prop data ''msg'' (\<lambda>m. swal3 ''topology filled'' m ''success'' Done))
          ''filling failed'' data)
       (show_failure ''filling failed'') Done)))))"

definition batchCreateRange :: prog where
  "batchCreateRange =
     Ask (QVal ''clusterId'') (\<lambda>clusterId. Ask (QVal ''dbName'') (\<lambda>dbName. Ask (QVal ''tableName'') (\<lambda>tableName.
     Ajax (form_post ''/table/topology/create''
         [(''clusterId'', clusterId), (''dbName'', dbName), (''tableName'', tableName),
          (''batchFlag'', JBool True)])
       (\<lambda>data. on_reply (read_prop data ''msg'' (\<lambda>m. swal3 ''topology filled'' m ''success'' Done))
          ''filling failed'' data)
       (show_failure ''filling failed'') Done)))"

definition dup_rangeList :: prog where
  "dup_rangeList =
     Ask (QVal ''dbName'') (\<lambda>dbName. Ask (QVal ''tableName'') (\<lambda>tableName. Ask (QVal ''clusterId'') (\<lambda>clusterId.
     Do (ScopeSet ''clusterId'' clusterId)
     (Ajax (form_post_sync ''/table/duplicateRange''
         [(''dbName'', dbName), (''tableName'', tableName), (''clusterId'', clusterId)])
       (\<lambda>data. on_reply (read_prop data ''data'' (\<lambda>d. Do (ScopeSet ''rangeList'' d) Done))
          ''fetching the ranges failed'' data)
       (show_failure ''fetching the ranges failed'') Done))))"

definition deleteRange :: "jsval \<Rightarrow> prog" where
  "deleteRange rng =
     Ask (QScope ''clusterId'') (\<lambda>clusterId. read_prop rng ''id'' (\<lambda>rangeId.
     Ajax (form_post ''/range/delete'' [(''clusterId'', clusterId), (''rangeId'', rangeId)])
       (\<lambda>data. on_reply (read_prop data ''msg'' (\<lambda>m. swal3 ''range deleted'' m ''success'' Done))
          ''deleting the range failed'' data)
       (show_failure ''deleting the range failed'') Done))"

section \<open>viewtablecolumn.js\<close>

definition view_columns_ready :: prog where
  "view_columns_ready =
     Ask (QVal ''dbName'') (\<lambda>dbName. Ask (QVal ''name'') (\<lambda>name. Ask (QVal ''clusterId'') (\<lambda>clusterId.
     Do (ScopeSet ''columnsArray'' (JArr [])) (Do (ScopeSet ''regxsArray'' (JArr []))
     (Ajax (form_post_sync ''/metadata/getTableColumns''
         [(''dbName'', dbName), (''name'', name), (''clusterId'', clusterId)])
       (\<lambda>data. on_reply (read_prop data ''data'' (\<lambda>d. read_prop d ''columns'' (\<lambda>cols.
            read_prop cols ''length'' (\<lambda>_. Do (ScopeSet ''columnsArray'' (JArr (elems cols)))
            (read_prop d ''regxs'' (\<lambda>rx. read_prop rx ''length'' (\<lambda>_.
               Do (ScopeSet ''regxsArray'' (JArr (elems rx))) Done)))))))
          ''fetch failed'' data)
       (show_failure ''fetch failed'')
     (Ask (QScope ''columnsArray'') (\<lambda>columnsArray. Ask (QScope ''regxsArray'') (\<lambda>regxsArray.
       Do (TableInit ''jsGrid'' \<lparr>t_data = columnsArray, t_url = [],
         t_columns = [(''name'', ''column''), (''data_type'', ''type''), (''unsigned'', ''Unsigned''),
           (''primary_key'', ''primary key''), (''auto_increment'', ''auto increment'')]\<rparr>)
       (Do (TableInit ''jsGridRegxs'' \<lparr>t_data = regxsArray, t_url = [],
         t_columns = [(''name'', ''column''), (''data_type'', ''type'')]\<rparr>) Done)))))))))"

section \<open>Confirmation\<close>

definition table_handlers :: "jsval \<Rightarrow> prog list" where
  "table_handlers table = [viewRangePage table, getTableMonitorInfo table, getColumnsView table,
     getTableEditView table, checkTopology table, getRangeDuplicateView table,
     getTopologyMissingView table, getAbnormalRangeView table, getUnstableRangeView table,
     deleteRow table, fastDeleteRow table, rwPolicys table]"

definition tables_handlers :: "prog set" where
  "tables_handlers = insert mytables {p. \<exists>t. p \<in> set (table_handlers t)}"

definition tables_changes :: "string list" where
  "tables_changes = [''/metadata/delTable'']"

lemma table_handlers_disciplined:
  "p \<in> set (table_handlers t) \<Longrightarrow> disciplined (to_paths tables_changes) p 0"
  by (auto simp: table_handlers_def tables_changes_def disc_simps viewRangePage_def goto_table_def
      getTableMonitorInfo_def getColumnsView_def getTableEditView_def checkTopology_def
      getRangeDuplicateView_def getTopologyMissingView_def getAbnormalRangeView_def
      getUnstableRangeView_def deleteRow_def fastDeleteRow_def delete_table_def rwPolicys_def Let_def)

interpretation tables_page: confirmed_page tables_handlers "to_paths tables_changes"
proof
  fix p assume "p \<in> tables_handlers"
  then consider "p = mytables" | t where "p \<in> set (table_handlers t)"
    by (auto simp: tables_handlers_def)
  then show "disciplined (to_paths tables_changes) p 0"
    by cases (auto simp: mytables_def disc_simps tables_changes_def dest: table_handlers_disciplined)
qed

section \<open>Requests and replies\<close>


text \<open>
  The column view of a table whose metadata has no dynamic columns (\<open>regxs\<close> is \<open>null\<close>): the
  callback fails with a \<open>TypeError\<close>, and both grids are still drawn, the ordinary columns
  complete and the dynamic ones empty. The edit page tests for \<open>null\<close> first.
\<close>

theorem view_columns_null_regxs:
  assumes "blocked s = None"
    and "t = run s [Click view_columns_ready,
       SyncReply True (ok_reply (JObj [(''columns'', JArr cs), (''regxs'', JNull)]))]"
  shows "errs t = errs s @ [TypeError ''length''] \<and> map fst (rows t ''jsGrid'') = cs \<and>
    rows t ''jsGridRegxs'' = [] \<and> blocked t = None"
  using assms(1)
  by (simp add: assms(2) view_columns_ready_def on_reply_def if_code0_def read_prop_def ok_reply_def
      js_seq_def do_effect_def comp_def)


theorem view_columns_null_regxs_witness:
  "errs (run empty_sys [Click view_columns_ready,
     SyncReply True (ok_reply (JObj [(''columns'', JArr [JNum 1]), (''regxs'', JNull)]))]) =
     [TypeError ''length'']"
  using view_columns_null_regxs [of empty_sys _ "[JNum 1]", OF _ refl] by (simp add: empty_sys_def)

end
