(* ===== verification/ApplyPages.thy ===== *)
theory ApplyPages
  imports Utils
begin

text \<open>
  The application pages: configuration namespaces (\<open>apply/confnsplist.js\<close>), lock namespaces
  (\<open>apply/locknsplist.js\<close>, \<open>apply/locknspapply.js\<close>) and SQL statements (\<open>apply/sqllist.js\<close>). Their
  audit, reject and delete handlers are written alike; \<open>batch_action\<close> is the shared text with the
  parts they differ in as arguments. The locale \<open>batch_contract\<close> states what such a handler
  promises; all eight of them are instances.
\<close>

section \<open>Lists\<close>

text \<open>The request parameters of a page of the list: \<open>offset\<close> is a multiple of \<open>limit\<close>.\<close>

definition queryParams :: "int \<Rightarrow> int \<Rightarrow> jsval \<Rightarrow> jsval \<Rightarrow> jsval" where
  "queryParams limit offset srt order = JObj [(''rows'', JNum limit),
     (''page'', JNum (offset div limit + 1)), (''sort'', srt), (''sortOrder'', order)]"

definition create_time :: "int \<Rightarrow> jsval \<Rightarrow> string" where
  "create_time tz value = (case to_num value of
     Some n \<Rightarrow> utils_formatDate (date_of tz (n * 1000)) ''yyyy-MM-dd hh:mm:ss''
   | None \<Rightarrow> ''NaN-NaN-NaN NaN:NaN:NaN'')"

definition apply_status :: "jsval \<Rightarrow> jsval" where
  "apply_status value =
     (if js_eq value (JNum 1) then JStr ''pending''
      else if js_eq value (JNum 2) then JStr ''approved''
      else if js_eq value (JNum 3) then JStr ''rejected'' else JUndef)"

text \<open>\<open>responseHandler\<close>: the number of records and the rows the list then shows.\<close>

definition list_response :: "string \<Rightarrow> jsval \<Rightarrow> prog" where
  "list_response table res =
     if_code0 res
       (read_prop res ''data'' (\<lambda>d. read_prop d ''total'' (\<lambda>total. read_prop d ''data'' (\<lambda>rs.
          Do (ScopeSet ''total'' total) (Do (TableLoad table rs) Done)))))
       (read_prop res ''msg'' (\<lambda>m. swal3 ''failed'' m ''error''
          (read_prop res ''data'' (\<lambda>rs. Do (ScopeSet ''total'' (JNum 0)) (Do (TableLoad table rs) Done)))))"

definition nsp_columns :: "(string \<times> string) list" where
  "nsp_columns = [([], ''checkbox''), (''db_name'', ''database''), (''table_name'', ''table''),
     (''cluster_id'', ''cluster''), (''applyer'', ''applicant''), (''create_time'', ''time''),
     (''status'', ''status''), (''operation'', ''operation'')]"

definition conf_list :: prog where
  "conf_list = Do (TableInit ''nspApplyLists'' \<lparr>t_data = JUndef,
     t_url = ''/configure/namespace/queryList'', t_columns = nsp_columns\<rparr>) Done"

definition conf_buttons :: "jsval \<Rightarrow> string list" where
  "conf_buttons row =
     [onclick ''updateOwner'' [prop_text row ''id''], onclick ''viewCluster'' [prop_text row ''cluster_id'']] @
     (case get_prop row ''status'' of
        Some st \<Rightarrow> if js_eq st (JNum 2)
          then [onclick ''viewConfigure'' [prop_text row ''db_name'', prop_text row ''table_name'',
                  prop_text row ''cluster_id''],
                onclick ''viewClientToken'' [prop_text row ''db_id'', prop_text row ''table_id'']]
          else []
      | None \<Rightarrow> [])"

definition lock_list :: prog where
  "lock_list = Do (TableInit ''nspApplyLists'' \<lparr>t_data = JUndef,
     t_url = ''/lock/namespace/queryList'', t_columns = nsp_columns\<rparr>) Done"

definition lock_buttons :: "jsval \<Rightarrow> string list" where
  "lock_buttons row =
     [onclick ''updateOwner'' [prop_text row ''id''], onclick ''viewCluster'' [prop_text row ''cluster_id'']] @
     (case get_prop row ''status'' of
        Some st \<Rightarrow> if js_eq st (JNum 2)
          then [onclick ''viewLock'' [prop_text row ''db_name'', prop_text row ''table_name'',
                  prop_text row ''cluster_id''],
                onclick ''viewToken'' [prop_text row ''db_id'', prop_text row ''table_id'']]
          else []
      | None \<Rightarrow> [])"

definition sql_list :: prog where
  "sql_list = Do (TableInit ''sqlApplyLists'' \<lparr>t_data = JUndef, t_url = ''/sql/queryApplyList'',
     t_columns = [([], ''checkbox''), (''db_name'', ''database''), (''table_name'', ''table''),
       (''applyer'', ''applicant''), (''create_time'', ''time''), (''remark'', ''remark''),
       (''status'', ''status''), (''operation'', ''operation'')]\<rparr>) Done"

definition sql_buttons :: "jsval \<Rightarrow> string list" where
  "sql_buttons row = [onclick ''showDetail'' [prop_text row ''id'']]"

section \<open>Batch operations\<close>

definition batch_action ::
    "string \<Rightarrow> prog \<Rightarrow> (jsval \<Rightarrow> bool) \<Rightarrow> prog \<Rightarrow> string \<Rightarrow> string \<Rightarrow> (string \<times> jsval) list \<Rightarrow>
     (jsval \<Rightarrow> prog) \<Rightarrow> (jsval \<Rightarrow> prog) \<Rightarrow> prog" where
  "batch_action table none_chosen bad refuse title url flds ok failed =
     Ask (QSelections table) (\<lambda>selectedApplyRows.
     if length (elems selectedApplyRows) = 0 then none_chosen
     else collect_ids bad refuse (elems selectedApplyRows) (\<lambda>ids.
       if length ids = 0 then Done
       else ask_confirm title [] ''warning''
         (Ajax (form_post url ((''ids'', JStr (json_str (JArr ids))) # flds)) ok failed Done)
         Done))"

definition err :: "string \<Rightarrow> string \<Rightarrow> prog" where
  "err t x = swal3 t (JStr x) ''error'' Done"

definition refreshed :: "string \<Rightarrow> string \<Rightarrow> prog" where
  "refreshed table url = Do (TableRefresh table url) Done"

text \<open>A reply handler that reads the failure text from \<open>data.message\<close>.\<close>

definition on_reply_message :: "prog \<Rightarrow> string \<Rightarrow> jsval \<Rightarrow> prog" where
  "on_reply_message p t v = if_code0 v p (read_prop v ''message'' (\<lambda>m. swal3 t m ''error'' Done))"

subsection \<open>confnsplist.js\<close>

definition conf_auditNsp :: prog where
  "conf_auditNsp =
     batch_action ''nspApplyLists'' (err ''audit'' ''please choose the records to audit'')
       (\<lambda>status. \<not> js_eq status (JNum 1)) (err ''audit'' ''please choose pending records'')
       ''audit'' ''/configure/namespace/audit'' [(''status'', JNum 2)]
       (on_reply_message (swal3 ''audited'' (JStr ''audited'') ''success''
          (refreshed ''nspApplyLists'' ''/configure/namespace/queryList'')) ''audit failed'')
       (call_admin ''audit failed'')"

definition conf_rejectNsp :: prog where
  "conf_rejectNsp =
     batch_action ''nspApplyLists'' (err ''reject'' ''please choose the records to reject'')
       (\<lambda>status. js_gt status (JNum 1)) (err ''reject'' ''please choose pending records'')
       ''reject'' ''/configure/namespace/audit'' [(''status'', JNum 3)]
       (on_reply_message (swal3 ''rejected'' (JStr ''rejected'') ''success''
          (refreshed ''nspApplyLists'' ''/configure/namespace/queryList'')) ''reject failed'')
       (call_admin ''reject failed'')"

definition conf_deleteNsp :: prog where
  "conf_deleteNsp =
     batch_action ''nspApplyLists'' (err ''reject'' ''please choose the records to reject'')
       (\<lambda>status. js_eq status (JNum 2)) (err ''delete'' ''please choose pending or rejected records'')
       ''delete'' ''/configure/namespace/delete'' []
       (\<lambda>data. on_reply (read_prop data ''msg'' (\<lambda>m. swal3 ''deleted'' m ''success''
          (refreshed ''nspApplyLists'' ''/configure/namespace/queryList''))) ''delete failed'' data)
       (call_admin ''delete failed'')"

subsection \<open>locknsplist.js\<close>

definition lock_auditNsp :: prog where
  "lock_auditNsp =
     batch_action ''nspApplyLists'' (err ''audit'' ''please choose the records to audit'')
       (\<lambda>status. \<not> js_eq status (JNum 1)) (err ''audit'' ''please choose pending records'')
       ''audit'' ''/lock/namespace/audit'' [(''status'', JNum 2)]
       (on_reply (swal3 ''audited'' (JStr ''audited'') ''success''
          (refreshed ''nspApplyLists'' ''/lock/namespace/queryList'')) ''audit failed'')
       (call_admin ''audit failed'')"

definition lock_rejectNsp :: prog where
  "lock_rejectNsp =
     batch_action ''nspApplyLists'' (err ''reject'' ''please choose the records to reject'')
       (\<lambda>status. js_gt status (JNum 1)) (err ''reject'' ''please choose pending records'')
       ''reject'' ''/lock/namespace/audit'' [(''status'', JNum 3)]
       (on_reply (swal3 ''rejected'' (JStr ''rejected'') ''success''
          (refreshed ''nspApplyLists'' ''/lock/namespace/queryList'')) ''reject failed'')
       (call_admin ''reject failed'')"

definition lock_deleteNsp :: prog where
  "lock_deleteNsp =
     batch_action ''nspApplyLists'' (err ''reject'' ''please choose the records to reject'')
       (\<lambda>status. js_eq status (JNum 2)) (err ''delete'' ''please choose pending or rejected records'')
       ''delete'' ''/lock/namespace/delete'' []
       (\<lambda>data. on_reply (read_prop data ''msg'' (\<lambda>m. swal3 ''deleted'' m ''success''
          (refreshed ''nspApplyLists'' ''/lock/namespace/queryList''))) ''delete failed'' data)
       (call_admin ''delete failed'')"

subsection \<open>sqllist.js\<close>

definition auditSql :: prog where
  "auditSql =
     batch_action ''sqlApplyLists'' (err ''audit'' ''please choose the records to audit'')
       (\<lambda>status. js_gt status (JNum 1)) (err ''audit'' ''please choose pending records'')
       ''audit'' ''/sql/audit'' [(''status'', JNum 2)]
       (on_reply_message (swal3 ''audited'' (JStr ''audited'') ''success''
          (refreshed ''sqlApplyLists'' ''/sql/queryApplyList'')) ''audit failed'')
       (call_admin ''audit failed'')"

definition rejectSql :: prog where
  "rejectSql =
     batch_action ''sqlApplyLists'' (err ''reject'' ''please choose the records to reject'')
       (\<lambda>status. js_gt status (JNum 1)) (err ''reject'' ''please choose pending records'')
       ''reject'' ''/sql/audit'' [(''status'', JNum 3)]
       (on_reply_message (swal3 ''rejected'' (JStr ''rejected'') ''success''
          (refreshed ''sqlApplyLists'' ''/sql/queryApplyList'')) ''reject failed'')
       (call_admin ''reject failed'')"

section \<open>The other handlers\<close>

text \<open>\<open>updateOwner\<close> of the two namespace pages: \<open>base\<close> is \<open>/configure\<close> or \<open>/lock\<close>.\<close>

definition update_owner :: "string \<Rightarrow> string \<Rightarrow> prog" where
  "update_owner base applyId =
     ask_input ''edit'' ''change the owner''
       (\<lambda>inputValue.
        if \<not> truthy inputValue then swal1 ''please enter the owner of the namespace'' Done
        else Ajax (form_post (base @ ''/namespace/update'') [(''id'', JStr applyId), (''applyer'', inputValue)])
          (\<lambda>data. on_reply (read_prop data ''msg'' (\<lambda>m. swal3 ''updated'' m ''success''
             (refreshed ''nspApplyLists'' (base @ ''/namespace/queryList'')))) ''update failed'' data)
          (show_failure ''updating the owner failed'') Done)
       Done"

definition conf_updateOwner :: "string \<Rightarrow> prog" where
  "conf_updateOwner = update_owner ''/configure''"

definition lock_updateOwner :: "string \<Rightarrow> prog" where
  "lock_updateOwner = update_owner ''/lock''"

definition view_cluster :: "string \<Rightarrow> string \<Rightarrow> prog" where
  "view_cluster base clusterId =
     Ajax (form_post (base @ ''/cluster/getInfo'') [(''clusterId'', JStr clusterId)])
       (\<lambda>data. on_reply (read_prop data ''data'' (\<lambda>d. read_prop d ''id'' (\<lambda>i. read_prop d ''name'' (\<lambda>n.
          read_prop d ''master_url'' (\<lambda>u. swal_html ''cluster''
            (''<table><tr><td>cluster id:</td><td>'' @ js_str i @ ''</td></tr><tr><td>name:</td><td>'' @
             js_str n @ ''</td></tr><tr><td>address:</td><td>'' @ js_str u @ ''</td></tr></table>'') [] Done)))))
          ''query failed'' data)
       (show_failure ''query failed'') Done"

definition conf_viewCluster :: "string \<Rightarrow> prog" where
  "conf_viewCluster = view_cluster ''/configure''"

definition lock_viewCluster :: "string \<Rightarrow> prog" where
  "lock_viewCluster = view_cluster ''/lock''"

definition viewConfigure :: "string \<Rightarrow> string \<Rightarrow> string \<Rightarrow> prog" where
  "viewConfigure dbName tableName clusterId =
     Do (Goto (''/page/configure/viewList?clusterId='' @ clusterId @ ''&dbName='' @ dbName @
       ''&tableName='' @ tableName)) Done"

definition viewLock :: "string \<Rightarrow> string \<Rightarrow> string \<Rightarrow> prog" where
  "viewLock dbName tableName clusterId =
     Do (Goto (''/page/lock/viewLock?clusterId='' @ clusterId @ ''&dbName='' @ dbName @
       ''&tableName='' @ tableName)) Done"

text \<open>Both pages ask the lock service for the client token.\<close>

definition get_token :: "string \<Rightarrow> string \<Rightarrow> prog" where
  "get_token dbId tableId =
     Ajax (form_post ''/lock/client/getToken'' [(''dbId'', JStr dbId), (''tableId'', JStr tableId)])
       (\<lambda>data. if_code0 data
          (read_prop data ''data'' (\<lambda>d. swal3 ''client token'' d ''success'' Done))
          (read_prop data ''msg'' (\<lambda>m. swal3 ''fetching the token failed'' m ''warning'' Done)))
       (call_admin ''fetching the token failed'') Done"

definition viewToken :: "string \<Rightarrow> string \<Rightarrow> prog" where
  "viewToken = get_token"

definition viewClientToken :: "string \<Rightarrow> string \<Rightarrow> prog" where
  "viewClientToken = get_token"

text \<open>
  \<open>getCluster\<close>: the loop makes an option of every cluster and keeps the last one; the list gets
  that option after the loop.
\<close>

fun last_option :: "jsval list \<Rightarrow> (jsval \<times> jsval) option \<Rightarrow> (jsval \<times> jsval \<Rightarrow> prog) \<Rightarrow> prog" where
  "last_option [] option k = (case option of None \<Rightarrow> Done | Some o1 \<Rightarrow> k o1)"
| "last_option (c # cs) option k =
     read_prop c ''id'' (\<lambda>i. read_prop c ''name'' (\<lambda>n. last_option cs (Some (i, n)) k))"

definition get_cluster :: "string \<Rightarrow> prog" where
  "get_cluster base = Do (EmptyOptions ''clusterSelect'')
     (Ajax (http_get (base @ ''/cluster/getList''))
       (\<lambda>data. on_reply (read_prop data ''data'' (\<lambda>d. read_prop d ''length'' (\<lambda>n.
            if js_gt n (JNum 0)
            then last_option (elems d) None (\<lambda>(i, n). Do (AppendOption ''clusterSelect'' i n) Done)
            else Done)))
          ''fetching the clusters failed'' data)
       (show_failure ''fetching the clusters failed'') Done)"

definition conf_getCluster :: prog where
  "conf_getCluster = get_cluster ''/configure''"

definition lock_getCluster :: prog where
  "lock_getCluster = get_cluster ''/lock''"

definition conf_applyNsp :: prog where
  "conf_applyNsp = Do (SetVal ''dbName'' (JStr [])) (Do (SetVal ''tableName'' (JStr []))
     (seq conf_getCluster (Do (SetAttr ''saveButton'' ''style'' (JStr [])) (Do (ModalShow ''nspApplyModal'') Done))))"

definition saveApply :: prog where
  "saveApply = Ask (QVal ''clusterSelect'') (\<lambda>clusterId.
     if \<not> hasText clusterId then swal1 ''please choose the cluster'' Done
     else Ask (QVal ''dbName'') (\<lambda>dbName. Ask (QVal ''tableName'') (\<lambda>tableName.
       if \<not> hasText dbName \<or> \<not> hasText tableName
       then err ''apply'' ''please enter the database and the table''
       else ask_confirm ''apply for a configuration namespace?'' [] ''warning''
         (Ajax (form_post ''/configure/namespace/apply''
             [(''dbName'', dbName), (''tableName'', tableName), (''clusterId'', clusterId)])
           (\<lambda>data. on_reply (read_prop data ''msg'' (\<lambda>m. swal3 ''applied'' m ''success''
              (Do (ModalHide ''nspApplyModal'')
                (refreshed ''nspApplyLists'' ''/configure/namespace/queryList''))))
              ''application failed'' data)
           (show_failure ''application failed'') Done)
         Done)))"

definition lock_applyNsp :: prog where
  "lock_applyNsp = Do (Goto ''/page/lock/applyNamespace'') Done"

subsection \<open>locknspapply.js\<close>

definition applyLockNsp :: prog where
  "applyLockNsp = Ask (QVal ''clusterSelect'') (\<lambda>clusterId.
     if \<not> hasText clusterId then swal1 ''please choose the cluster'' Done
     else Ask (QVal ''dbName'') (\<lambda>dbName. Ask (QVal ''tableName'') (\<lambda>tableName.
       ask_confirm ''apply for a lock namespace?'' [] ''warning''
         (Ajax (form_post ''/lock/namespace/apply''
             [(''dbName'', dbName), (''tableName'', tableName), (''clusterId'', clusterId)])
           (\<lambda>data. if_code0 data
              (read_prop data ''msg'' (\<lambda>m. swal3 ''applied'' m ''success''
                 (Do (Goto ''/page/lock/viewNamespace'') Done)))
              (Do (RemoveAttr ''submit'' ''disabled'')
                 (read_prop data ''msg'' (\<lambda>m. swal3 ''application failed'' m ''error'' Done))))
           (\<lambda>res. Do (RemoveAttr ''submit'' ''disabled'') (show_failure ''application failed'' res)) Done)
         Done)))"

text \<open>The form's validator: both names are required before the submit handler runs.\<close>

definition lock_apply_submit :: prog where
  "lock_apply_submit = Ask (QVal ''dbName'') (\<lambda>dbName. Ask (QVal ''tableName'') (\<lambda>tableName.
     if hasText dbName \<and> hasText tableName then applyLockNsp else Done))"

subsection \<open>sqllist.js\<close>

definition applySql :: prog where
  "applySql = Do (SetVal ''dbName'' (JStr [])) (Do (SetVal ''tableName'' (JStr []))
     (Do (SetVal ''sentence'' (JStr [])) (Do (SetVal ''remark'' (JStr []))
     (Do (SetAttr ''saveButton'' ''style'' (JStr [])) (Do (ModalShow ''sqlApplyModal'') Done)))))"

definition saveSqlApply :: prog where
  "saveSqlApply = Ask (QVal ''dbName'') (\<lambda>dbName. Ask (QVal ''tableName'') (\<lambda>tableName.
     Ask (QVal ''sentence'') (\<lambda>sentence.
     if \<not> hasText dbName \<or> \<not> hasText tableName \<or> \<not> hasText sentence
     then err ''apply'' ''please enter the database, the table and the statement''
     else Ask (QVal ''remark'') (\<lambda>remark.
       Ajax (form_post_sync ''/sql/apply''
           [(''dbName'', dbName), (''tableName'', tableName), (''sentence'', sentence), (''remark'', remark)])
         (\<lambda>data. if_code0 data
            (swal3 ''set'' (JStr ''set'') ''success'' (Do (ModalHide ''sqlApplyModal'')
               (refreshed ''sqlApplyLists'' ''/sql/queryApplyList''))) Done)
         (show_failure ''set failed'') Done))))"

definition showDetail :: "string \<Rightarrow> prog" where
  "showDetail i =
     Ajax (http_get_sync (''/sql/apply/detail?id='' @ i))
       (\<lambda>data. if_code0 data
          (read_prop data ''data'' (\<lambda>d. read_prop d ''db_name'' (\<lambda>dbName. Do (SetVal ''dbName'' dbName)
            (read_prop d ''table_name'' (\<lambda>tableName. Do (SetVal ''tableName'' tableName)
            (read_prop d ''sentence'' (\<lambda>sentence. Do (SetVal ''sentence'' sentence)
            (read_prop d ''remark'' (\<lambda>remark. Do (SetVal ''remark'' remark)
            (Do (SetAttr ''saveButton'' ''style'' (JStr ''display:none''))
            (Do (ModalShow ''sqlApplyModal'') Done)))))))))))
          Done)
       (show_failure ''set failed'') Done"

section \<open>What the batch operations promise\<close>

text \<open>
  The ids of a selection all of whose rows have an accepted status; \<open>None\<close> when some row does not.
\<close>

fun batch_ids :: "(jsval \<Rightarrow> bool) \<Rightarrow> jsval list \<Rightarrow> jsval list option" where
  "batch_ids bad [] = Some []"
| "batch_ids bad (r # rs) = (case (get_prop r ''status'', get_prop r ''id'') of
     (Some st, Some i) \<Rightarrow> if bad st then None else map_option (Cons i) (batch_ids bad rs)
   | _ \<Rightarrow> None)"

definition selected :: "string \<Rightarrow> sys \<Rightarrow> jsval list" where
  "selected table s = map fst (filter snd (rows s table))"

definition batch_requests ::
    "(jsval \<Rightarrow> bool) \<Rightarrow> string \<Rightarrow> (string \<times> jsval) list \<Rightarrow> jsval list \<Rightarrow> ajax_req list" where
  "batch_requests bad url flds rs = (case batch_ids bad rs of
     None \<Rightarrow> []
   | Some ids \<Rightarrow> if ids = [] then []
       else [form_post url ((''ids'', JStr (json_str (JArr ids))) # flds)])"

lemma collect_ids_Some: "batch_ids bad rs = Some ids \<Longrightarrow> collect_ids bad refuse rs k = k ids"
proof (induction rs arbitrary: ids k)
  case (Cons r rs)
  then show ?case
    by (cases "get_prop r ''status''"; cases "get_prop r ''id''")
       (auto simp: read_prop_def split: if_splits)
qed simp

lemma collect_ids_None:
  "batch_ids bad rs = None \<Longrightarrow>
     collect_ids bad refuse rs k = refuse \<or> (\<exists>e. collect_ids bad refuse rs k = Throw e)"
proof (induction rs arbitrary: k)
  case (Cons r rs)
  then show ?case
    by (cases "get_prop r ''status''"; cases "get_prop r ''id''")
       (auto simp: read_prop_def split: if_splits)
qed simp

lemma batch_action_sent:
  assumes "blocked s = None" and "dlg s = None"
  shows "sent (run s [Click (batch_action table (err a b) bad (err c d) title url flds ok failed), Confirm x])
    = sent s @ batch_requests bad url flds (selected table s)"
proof (cases "batch_ids bad (selected table s)")
  case None
  then have "selected table s \<noteq> []" by auto
  with collect_ids_None [OF None, of "err c d" "\<lambda>ids. if length ids = 0 then Done
      else ask_confirm title [] ''warning'' (Ajax (form_post url
        ((''ids'', JStr (json_str (JArr ids))) # flds)) ok failed Done) Done"]
  show ?thesis
    using assms None
    by (auto simp: batch_action_def batch_requests_def selected_def err_def swal3_def dlg_do_effect)
next
  case (Some ids)
  then show ?thesis
    using assms collect_ids_Some [OF Some]
    by (auto simp: batch_action_def batch_requests_def selected_def err_def swal3_def ask_confirm_def)
qed

lemma batch_action_reply:
  assumes "blocked s = None" and "batch_ids bad (selected table s) = Some ids"
    and "selected table s \<noteq> []"
  shows "\<exists>t. run s [Click (batch_action table none_chosen bad refuse title url flds ok failed), Confirm x,
      Reply (length (pend s)) True v] = exec (ok v) t"
proof -
  have "ids \<noteq> []"
    using assms(2,3) by (cases "selected table s") (auto split: option.splits if_splits)
  then show ?thesis
    using assms(1,3) collect_ids_Some [OF assms(2) [unfolded selected_def]]
    by (auto simp: batch_action_def selected_def ask_confirm_def)
qed

text \<open>
  The contract of a batch handler: confirming the dialog sends the ids of the selected rows, and
  nothing if the selection is empty or holds a row the handler refuses.
\<close>

locale batch_contract =
  fixes handler :: prog and table :: string and refused :: "jsval \<Rightarrow> bool" and url :: string
    and flds :: "(string \<times> jsval) list"
  assumes sends: "blocked s = None \<Longrightarrow> dlg s = None \<Longrightarrow>
    sent (run s [Click handler, Confirm x]) = sent s @ batch_requests refused url flds (selected table s)"
begin

lemma refused_row_blocks:
  assumes "blocked s = None" and "dlg s = None" and "r \<in> set (selected table s)"
    and "get_prop r ''status'' = Some st" and "refused st"
  shows "sent (run s [Click handler, Confirm x]) = sent s"
proof -
  have "batch_ids refused rs = None" if "r \<in> set rs" for rs
    using that assms(4,5)
    by (induction rs) (auto split: option.split)
  with assms(3) have "batch_ids refused (selected table s) = None" by simp
  then show ?thesis using sends [OF assms(1,2)] by (simp add: batch_requests_def)
qed

lemma accepted_rows_sent:
  assumes "blocked s = None" and "dlg s = None" and "numbered (rows s table)"
    and "list_all (\<lambda>r. \<exists>st. get_prop r ''status'' = Some st \<and> \<not> refused st) (selected table s)"
    and "selected_ids (rows s table) = map int ns" and "ns \<noteq> []"
  shows "\<exists>js. sent (run s [Click handler, Confirm x]) =
      sent s @ [form_post url ((''ids'', JStr js) # flds)] \<and> read_id_array js = Some ns"
proof -
  have "batch_ids refused rs = Some (map (JNum \<circ> rid) rs)"
    if "list_all (\<lambda>r. num_id r \<noteq> None \<and> (\<exists>st. get_prop r ''status'' = Some st \<and> \<not> refused st)) rs" for rs
    using that
  proof (induction rs)
    case (Cons r rs)
    then show ?case using num_id_SomeD [of r] by auto
  qed simp
  moreover have "list_all (\<lambda>r. num_id r \<noteq> None) (selected table s)"
    using assms(3) by (auto simp: numbered_def selected_def list_all_iff)
  ultimately have "batch_ids refused (selected table s) = Some (map JNum (selected_ids (rows s table)))"
    using assms(4) by (auto simp: selected_ids_def selected_def list_all_iff comp_def)
  then have "batch_requests refused url flds (selected table s) =
      [form_post url ((''ids'', JStr (json_str (JArr (map (\<lambda>n. JNum (int n)) ns)))) # flds)]"
    using assms(5,6) by (simp add: batch_requests_def comp_def del: json_str.simps)
  then show ?thesis using sends [OF assms(1,2)] read_id_array_json [of ns] by auto
qed

end

interpretation conf_audit: batch_contract conf_auditNsp "''nspApplyLists''"
    "\<lambda>status. \<not> js_eq status (JNum 1)" "''/configure/namespace/audit''" "[(''status'', JNum 2)]"
  by unfold_locales (simp only: conf_auditNsp_def batch_action_sent)

interpretation conf_reject: batch_contract conf_rejectNsp "''nspApplyLists''"
    "\<lambda>status. js_gt status (JNum 1)" "''/configure/namespace/audit''" "[(''status'', JNum 3)]"
  by unfold_locales (simp only: conf_rejectNsp_def batch_action_sent)

interpretation conf_delete: batch_contract conf_deleteNsp "''nspApplyLists''"
    "\<lambda>status. js_eq status (JNum 2)" "''/configure/namespace/delete''" "[]"
  by unfold_locales (simp only: conf_deleteNsp_def batch_action_sent)

interpretation lock_audit: batch_contract lock_auditNsp "''nspApplyLists''"
    "\<lambda>status. \<not> js_eq status (JNum 1)" "''/lock/namespace/audit''" "[(''status'', JNum 2)]"
  by unfold_locales (simp only: lock_auditNsp_def batch_action_sent)

interpretation lock_reject: batch_contract lock_rejectNsp "''nspApplyLists''"
    "\<lambda>status. js_gt status (JNum 1)" "''/lock/namespace/audit''" "[(''status'', JNum 3)]"
  by unfold_locales (simp only: lock_rejectNsp_def batch_action_sent)

interpretation lock_delete: batch_contract lock_deleteNsp "''nspApplyLists''"
    "\<lambda>status. js_eq status (JNum 2)" "''/lock/namespace/delete''" "[]"
  by unfold_locales (simp only: lock_deleteNsp_def batch_action_sent)

interpretation sql_audit: batch_contract auditSql "''sqlApplyLists''"
    "\<lambda>status. js_gt status (JNum 1)" "''/sql/audit''" "[(''status'', JNum 2)]"
  by unfold_locales (simp only: auditSql_def batch_action_sent)

interpretation sql_reject: batch_contract rejectSql "''sqlApplyLists''"
    "\<lambda>status. js_gt status (JNum 1)" "''/sql/audit''" "[(''status'', JNum 3)]"
  by unfold_locales (simp only: rejectSql_def batch_action_sent)

section \<open>Properties\<close>

text \<open>
  C9. One selected row in the wrong state stops a whole batch on both namespace pages: auditing
  stops at a row that is not pending (status 1), rejecting at a row above pending, deleting at an
  approved row (status 2). Nothing is sent, even if the user presses the button of the dialog.
\<close>

theorem wrong_status_stops_batch:
  assumes "blocked s = None" and "dlg s = None" and "r \<in> set (selected ''nspApplyLists'' s)"
    and "get_prop r ''status'' = Some (JNum n)"
  shows "(n \<noteq> 1 \<longrightarrow> sent (run s [Click conf_auditNsp, Confirm x]) = sent s \<and>
                 sent (run s [Click lock_auditNsp, Confirm x]) = sent s) \<and>
    (1 < n \<longrightarrow> sent (run s [Click conf_rejectNsp, Confirm x]) = sent s \<and>
                 sent (run s [Click lock_rejectNsp, Confirm x]) = sent s) \<and>
    (n = 2 \<longrightarrow> sent (run s [Click conf_deleteNsp, Confirm x]) = sent s \<and>
                 sent (run s [Click lock_deleteNsp, Confirm x]) = sent s)"
  using conf_audit.refused_row_blocks [OF assms] lock_audit.refused_row_blocks [OF assms]
    conf_reject.refused_row_blocks [OF assms] lock_reject.refused_row_blocks [OF assms]
    conf_delete.refused_row_blocks [OF assms] lock_delete.refused_row_blocks [OF assms]
  by (simp only: js_eq_num js_gt_num) simp


text \<open>
  When the server refuses an audit on the configuration page, the error dialog is empty: the
  handler reads \<open>message\<close> from the reply, and the server's text is in \<open>msg\<close>, which is what the
  lock page shows.
\<close>

theorem conf_audit_error_text_lost:
  assumes "blocked s = None" and "selected ''nspApplyLists'' s \<noteq> []"
    and "batch_ids (\<lambda>status. \<not> js_eq status (JNum 1)) (selected ''nspApplyLists'' s) = Some ids"
    and "m \<noteq> []" and "c \<noteq> 0"
  shows "(\<exists>d. dlg (run s [Click conf_auditNsp, Confirm x, Reply (length (pend s)) True (bad_reply c m)])
            = Some d \<and> sw_text (fst d) = JStr []) \<and>
    (\<exists>d. dlg (run s [Click lock_auditNsp, Confirm x, Reply (length (pend s)) True (bad_reply c m)])
            = Some d \<and> sw_text (fst d) = JStr m)"
proof -
  have "\<exists>t. run s [Click conf_auditNsp, Confirm x, Reply (length (pend s)) True (bad_reply c m)] =
      exec (on_reply_message (swal3 ''audited'' (JStr ''audited'') ''success''
        (refreshed ''nspApplyLists'' ''/configure/namespace/queryList'')) ''audit failed'' (bad_reply c m)) t"
    unfolding conf_auditNsp_def by (rule batch_action_reply [OF assms(1,3,2)])
  moreover have "\<exists>t. run s [Click lock_auditNsp, Confirm x, Reply (length (pend s)) True (bad_reply c m)] =
      exec (on_reply (swal3 ''audited'' (JStr ''audited'') ''success''
        (refreshed ''nspApplyLists'' ''/lock/namespace/queryList'')) ''audit failed'' (bad_reply c m)) t"
    unfolding lock_auditNsp_def by (rule batch_action_reply [OF assms(1,3,2)])
  ultimately show ?thesis
    using assms(4,5)
    by (auto simp: on_reply_message_def on_reply_def if_code0_def read_prop_def bad_reply_def js_seq_def
        swal3_def simp del: run_simps)
qed

lemma last_option_objects:
  assumes "\<forall>c \<in> set cs. \<not> nullish c" and "cs \<noteq> []"
  shows "\<exists>i n. get_prop (last cs) ''id'' = Some i \<and> get_prop (last cs) ''name'' = Some n \<and>
    last_option cs o1 k = k (i, n)"
  using assms
proof (induction cs arbitrary: o1)
  case (Cons c cs)
  then obtain i n where "get_prop c ''id'' = Some i" "get_prop c ''name'' = Some n"
    by (metis get_prop_None_iff list.set_intros(1) not_Some_eq)
  then show ?case using Cons by (cases "cs = []") (auto simp: read_prop_def)
qed simp

text \<open>
  However many clusters the server lists, the cluster list of the application forms gets one
  option, the last cluster: the \<open>append\<close> stands after the loop that builds the options.
\<close>

theorem only_last_cluster_offered:
  assumes "blocked s = None" and "\<forall>c \<in> set cs. \<not> nullish c" and "cs \<noteq> []"
    and "handler \<in> set [conf_getCluster, lock_getCluster]"
  shows "\<exists>i n. get_prop (last cs) ''id'' = Some i \<and> get_prop (last cs) ''name'' = Some n \<and>
    opts (run s [Click handler, Reply (length (pend s)) True (ok_reply (JArr cs))]) ''clusterSelect''
      = [(field_text i, n)]"
proof -
  obtain i n where l: "get_prop (last cs) ''id'' = Some i" "get_prop (last cs) ''name'' = Some n"
      "last_option cs None (\<lambda>(i, n). Do (AppendOption ''clusterSelect'' i n) Done) =
       Do (AppendOption ''clusterSelect'' i n) Done"
    using last_option_objects [OF assms(2,3), of None
        "\<lambda>(i, n). Do (AppendOption ''clusterSelect'' i n) Done"] by auto
  obtain base where "handler = get_cluster base"
    using assms(4) by (auto simp: conf_getCluster_def lock_getCluster_def)
  then show ?thesis
    using assms(1,3) l
    by (simp add: get_cluster_def on_reply_def if_code0_def read_prop_def ok_reply_def js_seq_def
        do_effect_def)
qed

section \<open>Confirmation\<close>

definition apply_changes :: "string list" where
  "apply_changes = [''/configure/namespace/audit'', ''/configure/namespace/delete'',
     ''/configure/namespace/update'', ''/configure/namespace/apply'', ''/lock/namespace/audit'',
     ''/lock/namespace/delete'', ''/lock/namespace/update'', ''/lock/namespace/apply'', ''/sql/audit'']"

definition apply_buttons :: "prog list" where
  "apply_buttons = [conf_list, conf_auditNsp, conf_rejectNsp, conf_deleteNsp, conf_applyNsp, saveApply,
     lock_list, lock_auditNsp, lock_rejectNsp, lock_deleteNsp, lock_applyNsp, lock_getCluster,
     lock_apply_submit, sql_list, auditSql, rejectSql, applySql, saveSqlApply]"

definition apply_handlers :: "prog set" where
  "apply_handlers = set apply_buttons \<union> range conf_updateOwner \<union> range lock_updateOwner \<union>
     range conf_viewCluster \<union> range lock_viewCluster \<union> range showDetail \<union>
     {p. \<exists>d t. p = get_token d t} \<union> {p. \<exists>d t c. p = viewConfigure d t c \<or> p = viewLock d t c} \<union>
     {p. \<exists>t r. p = list_response t r}"

lemma disciplined_apply_idioms [disc_simps]:
  "disciplined M (err t x) n" "disciplined M (refreshed t u) n"
  "disciplined M p n \<Longrightarrow> disciplined M (on_reply_message p t v) n"
  "disciplined M (list_response t r) n"
  by (simp_all add: err_def refreshed_def on_reply_message_def list_response_def disc_simps)

lemma disciplined_batch_action [disc_simps]:
  "disciplined M p1 n \<Longrightarrow> disciplined M p2 n \<Longrightarrow> (\<And>v. disciplined M (ok v) 0) \<Longrightarrow>
     (\<And>v. disciplined M (failed v) 0) \<Longrightarrow>
     disciplined M (batch_action table p1 bad p2 title url flds ok failed) n"
  by (simp add: batch_action_def disc_simps)

lemma disciplined_last_option [disc_simps]:
  "(\<And>o1. disciplined M (k o1) n) \<Longrightarrow> disciplined M (last_option cs o2 k) n"
  by (induction cs arbitrary: o2) (auto simp: disc_simps split: option.split)

lemma disciplined_get_cluster [disc_simps]:
  "\<not> M (http_get (base @ ''/cluster/getList'')) \<Longrightarrow> disciplined M (get_cluster base) n"
  by (auto simp: get_cluster_def disc_simps split_beta)

lemma apply_buttons_disciplined:
  "p \<in> set apply_buttons \<Longrightarrow> disciplined (to_paths apply_changes) p 0"
  by (auto simp: apply_buttons_def apply_changes_def disc_simps conf_list_def conf_auditNsp_def
      conf_rejectNsp_def conf_deleteNsp_def conf_applyNsp_def saveApply_def lock_list_def
      lock_auditNsp_def lock_rejectNsp_def lock_deleteNsp_def lock_applyNsp_def lock_getCluster_def
      conf_getCluster_def lock_apply_submit_def applyLockNsp_def sql_list_def auditSql_def
      rejectSql_def applySql_def saveSqlApply_def)

lemma apply_rows_disciplined:
  "disciplined (to_paths apply_changes) (conf_updateOwner i) 0"
  "disciplined (to_paths apply_changes) (lock_updateOwner i) 0"
  "disciplined (to_paths apply_changes) (conf_viewCluster i) 0"
  "disciplined (to_paths apply_changes) (lock_viewCluster i) 0"
  "disciplined (to_paths apply_changes) (showDetail i) 0"
  "disciplined (to_paths apply_changes) (get_token i j) 0"
  by (auto simp: apply_changes_def disc_simps conf_updateOwner_def lock_updateOwner_def update_owner_def
      conf_viewCluster_def lock_viewCluster_def view_cluster_def showDetail_def get_token_def)

interpretation apply_page: confirmed_page apply_handlers "to_paths apply_changes"
  by unfold_locales
     (auto simp: apply_handlers_def apply_rows_disciplined viewConfigure_def viewLock_def disc_simps
        dest: apply_buttons_disciplined)

section \<open>Concrete runs\<close>

definition demo_apply :: "int \<Rightarrow> sys" where
  "demo_apply st = empty_sys\<lparr>rows := (\<lambda>t. if t = ''nspApplyLists''
     then [(JObj [(''id'', JNum 7), (''status'', JNum 1)], True),
           (JObj [(''id'', JNum 9), (''status'', JNum st)], True)] else [])\<rparr>"

lemma demo_apply_facts:
  "blocked (demo_apply st) = None" "dlg (demo_apply st) = None" "sent (demo_apply st) = []"
  "pend (demo_apply st) = []" "numbered (rows (demo_apply st) ''nspApplyLists'')"
  "selected_ids (rows (demo_apply st) ''nspApplyLists'') = map int [7, 9]"
  "selected ''nspApplyLists'' (demo_apply st) =
     [JObj [(''id'', JNum 7), (''status'', JNum 1)], JObj [(''id'', JNum 9), (''status'', JNum st)]]"
  by (simp_all add: demo_apply_def empty_sys_def numbered_def num_id_def rid_def selected_ids_def
      selected_def)

theorem wrong_status_stops_batch_witness:
  "sent (run (demo_apply 2) [Click conf_auditNsp, Confirm []]) = [] \<and>
   sent (run (demo_apply 2) [Click lock_rejectNsp, Confirm []]) = [] \<and>
   sent (run (demo_apply 2) [Click conf_deleteNsp, Confirm []]) = []"
proof -
  have "JObj [(''id'', JNum 9), (''status'', JNum 2)] \<in> set (selected ''nspApplyLists'' (demo_apply 2))"
    by (simp add: demo_apply_facts)
  from wrong_status_stops_batch [OF demo_apply_facts(1,2) this, of 2 "[]"] show ?thesis
    by (simp del: run_simps add: demo_apply_facts)
qed


theorem conf_audit_error_text_lost_witness:
  "\<exists>d. dlg (run (demo_apply 1) [Click conf_auditNsp, Confirm [], Reply 0 True (bad_reply 5 ''no'')])
     = Some d \<and> sw_text (fst d) = JStr []"
  using conf_audit_error_text_lost [OF demo_apply_facts(1), of 1 "[JNum 7, JNum 9]" "''no''" 5 "[]"]
  by (simp del: run_simps add: demo_apply_facts)

theorem only_last_cluster_offered_witness:
  "\<exists>i n. opts (run empty_sys [Click lock_getCluster, Reply 0 True (ok_reply (JArr
      [JObj [(''id'', JNum 1), (''name'', JStr ''a'')], JObj [(''id'', JNum 2), (''name'', JStr ''b'')]]))])
     ''clusterSelect'' = [(field_text i, n)] \<and> i = JNum 2 \<and> n = JStr ''b''"
  using only_last_cluster_offered [of empty_sys
      "[JObj [(''id'', JNum 1), (''name'', JStr ''a'')], JObj [(''id'', JNum 2), (''name'', JStr ''b'')]]"
      lock_getCluster]
  by (simp del: run_simps add: empty_sys_def nullish_def)

end
