(* ===== verification/Paging.thy ===== *)
theory Paging
  imports Utils
begin

text \<open>
  The detail lists of locks (\<open>apply/locklist.js\<close>) and configurations (\<open>apply/conflist.js\<close>) with
  their hand-made pager. The page variables \<open>pageIndex\<close> and \<open>pageSize\<close> are globals, kept in
  \<open>scope\<close>; the pager's buttons are the elements \<open>li.page-first\<close>, \<open>li.page-pre\<close> and \<open>li.page-next\<close>,
  with the \<open>onclick\<close> attribute of their links. The two scripts share their text up to the list's
  id and address; the shared definitions take these as arguments.
\<close>

section \<open>The pager\<close>

definition page_url :: "string \<Rightarrow> (jsval \<Rightarrow> prog) \<Rightarrow> prog" where
  "page_url base k =
     Ask (QVal ''clusterId'') (\<lambda>clusterId. Ask (QVal ''dbName'') (\<lambda>dbName. Ask (QVal ''tableName'') (\<lambda>tableName.
     Ask (QScope ''pageIndex'') (\<lambda>pageIndex. Ask (QScope ''pageSize'') (\<lambda>pageSize.
       k (JStr (base @ ''?clusterId='' @ js_str clusterId @ ''&dbName='' @ js_str dbName @
         ''&tableName='' @ js_str tableName @ ''&page='' @ js_str pageIndex @ ''&rows='' @ js_str pageSize)))))))"

definition refresh_list :: "string \<Rightarrow> string \<Rightarrow> prog" where
  "refresh_list table base = page_url base (\<lambda>u. Do (TableRefresh table (js_str u)) Done)"

definition page_first :: "string \<Rightarrow> string \<Rightarrow> prog" where
  "page_first table base = Do (ScopeSet ''pageIndex'' (JNum 1)) (refresh_list table base)"

definition page_pre :: "string \<Rightarrow> string \<Rightarrow> prog" where
  "page_pre table base = Ask (QScope ''pageIndex'') (\<lambda>pageIndex.
     if js_gt pageIndex (JNum 1)
     then Do (ScopeSet ''pageIndex'' (js_sub pageIndex (JNum 1))) (refresh_list table base)
     else refresh_list table base)"

definition page_next :: "string \<Rightarrow> string \<Rightarrow> prog" where
  "page_next table base = Ask (QScope ''pageIndex'') (\<lambda>pageIndex.
     Do (ScopeSet ''pageIndex'' (js_add pageIndex (JNum 1))) (refresh_list table base))"

definition setPageDisable :: prog where
  "setPageDisable = Ask (QScope ''pageIndex'') (\<lambda>pageIndex.
     Do (SetText ''currentPage'' pageIndex)
     (if js_eq pageIndex (JNum 1)
      then Do (AddClass ''li.page-first'' ''disabled'') (Do (AddClass ''li.page-pre'' ''disabled'')
           (Do (RemoveAttr ''li.page-first a'' ''onclick'') (Do (RemoveAttr ''li.page-pre a'' ''onclick'')
           (Do (SetAttr ''li.page-next a'' ''onclick'' (JStr ''refreshPageNext();'')) Done))))
      else if js_gt pageIndex (JNum 1)
      then Do (RemoveClass ''li.page-first'' ''disabled'') (Do (RemoveClass ''li.page-pre'' ''disabled'')
           (Do (RemoveClass ''li.page-next'' ''disabled'')
           (Do (SetAttr ''li.page-first a'' ''onclick'' (JStr ''refreshPageFirst();''))
           (Do (SetAttr ''li.page-pre a'' ''onclick'' (JStr ''refreshPagePre();''))
           (Do (SetAttr ''li.page-next a'' ''onclick'' (JStr ''refreshPageNext();'')) Done)))))
      else Done))"

definition page_response :: "string \<Rightarrow> jsval \<Rightarrow> prog" where
  "page_response table res =
     if_code0 res
       (read_prop res ''data'' (\<lambda>d. read_prop d ''pageIndex'' (\<lambda>pageIndex.
          Do (ScopeSet ''pageIndex'' pageIndex) (read_prop d ''pageSize'' (\<lambda>pageSize.
          Do (ScopeSet ''pageSize'' pageSize) (seq setPageDisable
          (read_prop d ''total'' (\<lambda>total.
             let rest = read_prop d ''data'' (\<lambda>rs. Do (ScopeSet ''total'' total) (Do (TableLoad table rs) Done))
             in if js_gt (JNum 10) total
                then Do (AddClass ''li.page-next'' ''disabled'')
                       (Do (RemoveAttr ''li.page-next a'' ''onclick'') rest)
                else rest))))))))
       (Do (ScopeSet ''pageIndex'' (JNum 1)) (Do (ScopeSet ''pageSize'' (JNum 10))
         (read_prop res ''msg'' (\<lambda>m. swal3 ''failed'' m ''error'' (seq setPageDisable
            (read_prop res ''data'' (\<lambda>rs. Do (ScopeSet ''total'' (JNum 0)) (Do (TableLoad table rs) Done))))))))"

text \<open>The time columns: empty for a missing or zero stamp.\<close>

definition stamp_text :: "int \<Rightarrow> jsval \<Rightarrow> string" where
  "stamp_text tz value =
     (if \<not> hasText value \<or> js_eq value (JNum 0) then []
      else case to_num value of
          Some n \<Rightarrow> utils_formatDate (date_of tz n) ''yyyy-MM-dd hh:mm:ss''
        | None \<Rightarrow> ''NaN-NaN-NaN NaN:NaN:NaN'')"

definition expired_text :: "jsval \<Rightarrow> string" where
  "expired_text value =
     (if \<not> hasText value \<or> js_eq value (JNum 0) then [] else js_str value @ ''ms'')"

section \<open>locklist.js\<close>

definition lock_getUrl :: "(jsval \<Rightarrow> prog) \<Rightarrow> prog" where
  "lock_getUrl = page_url ''/lock/lock/queryList''"

definition lockLists :: prog where
  "lockLists = Do (ScopeSet ''pageIndex'' (JNum 1)) (Do (ScopeSet ''pageSize'' (JNum 10))
     (lock_getUrl (\<lambda>u. Do (TableInit ''lockLists'' \<lparr>t_data = JUndef, t_url = js_str u,
       t_columns = [([], ''radio''), (''k'', ''key''), (''v'', ''value''), (''version'', ''version''),
         (''extend'', ''extension''), (''lock_id'', ''lock id''), (''expired_time'', ''expiry''),
         (''upd_time'', ''updated''), (''creator'', ''client ip'')]\<rparr>) Done)))"

definition lock_refreshPageFirst :: prog where
  "lock_refreshPageFirst = page_first ''lockLists'' ''/lock/lock/queryList''"

definition lock_refreshPagePre :: prog where
  "lock_refreshPagePre = page_pre ''lockLists'' ''/lock/lock/queryList''"

definition lock_refreshPageNext :: prog where
  "lock_refreshPageNext = page_next ''lockLists'' ''/lock/lock/queryList''"

definition lock_response :: "jsval \<Rightarrow> prog" where
  "lock_response = page_response ''lockLists''"

definition forceUnLock :: prog where
  "forceUnLock = Ask (QSelections ''lockLists'') (\<lambda>selectedApplyRows.
     if length (elems selectedApplyRows) \<noteq> 1
     then swal3 ''force unlock'' (JStr ''please choose exactly one record'') ''error'' Done
     else read_prop (hd (elems selectedApplyRows)) ''k'' (\<lambda>key.
       Ask (QVal ''clusterId'') (\<lambda>clusterId. Ask (QVal ''dbName'') (\<lambda>dbName. Ask (QVal ''tableName'') (\<lambda>tableName.
       if \<not> hasText key \<or> \<not> hasText clusterId \<or> \<not> hasText dbName \<or> \<not> hasText tableName
       then swal3 ''force unlock'' (JStr ''please choose the lock'') ''error'' Done
       else ask_confirm ''force unlock'' [] ''warning''
         (Ajax (form_post ''/lock/lock/forceUnLock''
             [(''clusterId'', clusterId), (''dbName'', dbName), (''tableName'', tableName), (''key'', key)])
           (\<lambda>data. on_reply (read_prop data ''msg'' (\<lambda>m. swal3 ''unlocked'' m ''success''
              (Do (Goto (''/page/lock/viewLock?clusterId='' @ js_str clusterId @ ''&dbName='' @
                 js_str dbName @ ''&tableName='' @ js_str tableName)) Done))) ''unlock failed'' data)
           (show_failure ''unlock failed'') Done)
         Done)))))"

section \<open>conflist.js\<close>

definition conf_getUrl :: "(jsval \<Rightarrow> prog) \<Rightarrow> prog" where
  "conf_getUrl = page_url ''/configure/queryList''"

definition confLists :: prog where
  "confLists = Do (ScopeSet ''pageIndex'' (JNum 1)) (Do (ScopeSet ''pageSize'' (JNum 10))
     (conf_getUrl (\<lambda>u. Do (TableInit ''confLists'' \<lparr>t_data = JUndef, t_url = js_str u,
       t_columns = [([], ''radio''), (''k'', ''key''), (''v'', ''value''), (''version'', ''version''),
         (''extend'', ''extension''), (''create_time'', ''expiry''), (''upd_time'', ''updated''),
         (''creator'', ''client ip'')]\<rparr>) Done)))"

definition conf_refreshPageFirst :: prog where
  "conf_refreshPageFirst = page_first ''confLists'' ''/configure/queryList''"

definition conf_refreshPagePre :: prog where
  "conf_refreshPagePre = page_pre ''confLists'' ''/configure/queryList''"

definition conf_refreshPageNext :: prog where
  "conf_refreshPageNext = page_next ''confLists'' ''/configure/queryList''"

definition conf_response :: "jsval \<Rightarrow> prog" where
  "conf_response = page_response ''confLists''"

section \<open>The pager's contract\<close>

text \<open>How the three buttons move the page index; the index never leaves the positive numbers.\<close>

locale pager =
  fixes first pre nxt :: prog
  assumes first_index: "scope (exec first s) ''pageIndex'' = JNum 1"
    and pre_index: "scope s ''pageIndex'' = JNum n \<Longrightarrow> scope (exec pre s) ''pageIndex'' = JNum (if 1 < n then n - 1 else n)"
    and nxt_index: "scope s ''pageIndex'' = JNum n \<Longrightarrow> scope (exec nxt s) ''pageIndex'' = JNum (n + 1)"
    and unblocked: "p \<in> {first, pre, nxt} \<Longrightarrow> blocked (exec p s) = blocked s"
begin

lemma move_positive:
  assumes "p \<in> {first, pre, nxt}" and "scope s ''pageIndex'' = JNum n" and "1 \<le> n"
  shows "\<exists>m. scope (exec p s) ''pageIndex'' = JNum m \<and> 1 \<le> m"
  using assms first_index pre_index [OF assms(2)] nxt_index [OF assms(2)] by auto

lemma moves_positive:
  assumes "set ps \<subseteq> {first, pre, nxt}" and "scope s ''pageIndex'' = JNum n" and "1 \<le> n"
    and "blocked s = None"
  shows "\<exists>m. scope (run s (map Click ps)) ''pageIndex'' = JNum m \<and> 1 \<le> m"
  using assms
proof (induction ps arbitrary: s n)
  case (Cons p ps)
  then have p: "p \<in> {first, pre, nxt}" by simp
  obtain m where "scope (exec p s) ''pageIndex'' = JNum m" "1 \<le> m"
    using move_positive [OF p Cons.prems(2,3)] by blast
  then show ?case using Cons.IH [of "exec p s" m] Cons.prems unblocked [OF p, of s] by simp
qed auto

lemma next_then_pre:
  assumes "scope s ''pageIndex'' = JNum n" and "1 \<le> n" and "blocked s = None"
  shows "scope (run s [Click nxt, Click pre]) ''pageIndex'' = JNum n"
  using assms nxt_index [OF assms(1)] pre_index [of "exec nxt s" "n + 1"] unblocked [of nxt s] by simp

end

lemma refresh_list_exec [simp]:
  "scope (exec (refresh_list t b) s) = scope s" "blocked (exec (refresh_list t b) s) = blocked s"
  by (simp_all add: refresh_list_def page_url_def do_effect_def)

lemma page_moves:
  "scope (exec (page_first t b) s) ''pageIndex'' = JNum 1"
  "scope s ''pageIndex'' = JNum n \<Longrightarrow>
     scope (exec (page_pre t b) s) ''pageIndex'' = JNum (if 1 < n then n - 1 else n)"
  "scope s ''pageIndex'' = JNum n \<Longrightarrow> scope (exec (page_next t b) s) ''pageIndex'' = JNum (n + 1)"
  "blocked (exec (page_first t b) s) = blocked s" "blocked (exec (page_pre t b) s) = blocked s"
  "blocked (exec (page_next t b) s) = blocked s"
  by (simp_all add: page_first_def page_pre_def page_next_def do_effect_def)

interpretation lock_pager: pager lock_refreshPageFirst lock_refreshPagePre lock_refreshPageNext
  unfolding lock_refreshPageFirst_def lock_refreshPagePre_def lock_refreshPageNext_def
  by unfold_locales (auto simp only: page_moves insert_iff empty_iff)

interpretation conf_pager: pager conf_refreshPageFirst conf_refreshPagePre conf_refreshPageNext
  unfolding conf_refreshPageFirst_def conf_refreshPagePre_def conf_refreshPageNext_def
  by unfold_locales (auto simp only: page_moves insert_iff empty_iff)

section \<open>Properties\<close>


definition page_data :: "int \<Rightarrow> int \<Rightarrow> int \<Rightarrow> jsval \<Rightarrow> jsval" where
  "page_data n sz cnt rs = JObj [(''pageIndex'', JNum n), (''pageSize'', JNum sz),
     (''total'', JNum cnt), (''data'', rs)]"

lemmas page_response_simps = page_response_def setPageDisable_def if_code0_def read_prop_def
  ok_reply_def page_data_def js_seq_def do_effect_def Let_def

text \<open>
  C29. The pager after page \<open>n\<close> arrives with \<open>cnt\<close> records: the buttons back work exactly from the
  second page on, and the button forward works exactly when the page has at least ten records. The
  look of the button forward is right from the second page on; on page one it stays disabled once a
  short page has disabled it, although the button works.
\<close>

theorem pager_buttons:
  assumes "1 \<le> n" and "t = exec (page_response table (ok_reply (page_data n sz cnt rs))) s"
  shows "(classes t ''li.page-pre'' ''disabled'' \<longleftrightarrow> n = 1) \<and>
    (attrs t ''li.page-pre a'' ''onclick'' \<noteq> None \<longleftrightarrow> 1 < n) \<and>
    (attrs t ''li.page-first a'' ''onclick'' \<noteq> None \<longleftrightarrow> 1 < n) \<and>
    (attrs t ''li.page-next a'' ''onclick'' \<noteq> None \<longleftrightarrow> 10 \<le> cnt) \<and>
    (classes t ''li.page-next'' ''disabled'' \<longleftrightarrow>
       cnt < 10 \<or> n = 1 \<and> classes s ''li.page-next'' ''disabled'') \<and>
    scope t ''pageIndex'' = JNum n \<and> map fst (rows t table) = elems rs"
proof (cases "n = 1")
  case True
  then show ?thesis
    by (cases "cnt < 10") (simp_all add: assms(2) page_response_simps comp_def)
next
  case False
  with assms(1) have "1 < n" by simp
  then show ?thesis
    by (cases "cnt < 10") (simp_all add: assms(2) page_response_simps comp_def)
qed



theorem pager_buttons_witness:
  "classes (exec (page_response ''lockLists'' (ok_reply (page_data 1 10 12 (JArr []))))
     (exec (page_response ''lockLists'' (ok_reply (page_data 2 10 2 (JArr [])))) empty_sys))
     ''li.page-next'' ''disabled''"
  using pager_buttons [OF _ refl, of 2 "''lockLists''" 10 2 "JArr []" empty_sys]
    pager_buttons [OF _ refl, of 1 "''lockLists''" 10 12 "JArr []"
      "exec (page_response ''lockLists'' (ok_reply (page_data 2 10 2 (JArr [])))) empty_sys"]
  by simp


section \<open>Confirmation\<close>

definition list_handlers :: "prog set" where
  "list_handlers = {lockLists, confLists, forceUnLock, lock_refreshPageFirst, lock_refreshPagePre,
     lock_refreshPageNext, conf_refreshPageFirst, conf_refreshPagePre, conf_refreshPageNext} \<union>
     range lock_response \<union> range conf_response"

definition list_changes :: "string list" where
  "list_changes = [''/lock/lock/forceUnLock'']"

lemma disciplined_paging [disc_simps]:
  "(\<And>u. disciplined M (k u) n) \<Longrightarrow> disciplined M (page_url b k) n"
  "disciplined M setPageDisable n"
  by (simp_all add: page_url_def setPageDisable_def)

interpretation list_page: confirmed_page list_handlers "to_paths list_changes"
  by unfold_locales
     (auto simp: list_handlers_def list_changes_def disc_simps lockLists_def confLists_def forceUnLock_def
        lock_refreshPageFirst_def lock_refreshPagePre_def lock_refreshPageNext_def
        conf_refreshPageFirst_def conf_refreshPagePre_def conf_refreshPageNext_def page_first_def
        page_pre_def page_next_def refresh_list_def lock_response_def conf_response_def
        page_response_def lock_getUrl_def conf_getUrl_def Let_def)

end
