(* ===== verification/Monitor.thy ===== *)
theory Monitor
  imports Utils
begin

text \<open>
  The monitoring pages of a database (\<open>monitor/viewmonitordb.js\<close>), a table
  (\<open>monitor/viewmonitortable.js\<close>) and a node (\<open>monitor/viewmonitornode.js\<close>), and the loader of the
  range page (\<open>cluster/rangetopu.js\<close>). Every call of a loader creates its charts anew; a chart is
  named by its container and the number of the call, so that a late reply reaches the charts of its
  own call. The chart options (colours, axes, legends) are not modelled.
\<close>

section \<open>Charts\<close>

text \<open>The number of this call of the loader, and the names of its charts.\<close>

definition with_charts :: "((string \<Rightarrow> string) \<Rightarrow> prog) \<Rightarrow> prog" where
  "with_charts k = Ask (QScope ''loads'') (\<lambda>g.
     let n = (case g of JNum n \<Rightarrow> n | _ \<Rightarrow> 0) in
     Do (ScopeSet ''loads'' (JNum (n + 1))) (k (\<lambda>c. c @ ''#'' @ show_int n)))"

definition new_charts :: "string list \<Rightarrow> prog \<Rightarrow> prog" where
  "new_charts cs p = for_each (\<lambda>c. Do (NewChart c)) cs p"

definition show_all :: "string list \<Rightarrow> string \<Rightarrow> prog \<Rightarrow> prog" where
  "show_all cs m p = for_each (\<lambda>c. Do (ShowLoading c m)) cs p"

definition hide_all :: "string list \<Rightarrow> prog \<Rightarrow> prog" where
  "hide_all cs p = for_each (\<lambda>c. Do (HideLoading c)) cs p"

text \<open>\<open>o.name = pre + o.name + post\<close> for the series \<open>o = d.key\<close>; the changed series goes on.\<close>

definition named_series :: "jsval \<Rightarrow> string \<Rightarrow> (jsval \<Rightarrow> jsval) \<Rightarrow> (jsval \<Rightarrow> prog) \<Rightarrow> prog" where
  "named_series d key f k = read_prop d key (\<lambda>ob. read_prop ob ''name'' (\<lambda>n. k (set_prop ob ''name'' (f n))))"

definition wrap :: "string \<Rightarrow> string \<Rightarrow> jsval \<Rightarrow> jsval" where
  "wrap pre post n = JStr (pre @ js_str n @ post)"

text \<open>The query's time span: empty for the initial load, the pickers' texts afterwards.\<close>

definition query_span :: "string \<Rightarrow> (jsval \<Rightarrow> jsval \<Rightarrow> prog) \<Rightarrow> prog" where
  "query_span type k = (if type \<noteq> ''defaultOptions''
     then Ask (QVal ''start'') (\<lambda>s. Ask (QVal ''end'') (\<lambda>e. k s e))
     else k (JStr []) (JStr []))"

definition no_data :: string where "no_data = ''no data!''"

definition monitor_error :: string where "monitor_error = ''monitoring failed!''"

section \<open>Databases and tables\<close>

definition db_charts :: "string list" where
  "db_charts = [''container_ops'', ''container_outper_inper'', ''container_size'', ''container_range_count'']"

text \<open>The success branch of the two pages; \<open>pre\<close> is the text before a series' name.\<close>

definition fill_db :: "(string \<Rightarrow> string) \<Rightarrow> (jsval \<Rightarrow> jsval) \<Rightarrow> (string \<Rightarrow> jsval \<Rightarrow> jsval) \<Rightarrow> jsval \<Rightarrow> prog" where
  "fill_db f plain flow data =
     read_prop data ''attach'' (\<lambda>a.
     named_series a ''ops'' plain (\<lambda>ops. Do (AddSeries (f ''container_ops'') ops)
     (named_series a ''bytes_out_per_sec'' (flow '' out'') (\<lambda>out.
      named_series a ''bytes_in_per_sec'' (flow '' in'') (\<lambda>inp.
      Do (AddSeries (f ''container_outper_inper'') out) (Do (AddSeries (f ''container_outper_inper'') inp)
     (named_series a ''size'' plain (\<lambda>size1. Do (AddSeries (f ''container_size'') size1)
     (named_series a ''range_count'' plain (\<lambda>rc. Do (AddSeries (f ''container_range_count'') rc)
     (hide_all (map f db_charts) Done)))))))))))"

definition db_load_monitor_data :: "string \<Rightarrow> prog" where
  "db_load_monitor_data type = with_charts (\<lambda>f. new_charts (map f db_charts)
     (show_all (map f db_charts) ''Loading....''
     (Ask (QVal ''dbId'') (\<lambda>dbId. Ask (QVal ''dbName'') (\<lambda>dbName. Ask (QVal ''clusterId'') (\<lambda>clusterId.
      query_span type (\<lambda>startTime endTime.
      Ajax (form_post ''/monitor/getDbMonitorDataById''
          [(''dbId'', dbId), (''dbName'', dbName), (''clusterId'', clusterId),
           (''startTime'', startTime), (''endTime'', endTime)])
        (\<lambda>data. if_code0 data (fill_db f (wrap ''DBName:'' []) (wrap ''DBName:'') data)
           (show_all (map f db_charts) no_data Done))
        (\<lambda>_. show_all (map f db_charts) monitor_error Done) Done)))))))"

definition db_queryFilter :: prog where
  "db_queryFilter = db_load_monitor_data ''setOptions''"

definition table_load_monitor_data :: "string \<Rightarrow> prog" where
  "table_load_monitor_data type = with_charts (\<lambda>f. new_charts (map f db_charts)
     (show_all (map f db_charts) ''Loading....''
     (Ask (QVal ''tableId'') (\<lambda>tableId. Ask (QVal ''tableName'') (\<lambda>tableName. Ask (QVal ''dbName'') (\<lambda>dbName.
      Ask (QVal ''clusterId'') (\<lambda>clusterId.
      query_span type (\<lambda>startTime endTime.
      Ajax (form_post ''/monitor/getTableMonitorData''
          [(''dbName'', dbName), (''tableName'', tableName), (''tableId'', tableId),
           (''clusterId'', clusterId), (''startTime'', startTime), (''endTime'', endTime)])
        (\<lambda>data. if_code0 data (fill_db f (\<lambda>n. n) (wrap []) data)
           (show_all (map f db_charts) no_data Done))
        (\<lambda>_. show_all (map f db_charts) monitor_error Done) Done))))))))"

definition table_queryFilter :: prog where
  "table_queryFilter = table_load_monitor_data ''setOptions''"

section \<open>Nodes\<close>

definition node_charts :: "string list" where
  "node_charts = [''container_cpu_percent'', ''container_memory_percent'', ''container_io_read_bytes'',
     ''container_io_read_count'', ''container_memory_swap'', ''container_net_byte_recv'',
     ''container_net_connection_count'', ''container_net_drop_in'', ''container_net_err_in'',
     ''container_net_packet_recv'', ''container_range_count'', ''container_leader_count'', ''container_ttl'']"

text \<open>Which series of the reply goes into which chart, in the order of the calls.\<close>

definition node_series :: "(string \<times> string) list" where
  "node_series =
     [(''container_cpu_percent'', ''cpu_percent''), (''container_memory_percent'', ''memory_percent''),
      (''container_io_read_bytes'', ''io_read_bytes''), (''container_io_read_bytes'', ''io_write_bytes''),
      (''container_io_read_count'', ''io_read_count''), (''container_io_read_count'', ''io_write_count''),
      (''container_memory_swap'', ''memory_swap''), (''container_memory_swap'', ''memory_rss''),
      (''container_memory_swap'', ''memory_vms''), (''container_net_byte_recv'', ''net_byte_recv''),
      (''container_net_byte_recv'', ''net_byte_sent''),
      (''container_net_connection_count'', ''net_connection_count''),
      (''container_net_drop_in'', ''net_drop_in''), (''container_net_drop_in'', ''net_drop_out''),
      (''container_net_err_in'', ''net_err_in''), (''container_net_err_in'', ''net_err_out''),
      (''container_net_packet_recv'', ''net_packet_recv''), (''container_net_packet_recv'', ''net_packet_sent''),
      (''container_range_count'', ''range_count''), (''container_leader_count'', ''leader_count''),
      (''container_ttl'', ''ttl'')]"

text \<open>\<open>addSeries\<close> ignores a missing series.\<close>

fun add_node_series :: "(string \<Rightarrow> string) \<Rightarrow> jsval \<Rightarrow> (string \<times> string) list \<Rightarrow> prog \<Rightarrow> prog" where
  "add_node_series f a [] p = p"
| "add_node_series f a ((c, k) # cs) p = read_prop a k (\<lambda>ob.
     if truthy ob then Do (AddSeries (f c) ob) (add_node_series f a cs p) else add_node_series f a cs p)"

text \<open>The cpu and memory charts are created twice.\<close>

definition node_chart_calls :: "string list" where
  "node_chart_calls = [''container_cpu_percent'', ''container_memory_percent'', ''container_cpu_percent'',
     ''container_io_read_bytes'', ''container_io_read_count'', ''container_memory_percent'',
     ''container_memory_swap'', ''container_net_byte_recv'', ''container_net_connection_count'',
     ''container_net_drop_in'', ''container_net_err_in'', ''container_net_packet_recv'',
     ''container_range_count'', ''container_leader_count'', ''container_ttl'']"

definition node_load_monitor_data :: "string \<Rightarrow> prog" where
  "node_load_monitor_data type = with_charts (\<lambda>f.
     for_each (\<lambda>c p. Do (NewChart c) (Do (ShowLoading c ''Loading....'') p)) (map f node_chart_calls)
     (Ask (QVal ''nodeId'') (\<lambda>nodeId. Ask (QVal ''host'') (\<lambda>host. Ask (QVal ''clusterId'') (\<lambda>clusterId.
      query_span type (\<lambda>startTime endTime.
      Ajax (form_post ''/monitor/getNodeProcessMonitorData''
          [(''nodeId'', nodeId), (''host'', host), (''clusterId'', clusterId),
           (''startTime'', startTime), (''endTime'', endTime)])
        (\<lambda>data. if_code0 data
           (read_prop data ''attach'' (\<lambda>a. add_node_series f a node_series (hide_all (map f node_charts) Done)))
           (show_all (map f node_charts) no_data Done))
        (\<lambda>_. show_all (map f node_charts) no_data Done) Done))))))"

definition node_queryFilter :: prog where
  "node_queryFilter = node_load_monitor_data ''setOptions''"

section \<open>Ranges\<close>

definition range_charts :: "string list" where
  "range_charts = [''container_ops'', ''container_outper_inper'', ''container_size'']"

definition fill_range :: "(string \<Rightarrow> string) \<Rightarrow> jsval \<Rightarrow> prog" where
  "fill_range f data =
     read_prop data ''attach'' (\<lambda>a.
     if nullish a then show_all (map f range_charts) no_data Done
     else named_series a ''ops'' (wrap ''range:'' []) (\<lambda>ops. Do (AddSeries (f ''container_ops'') ops)
       (named_series a ''bytes_out_per_sec'' (wrap ''range:'' '' out'') (\<lambda>out.
        named_series a ''bytes_in_per_sec'' (wrap ''range:'' '' in'') (\<lambda>inp.
        Do (AddSeries (f ''container_outper_inper'') out) (Do (AddSeries (f ''container_outper_inper'') inp)
       (named_series a ''size'' (wrap ''range:'' []) (\<lambda>size1. Do (AddSeries (f ''container_size'') size1)
       (hide_all (map f range_charts) Done)))))))))"

definition range_load_monitor_data :: "jsval \<Rightarrow> string \<Rightarrow> prog" where
  "range_load_monitor_data rangeId type = with_charts (\<lambda>f. new_charts (map f range_charts)
     (Ask (QVal ''clusterId'') (\<lambda>clusterId. query_span type (\<lambda>startTime endTime.
      show_all (map f range_charts) ''Loading....''
      (Ajax (form_post ''/monitor/getRangeData''
          [(''clusterId'', clusterId), (''rangeId'', rangeId), (''startTime'', startTime), (''endTime'', endTime)])
        (fill_range f) (\<lambda>_. Done) Done)))))"

section \<open>Which charts a program touches\<close>

fun chart_of :: "effect \<Rightarrow> string option" where
  "chart_of (NewChart c) = Some c"
| "chart_of (ShowLoading c m) = Some c"
| "chart_of (HideLoading c) = Some c"
| "chart_of (AddSeries c v) = Some c"
| "chart_of e = None"

primrec only_charts :: "(string \<Rightarrow> bool) \<Rightarrow> prog \<Rightarrow> bool" where
  "only_charts P Done = True"
| "only_charts P (Throw e) = True"
| "only_charts P (Do e p) = ((case chart_of e of None \<Rightarrow> True | Some c \<Rightarrow> P c) \<and> only_charts P p)"
| "only_charts P (Ask q k) = (\<forall>v. only_charts P (k v))"
| "only_charts P (Ajax r ok bad p) = only_charts P p"
| "only_charts P (Swal opt c k p) = only_charts P p"

named_theorems chart_simps \<open>which charts the loaders touch\<close>

lemma charts_do_effect:
  "(case chart_of e of None \<Rightarrow> True | Some c \<Rightarrow> c \<noteq> x) \<Longrightarrow> charts (do_effect e s) x = charts s x"
  by (cases "(e, s)" rule: apply_effect.cases) (simp_all add: do_effect_def split: option.splits)

lemma only_charts_exec: "only_charts P p \<Longrightarrow> \<not> P x \<Longrightarrow> charts (exec p s) x = charts s x"
proof (induction p arbitrary: s)
  case (Do e p)
  then have "charts (do_effect e s) x = charts s x"
    by (intro charts_do_effect) (auto split: option.split)
  with Do show ?case by simp
next
  case (Throw e)
  then show ?case by (simp add: charts_do_effect)
qed auto

lemma only_charts_read [chart_simps]:
  "(\<And>x. only_charts P (f x)) \<Longrightarrow> only_charts P (read_prop v k f)"
  "(\<And>x. only_charts P (f x)) \<Longrightarrow> only_charts P (named_series v k g f)"
  "only_charts P p \<Longrightarrow> only_charts P q \<Longrightarrow> only_charts P (if_code0 v p q)"
  by (simp_all add: read_prop_def named_series_def if_code0_def split: option.split)

lemma only_charts_all [chart_simps]:
  "only_charts P (show_all (map f cs) m p) \<longleftrightarrow> (\<forall>c \<in> set cs. P (f c)) \<and> only_charts P p"
  "only_charts P (hide_all (map f cs) p) \<longleftrightarrow> (\<forall>c \<in> set cs. P (f c)) \<and> only_charts P p"
  by (induction cs) (auto simp: show_all_def hide_all_def)

lemma only_charts_node_series [chart_simps]:
  "\<forall>c. P (f c) \<Longrightarrow> only_charts P p \<Longrightarrow> only_charts P (add_node_series f a cs p)"
  by (induction f a cs p rule: add_node_series.induct) (auto simp: chart_simps)

definition of_load :: "int \<Rightarrow> string \<Rightarrow> bool" where
  "of_load n c \<longleftrightarrow> (\<exists>d. c = d @ ''#'' @ show_int n)"

lemma hash_notin_show_int: "CHR ''#'' \<notin> set (show_int n)"
  using show_nat_digits [of "nat n"] show_nat_digits [of "nat (- n)"]
  by (auto simp: show_int_def digits_def)

lemma show_int_inj:
  assumes "show_int m = show_int n"
  shows "m = n"
proof -
  have "CHR ''-'' \<in> set (show_int k) \<longleftrightarrow> k < 0" for k by (simp add: show_int_def)
  with assms have "m < 0 \<longleftrightarrow> n < 0" by metis
  with assms show ?thesis by (cases "m < 0") (simp_all add: show_int_def)
qed

lemma load_suffix: "takeWhile (\<lambda>x. x \<noteq> CHR ''#'') (rev (d @ ''#'' @ show_int m)) = rev (show_int m)"
proof -
  have "takeWhile (\<lambda>x. x \<noteq> CHR ''#'') (rev (show_int m) @ CHR ''#'' # rev d) =
      rev (show_int m) @ takeWhile (\<lambda>x. x \<noteq> CHR ''#'') (CHR ''#'' # rev d)"
    by (rule takeWhile_append2) (use hash_notin_show_int in auto)
  then show ?thesis by simp
qed

lemma of_load_inj:
  assumes "of_load m c" and "of_load n c"
  shows "m = n"
proof -
  obtain d e where "c = d @ ''#'' @ show_int m" and "c = e @ ''#'' @ show_int n"
    using assms unfolding of_load_def by blast
  then have "rev (show_int m) = rev (show_int n)" using load_suffix by metis
  then show ?thesis using show_int_inj by simp
qed

section \<open>What a loader promises\<close>

text \<open>
  The contract of a loader: a call is numbered, leaves one request, shows empty loading charts, and
  the callbacks of its request touch the charts of the call only. The consequence is that replies
  may arrive in any order.
\<close>

locale chart_loader =
  fixes load :: prog and names :: "string list"
  assumes starts: "scope s ''loads'' = JNum n \<Longrightarrow> blocked s = None \<Longrightarrow>
      \<exists>r ok bad. pend (exec load s) = pend s @ [(r, ok, bad)] \<and>
        (\<forall>v. only_charts (of_load n) (ok v) \<and> only_charts (of_load n) (bad v))"
    and counts: "scope s ''loads'' = JNum n \<Longrightarrow>
      blocked (exec load s) = blocked s \<and> scope (exec load s) ''loads'' = JNum (n + 1)"
    and shows_loading: "scope s ''loads'' = JNum n \<Longrightarrow> c \<in> set names \<Longrightarrow>
      charts (exec load s) (c @ ''#'' @ show_int n) = \<lparr>ch_series = [], ch_loading = Some ''Loading....''\<rparr>"
begin

lemma late_reply_isolated:
  assumes "scope s ''loads'' = JNum n" and "blocked s = None" and "c \<in> set names"
  shows "charts (run s [Click load, Click load, Reply (length (pend s)) good v]) (c @ ''#'' @ show_int (n + 1)) =
    \<lparr>ch_series = [], ch_loading = Some ''Loading....''\<rparr>"
proof -
  let ?t = "exec load s" and ?x = "c @ ''#'' @ show_int (n + 1)"
  let ?u = "exec load ?t"
  have t: "scope ?t ''loads'' = JNum (n + 1)" "blocked ?t = None" using counts assms(1,2) by simp_all
  obtain r ok bad where p: "pend ?t = pend s @ [(r, ok, bad)]"
      and only: "\<And>v. only_charts (of_load n) (ok v)" "\<And>v. only_charts (of_load n) (bad v)"
    using starts [OF assms(1,2)] by blast
  obtain q where q: "pend ?u = pend ?t @ [q]" using starts [OF t] by blast
  have u: "blocked ?u = None" using counts [OF t(1)] t(2) by simp
  have nx: "\<not> of_load n ?x"
    using of_load_inj [of n ?x "n + 1"] unfolding of_load_def by fastforce
  have "charts (exec (if good then ok v else bad v) w) ?x = charts w ?x" for w
    using only_charts_exec [OF only(1) nx] only_charts_exec [OF only(2) nx] by simp
  then have "charts (fire (Reply (length (pend s)) good v) ?u) ?x = charts ?u ?x"
    using u p q by (simp add: nth_append)
  then show ?thesis using assms(2) t(2) shows_loading [OF t(1) assms(3)] by simp
qed

end

lemma exec_for_each_Do:
  "exec (for_each (\<lambda>c. Do (e c)) cs p) s = exec p (fold (\<lambda>c. do_effect (e c)) cs s)"
  by (induction cs arbitrary: s) simp_all

definition chart_fold :: "(string \<Rightarrow> effect) \<Rightarrow> string list \<Rightarrow> sys \<Rightarrow> sys" where
  "chart_fold e cs s = fold (\<lambda>c. do_effect (e c)) cs s"

lemma exec_chart_lists:
  "exec (new_charts cs p) s = exec p (chart_fold NewChart cs s)"
  "exec (show_all cs m p) s = exec p (chart_fold (\<lambda>c. ShowLoading c m) cs s)"
  "exec (hide_all cs p) s = exec p (chart_fold HideLoading cs s)"
  by (simp_all add: new_charts_def show_all_def hide_all_def exec_for_each_Do chart_fold_def)

lemma chart_fold_machine:
  assumes "\<And>c s. pend (do_effect (e c) s) = pend s \<and> blocked (do_effect (e c) s) = blocked s \<and>
    scope (do_effect (e c) s) = scope s \<and> vals (do_effect (e c) s) = vals s"
  shows "pend (chart_fold e cs s) = pend s" "blocked (chart_fold e cs s) = blocked s"
    "scope (chart_fold e cs s) = scope s" "vals (chart_fold e cs s) = vals s"
  using assms unfolding chart_fold_def by (induction cs arbitrary: s; simp)+

lemma chart_fold_simps [simp]:
  "pend (chart_fold NewChart cs s) = pend s" "blocked (chart_fold NewChart cs s) = blocked s"
  "scope (chart_fold NewChart cs s) = scope s" "vals (chart_fold NewChart cs s) = vals s"
  "pend (chart_fold (\<lambda>c. ShowLoading c m) cs s) = pend s"
  "blocked (chart_fold (\<lambda>c. ShowLoading c m) cs s) = blocked s"
  "scope (chart_fold (\<lambda>c. ShowLoading c m) cs s) = scope s"
  "vals (chart_fold (\<lambda>c. ShowLoading c m) cs s) = vals s"
  by (simp_all add: chart_fold_machine do_effect_def)

lemma charts_new [simp]:
  "charts (chart_fold NewChart cs s) x =
     (if x \<in> set cs then \<lparr>ch_series = [], ch_loading = None\<rparr> else charts s x)"
  by (induction cs arbitrary: s) (auto simp: chart_fold_def do_effect_def)

lemma charts_show [simp]:
  "charts (chart_fold (\<lambda>c. ShowLoading c m) cs s) x =
     (if x \<in> set cs then (charts s x)\<lparr>ch_loading := Some m\<rparr> else charts s x)"
  by (induction cs arbitrary: s) (auto simp: chart_fold_def do_effect_def)

lemma of_load_name [simp]: "of_load n (c @ CHR ''#'' # show_int n)"
  by (auto simp: of_load_def)

lemma fill_db_charts [chart_simps]:
  "(\<And>c. P (f c)) \<Longrightarrow> only_charts P (fill_db f p q v)"
  "(\<And>c. P (f c)) \<Longrightarrow> only_charts P (fill_range f v)"
  by (auto simp: fill_db_def fill_range_def chart_simps)

lemmas loader_simps = with_charts_def Let_def do_effect_def exec_chart_lists query_span_def chart_simps

interpretation db_loader: chart_loader "db_load_monitor_data type" db_charts for type
  by unfold_locales (auto simp: db_load_monitor_data_def loader_simps)

interpretation table_loader: chart_loader "table_load_monitor_data type" db_charts for type
  by unfold_locales (auto simp: table_load_monitor_data_def loader_simps)

interpretation range_loader: chart_loader "range_load_monitor_data rangeId type" range_charts
    for rangeId type
  by unfold_locales (auto simp: range_load_monitor_data_def loader_simps)

definition load_fold :: "string list \<Rightarrow> sys \<Rightarrow> sys" where
  "load_fold cs s = fold (\<lambda>c s. do_effect (ShowLoading c ''Loading....'') (do_effect (NewChart c) s)) cs s"

lemma exec_node_calls:
  "exec (for_each (\<lambda>c p. Do (NewChart c) (Do (ShowLoading c ''Loading....'') p)) cs p) s =
     exec p (load_fold cs s)"
  by (induction cs arbitrary: s) (simp_all add: load_fold_def)

lemma load_fold_simps [simp]:
  "pend (load_fold cs s) = pend s" "blocked (load_fold cs s) = blocked s"
  "scope (load_fold cs s) = scope s" "vals (load_fold cs s) = vals s"
  by (induction cs arbitrary: s; simp add: load_fold_def do_effect_def)+

lemma charts_load_fold [simp]:
  "charts (load_fold cs s) x = (if x \<in> set cs then \<lparr>ch_series = [], ch_loading = Some ''Loading....''\<rparr>
     else charts s x)"
  by (induction cs arbitrary: s) (auto simp: load_fold_def do_effect_def)

lemma node_charts_called: "set node_charts \<subseteq> set node_chart_calls"
  by (simp add: node_charts_def node_chart_calls_def)

interpretation node_loader: chart_loader "node_load_monitor_data type" node_charts for type
  by unfold_locales
     (use node_charts_called in \<open>auto simp: node_load_monitor_data_def loader_simps exec_node_calls\<close>)

section \<open>Properties\<close>

text \<open>
  C10. Replies of the monitoring pages may arrive late: when the user queries twice, the reply to the
  first query, successful or not and whatever it holds, leaves the charts of the second query as
  they are, empty and loading. This holds for the database, table, node and range charts.
\<close>

theorem late_monitor_reply_isolated:
  assumes "scope s ''loads'' = JNum n" and "blocked s = None"
    and "(load, names) \<in> set [(db_queryFilter, db_charts), (table_queryFilter, db_charts),
       (node_queryFilter, node_charts), (range_load_monitor_data rangeId ''setOptions'', range_charts)]"
    and "c \<in> set names"
  shows "charts (run s [Click load, Click load, Reply (length (pend s)) good v]) (c @ ''#'' @ show_int (n + 1)) =
    \<lparr>ch_series = [], ch_loading = Some ''Loading....''\<rparr>"
proof -
  note isolated = db_loader.late_reply_isolated [OF assms(1,2), of c "''setOptions''"]
    table_loader.late_reply_isolated [OF assms(1,2), of c "''setOptions''"]
    node_loader.late_reply_isolated [OF assms(1,2), of c "''setOptions''"]
    range_loader.late_reply_isolated [OF assms(1,2), of c rangeId "''setOptions''"]
  from assms(3,4) show ?thesis
    unfolding list.set insert_iff empty_iff prod.inject
      db_queryFilter_def table_queryFilter_def node_queryFilter_def
    by (elim disjE conjE FalseE) (simp_all only: isolated)
qed

text \<open>
  A failed request shows on every chart of the database, table and node pages, with no series.
  On the range page the error callback is empty: its charts stay in the loading state.
\<close>

theorem monitor_failure_shown:
  assumes "scope s ''loads'' = JNum n" and "blocked s = None"
    and "(load, names, message) \<in> set [(db_queryFilter, db_charts, monitor_error),
       (table_queryFilter, db_charts, monitor_error), (node_queryFilter, node_charts, no_data),
       (range_load_monitor_data rangeId ''setOptions'', range_charts, ''Loading....'')]"
    and "c \<in> set names"
  shows "charts (run s [Click load, Reply (length (pend s)) False v]) (c @ ''#'' @ show_int n) =
    \<lparr>ch_series = [], ch_loading = Some message\<rparr>"
proof -
  note defs = db_queryFilter_def table_queryFilter_def node_queryFilter_def db_load_monitor_data_def
    table_load_monitor_data_def node_load_monitor_data_def range_load_monitor_data_def loader_simps
    exec_node_calls
  from assms(3) consider "load = db_queryFilter" "names = db_charts" "message = monitor_error"
    | "load = table_queryFilter" "names = db_charts" "message = monitor_error"
    | "load = node_queryFilter" "names = node_charts" "message = no_data"
    | "load = range_load_monitor_data rangeId ''setOptions''" "names = range_charts" "message = ''Loading....''"
    unfolding list.set insert_iff empty_iff prod.inject by (elim disjE conjE FalseE)
  then show ?thesis
    by cases (use assms(1,2,4) node_charts_called in \<open>auto simp: defs\<close>)
qed

definition demo_monitor :: sys where
  "demo_monitor = empty_sys\<lparr>scope := (\<lambda>_. JNum 0)\<rparr>"

theorem late_monitor_reply_isolated_witness:
  "charts (run demo_monitor [Click db_queryFilter, Click db_queryFilter, Reply 0 False JNull]) ''container_ops#1'' =
     \<lparr>ch_series = [], ch_loading = Some ''Loading....''\<rparr>"
  using late_monitor_reply_isolated [of demo_monitor 0 db_queryFilter db_charts JNull "''container_ops''" False JNull]
  by (simp del: run_simps add: demo_monitor_def empty_sys_def db_charts_def show_int_def show_nat.simps
      digit_char_def digits_def)

theorem monitor_failure_shown_witness:
  "charts (run demo_monitor [Click (range_load_monitor_data (JNum 5) ''setOptions''), Reply 0 False JNull])
     ''container_size#0'' = \<lparr>ch_series = [], ch_loading = Some ''Loading....''\<rparr>"
  using monitor_failure_shown [of demo_monitor 0 "range_load_monitor_data (JNum 5) ''setOptions''" range_charts
      "''Loading....''" "JNum 5" "''container_size''" JNull]
  by (simp del: run_simps add: demo_monitor_def empty_sys_def range_charts_def show_int_def show_nat.simps
      digit_char_def digits_def)

end
