(* ===== verification/RangeTopo.thy ===== *)
theory RangeTopo
  imports Monitor
begin

text \<open>
  The topology page of a table's ranges, \<open>cluster/rangetopu.js\<close>: loading the range tree, the lines
  between its nodes, the details of a replica sent from controller to controller, and the
  operations on ranges and replicas. Angular's \<open>$scope\<close> variables are kept in \<open>scope\<close>; the
  listeners of a broadcast run one after the other, an exception of one does not stop the next.
\<close>

section \<open>Loading and drawing\<close>

definition range_ready :: "int \<Rightarrow> int \<Rightarrow> prog" where
  "range_ready tz now = datePairs tz now ''start'' ''end'' None None"

definition getRangeAllUrl :: "jsval \<Rightarrow> jsval \<Rightarrow> jsval \<Rightarrow> jsval \<Rightarrow> jsval \<Rightarrow> string" where
  "getRangeAllUrl dbName tableName clusterId rangeId source =
     (if js_eq source (JStr ''range'')
      then ''/range/getRangeTopoByRange?rangeId='' @ js_str rangeId @ ''&clusterId='' @ js_str clusterId
      else if js_eq source (JStr ''node'')
      then ''/node/getRangeTopoByNode?nodeId='' @ js_str rangeId @ ''&clusterId='' @ js_str clusterId
      else ''/range/getRangeByBbTable?dbName='' @ js_str dbName @ ''&tableName='' @ js_str tableName @
        ''&clusterId='' @ js_str clusterId)"

definition rangeTopo_init :: prog where
  "rangeTopo_init =
     Ask (QVal ''dbName'') (\<lambda>dbName. Ask (QVal ''tableName'') (\<lambda>tableName. Ask (QVal ''clusterId'') (\<lambda>clusterId.
     Ask (QVal ''rangeId'') (\<lambda>rangeId. Ask (QVal ''source'') (\<lambda>source.
     Ajax (http_get (getRangeAllUrl dbName tableName clusterId rangeId source))
       (\<lambda>data. if_code0 data (read_prop data ''data'' (\<lambda>rangeTree. Do (ScopeSet ''rangeTree'' rangeTree)
          (Do (ScopeSet ''rangeTreeArr'' (case rangeTree of JArr rs \<Rightarrow> JArr rs | v \<Rightarrow> JArr [v])) Done))) Done)
       (\<lambda>_. Done) Done)))))"

text \<open>The nested list of the page, and the lines \<open>drawLine\<close> connects: from each item to its parent.\<close>

datatype topo = Topo (topo_ip: string) (topo_items: "topo list")

fun drawLine :: "topo \<Rightarrow> (string \<times> string) list" where
  "drawLine (Topo ip items) = concat (map (\<lambda>item. (topo_ip item, ip) # drawLine item) items)"

fun topo_nodes :: "topo \<Rightarrow> string list" where
  "topo_nodes (Topo ip items) = ip # concat (map topo_nodes items)"

section \<open>Details of a replica\<close>

definition jsplumbmore_subChangeP :: "jsval \<Rightarrow> jsval \<Rightarrow> prog" where
  "jsplumbmore_subChangeP ipport rangeId =
     Do (ScopeSet ''more.ipport'' ipport) (Do (ScopeSet ''more.rangeId'' rangeId) Done)"

text \<open>\<open>Object.keys(v)\<close>; \<open>None\<close> is its \<open>TypeError\<close>.\<close>

fun obj_keys :: "jsval \<Rightarrow> string list option" where
  "obj_keys JUndef = None"
| "obj_keys JNull = None"
| "obj_keys (JObj fs) = Some (map fst fs)"
| "obj_keys (JArr xs) = Some (map show_nat [0..<length xs])"
| "obj_keys (JStr cs) = Some (map show_nat [0..<length cs])"
| "obj_keys v = Some []"

text \<open>The loop over the keys, which adds to the object it reads from.\<close>

fun add_subkeys :: "string list \<Rightarrow> jsval \<Rightarrow> (jsval \<Rightarrow> prog) \<Rightarrow> prog" where
  "add_subkeys [] detail k = k detail"
| "add_subkeys (item # items) detail k = read_prop detail item (\<lambda>v. case obj_keys v of
     None \<Rightarrow> Do (ScopeSet ''detail'' detail) (Throw (TypeError ''keys''))
   | Some ks \<Rightarrow> add_subkeys items (set_prop detail (item @ ''subkeys'') (JArr (map JStr ks))) k)"

definition subdetail_subChangeP :: "jsval \<Rightarrow> jsval \<Rightarrow> prog" where
  "subdetail_subChangeP rangeId peerId =
     Ask (QVal ''dbName'') (\<lambda>dbName. Ask (QVal ''tableName'') (\<lambda>tableName. Ask (QVal ''clusterId'') (\<lambda>clusterId.
     Ajax (http_get (''/range/getRangeInfoById?rangeId='' @ js_str rangeId @ ''&peerId='' @ js_str peerId @
         ''&dbName='' @ js_str dbName @ ''&tableName='' @ js_str tableName @ ''&clusterId='' @ js_str clusterId))
       (\<lambda>data. read_prop data ''code'' (\<lambda>c. if js_seq c (JNum 200)
          then read_prop data ''attach'' (\<lambda>a. Do (ScopeSet ''detail'' a)
            (case obj_keys a of
               None \<Rightarrow> Throw (TypeError ''keys'')
             | Some ks \<Rightarrow> Do (ScopeSet ''detailkeys'' (JArr (map JStr ks)))
                 (add_subkeys ks a (\<lambda>d. Do (ScopeSet ''detail'' d) Done))))
          else Done))
       (\<lambda>_. Done) Done)))"

definition monitor_subChangeP :: "jsval \<Rightarrow> prog" where
  "monitor_subChangeP rangeId = Do (ScopeSet ''monitor.rangeId'' rangeId)
     (range_load_monitor_data rangeId ''defaultOptions'')"

definition range_queryFilter :: prog where
  "range_queryFilter = Ask (QScope ''monitor.rangeId'') (\<lambda>rangeId.
     range_load_monitor_data rangeId ''setOptions'')"

text \<open>The parent controller keeps the event's data and broadcasts them.\<close>

definition subChange :: "jsval \<Rightarrow> jsval \<Rightarrow> jsval \<Rightarrow> prog" where
  "subChange ipport rangeId peerId =
     Do (ScopeSet ''ipport'' ipport) (Do (ScopeSet ''rangeId'' rangeId) (Do (ScopeSet ''peerId'' peerId)
     (after (jsplumbmore_subChangeP ipport rangeId)
       (after (subdetail_subChangeP rangeId peerId) (monitor_subChangeP rangeId)))))"

definition showRangeInfo :: "jsval \<Rightarrow> jsval \<Rightarrow> prog" where
  "showRangeInfo rangeLeaderRoot type = Do (ModalShow ''subDetail'')
     (if js_eq type (JStr ''leader'')
      then read_prop rangeLeaderRoot ''leader'' (\<lambda>leader. read_prop leader ''node'' (\<lambda>node.
        read_prop node ''server_addr'' (\<lambda>ipport. read_prop node ''id'' (\<lambda>peerId. read_prop leader ''id'' (\<lambda>rangeId.
        subChange ipport rangeId peerId)))))
      else read_prop rangeLeaderRoot ''node'' (\<lambda>node.
        read_prop node ''server_addr'' (\<lambda>ipport. read_prop node ''id'' (\<lambda>peerId. read_prop rangeLeaderRoot ''id'' (\<lambda>rangeId.
        subChange ipport rangeId peerId)))))"

section \<open>Operations\<close>

definition splitInstance :: "jsval \<Rightarrow> prog" where
  "splitInstance rangeLeaderRoot =
     Ask (QVal ''clusterId'') (\<lambda>clusterId. Ask (QVal ''dbName'') (\<lambda>dbName. Ask (QVal ''tableName'') (\<lambda>tableName.
     ask_confirm ''split?'' [] ''warning''
       (read_prop rangeLeaderRoot ''leader'' (\<lambda>leader. read_prop leader ''id'' (\<lambda>rangeId.
        Ajax (form_post ''/range/split'' [(''clusterId'', clusterId), (''rangeId'', rangeId),
            (''dbName'', dbName), (''tableName'', tableName)])
          (\<lambda>data. read_prop data ''attach'' (\<lambda>a. read_prop a ''code'' (\<lambda>c. read_prop a ''message'' (\<lambda>m.
             if js_seq c (JNum 0) then swal3 ''split'' m ''success'' Done
             else swal3 ''split failed'' m ''error'' Done))))
          (show_failure ''split failed'') Done)))
       Done)))"

text \<open>The id of \<open>x.k\<close>.\<close>

definition sub_id :: "jsval \<Rightarrow> string \<Rightarrow> (jsval \<Rightarrow> prog) \<Rightarrow> prog" where
  "sub_id x k f = read_prop x k (\<lambda>y. read_prop y ''id'' f)"

definition moveInstance :: "jsval \<Rightarrow> prog" where
  "moveInstance rangeLeaderRoot = Ask (QVal ''clusterId'') (\<lambda>clusterId.
     ask_confirm ''delete replica?'' [] ''warning''
       (sub_id rangeLeaderRoot ''range'' (\<lambda>rangeId. sub_id rangeLeaderRoot ''leader'' (\<lambda>peerId.
        Ajax (form_post ''/range/peerDel'' [(''clusterId'', clusterId), (''rangeId'', rangeId), (''peerId'', peerId)])
          (on_reply (swal3 ''deleted'' (JStr ''deleted'') ''success'' Done) ''delete failed'')
          (show_failure ''delete failed'') Done)))
       Done)"

definition addInstance :: "jsval \<Rightarrow> prog" where
  "addInstance rangeLeaderRoot = Ask (QVal ''clusterId'') (\<lambda>clusterId.
     ask_confirm ''add replica?'' [] ''warning''
       (sub_id rangeLeaderRoot ''range'' (\<lambda>rangeId.
        Ajax (form_post ''/range/peerAdd'' [(''clusterId'', clusterId), (''rangeId'', rangeId)])
          (on_reply (swal3 ''added'' (JStr ''added'') ''success'' (Do Reload Done)) ''add failed'')
          (show_failure ''add failed'') Done))
       Done)"

definition offlineRange :: "jsval \<Rightarrow> prog" where
  "offlineRange rangeLeaderRoot =
     Ask (QVal ''clusterId'') (\<lambda>clusterId. Ask (QVal ''dbName'') (\<lambda>dbName. Ask (QVal ''tableName'') (\<lambda>tableName.
     ask_confirm ''take the range offline?'' [] ''warning''
       (sub_id rangeLeaderRoot ''range'' (\<lambda>rangeId. sub_id rangeLeaderRoot ''leader'' (\<lambda>peerId.
        Ajax (form_post ''/range/offlineRange'' [(''clusterId'', clusterId), (''dbName'', dbName),
            (''tableName'', tableName), (''rangeId'', rangeId), (''peerId'', peerId)])
          (on_reply (swal3 ''offline'' (JStr ''offline'') ''success'' (Do Reload Done)) ''offline failed'')
          (call_admin ''offline failed'') Done)))
       Done)))"

text \<open>The three operations on a follower replica differ in their address and their texts.\<close>

definition replica_action :: "string \<Rightarrow> string \<Rightarrow> string \<Rightarrow> string \<Rightarrow> jsval \<Rightarrow> jsval \<Rightarrow> prog" where
  "replica_action title url done_text fail_text rangeLeaderRoot rangeId = Ask (QVal ''clusterId'') (\<lambda>clusterId.
     ask_confirm title [] ''warning''
       (read_prop rangeLeaderRoot ''id'' (\<lambda>peerId.
        Ajax (form_post url [(''clusterId'', clusterId), (''rangeId'', rangeId), (''peerId'', peerId)])
          (on_reply (swal3 done_text (JStr done_text) ''success'' Done) fail_text)
          (show_failure fail_text) Done))
       Done)"

definition changeLeaderInstance :: "jsval \<Rightarrow> jsval \<Rightarrow> prog" where
  "changeLeaderInstance = replica_action ''make leader?'' ''/range/changeLeader'' ''switched'' ''switch failed''"

definition moveReplicateInstance :: "jsval \<Rightarrow> jsval \<Rightarrow> prog" where
  "moveReplicateInstance = replica_action ''delete replica?'' ''/range/peerDel'' ''deleted'' ''delete failed''"

definition transferInstance :: "jsval \<Rightarrow> jsval \<Rightarrow> prog" where
  "transferInstance = replica_action ''transfer?'' ''/range/transfer'' ''transferred'' ''transfer failed''"

section \<open>Confirmation\<close>

definition range_changes :: "string list" where
  "range_changes = [''/range/split'', ''/range/peerDel'', ''/range/peerAdd'', ''/range/offlineRange'',
     ''/range/changeLeader'', ''/range/transfer'']"

definition range_root_handlers :: "jsval \<Rightarrow> prog list" where
  "range_root_handlers r = [splitInstance r, moveInstance r, addInstance r, offlineRange r,
     showRangeInfo r (JStr ''leader''), showRangeInfo r (JStr ''replica'')]"

definition range_handlers :: "prog set" where
  "range_handlers = {rangeTopo_init, range_queryFilter} \<union> {p. \<exists>r. p \<in> set (range_root_handlers r)} \<union>
     {p. \<exists>r i. p = changeLeaderInstance r i \<or> p = moveReplicateInstance r i \<or> p = transferInstance r i}"

lemma disciplined_monitor [disc_simps]:
  "(\<And>f. disciplined M (k f) n) \<Longrightarrow> disciplined M (with_charts k) n"
  "disciplined M (new_charts cs p) n = disciplined M p n"
  "disciplined M (show_all cs m p) n = disciplined M p n"
  "disciplined M (hide_all cs p) n = disciplined M p n"
  "(\<And>s e. disciplined M (k2 s e) n) \<Longrightarrow> disciplined M (query_span type k2) n"
  "(\<And>v. disciplined M (k3 v) n) \<Longrightarrow> disciplined M (named_series d key g k3) n"
  by (simp_all add: with_charts_def Let_def new_charts_def show_all_def hide_all_def query_span_def
      named_series_def disc_simps)

lemma disciplined_range_load [disc_simps]:
  "disciplined (to_paths range_changes) (range_load_monitor_data r type) 0"
  by (simp add: range_load_monitor_data_def fill_range_def range_changes_def disc_simps)

lemma disciplined_add_subkeys [disc_simps]:
  "(\<And>d. disciplined M (k d) n) \<Longrightarrow> disciplined M (add_subkeys ks d k) n"
  by (induction ks d k rule: add_subkeys.induct) (auto simp: disc_simps split: option.split)

lemma disciplined_subChange [disc_simps]: "disciplined (to_paths range_changes) (subChange i r p) 0"
  unfolding subChange_def
  by (auto simp: jsplumbmore_subChangeP_def subdetail_subChangeP_def monitor_subChangeP_def disc_simps
      range_changes_def [symmetric] split: option.split intro!: disciplined_after)
     (simp_all add: range_changes_def)

lemma disciplined_sub_id [disc_simps]:
  "(\<And>x. disciplined M (f x) n) \<Longrightarrow> disciplined M (sub_id v k f) n"
  by (simp add: sub_id_def disc_simps)

lemma range_root_disciplined:
  "p \<in> set (range_root_handlers r) \<Longrightarrow> disciplined (to_paths range_changes) p 0"
  by (auto simp: range_root_handlers_def splitInstance_def moveInstance_def addInstance_def
      offlineRange_def showRangeInfo_def disc_simps)

lemma replica_action_disciplined: "disciplined M (replica_action t u d f r i) 0"
  by (simp add: replica_action_def disc_simps)

lemma rangeTopo_init_disciplined: "disciplined (to_paths range_changes) rangeTopo_init 0"
  by (simp add: rangeTopo_init_def getRangeAllUrl_def range_changes_def disc_simps)

interpretation range_page: confirmed_page range_handlers "to_paths range_changes"
  by unfold_locales
     (auto simp: range_handlers_def rangeTopo_init_disciplined range_queryFilter_def
        changeLeaderInstance_def moveReplicateInstance_def transferInstance_def
        replica_action_disciplined disciplined_range_load dest: range_root_disciplined)

section \<open>Properties\<close>

lemma drawLine_sources: "map fst (drawLine t) = tl (topo_nodes t)"
proof (induction t)
  case (Topo ip items)
  have "map fst ((topo_ip i, ip) # drawLine i) = topo_nodes i" if "i \<in> set items" for i
    using Topo.IH [OF that] by (cases i) simp
  then show ?case by (simp add: map_concat comp_def cong: map_cong)
qed

text \<open>
  The topology view draws one line per item below the root of a tree, in the order of the page:
  the items the lines start from are the items of the tree without the root. Each line ends at an
  item of the tree.
\<close>

theorem draw_line_per_item:
  "map fst (drawLine t) = tl (topo_nodes t) \<and> length (drawLine t) + 1 = length (topo_nodes t) \<and>
   set (map snd (drawLine t)) \<subseteq> set (topo_nodes t)"
proof -
  have "length (drawLine t) = length (tl (topo_nodes t))"
    using drawLine_sources [of t] by (metis length_map)
  moreover have "topo_nodes t \<noteq> []" by (cases t) simp
  moreover have "set (map snd (drawLine t)) \<subseteq> set (topo_nodes t)"
    by (induction t) fastforce
  ultimately show ?thesis using drawLine_sources [of t] by simp
qed

text \<open>
  Splitting a range: the request names the leader's id and is sent once confirmed; but a reply in
  the server's format (\<open>code\<close>, \<open>msg\<close>, \<open>data\<close>) makes the callback fail with a \<open>TypeError\<close>, since it
  reads \<open>attach\<close>: no result is shown and the dialog stays open for another confirmation.
\<close>

theorem split_reply_not_shown:
  assumes "blocked s = None" and "root = JObj [(''leader'', JObj [(''id'', i)])]"
    and "t = run s [Click (splitInstance root), Confirm x]"
    and "u = run s [Click (splitInstance root), Confirm x,
       Reply (length (pend s)) True (JObj [(''code'', JNum c), (''msg'', m), (''data'', d)])]"
  shows "(\<exists>r. sent t = sent s @ [r] \<and> rq_url r = ''/range/split'' \<and>
            get_prop (rq_data r) ''rangeId'' = Some i) \<and>
    dlg u = dlg t \<and> dlg u \<noteq> None \<and> errs u = errs s @ [TypeError ''code'']"
  using assms(1)
  by (simp add: assms(2-4) splitInstance_def ask_confirm_def read_prop_def do_effect_def)

text \<open>
  C32. The three operations on a follower replica send, once confirmed, one request with the page's
  cluster, the range they are called for and the id of that replica, each to its own address.
\<close>

theorem replica_request:
  assumes "blocked s = None" and "root = JObj ((''id'', peer) # fs)"
    and "(handler, url) \<in> set [(changeLeaderInstance root rng, ''/range/changeLeader''),
       (moveReplicateInstance root rng, ''/range/peerDel''), (transferInstance root rng, ''/range/transfer'')]"
  shows "sent (run s [Click handler, Confirm x]) = sent s @
    [form_post url [(''clusterId'', answer (QVal ''clusterId'') s), (''rangeId'', rng), (''peerId'', peer)]]"
proof -
  have "sent (run s [Click (replica_action t url d f root rng), Confirm x]) = sent s @
    [form_post url [(''clusterId'', answer (QVal ''clusterId'') s), (''rangeId'', rng), (''peerId'', peer)]]"
    for t url d f
    using assms(1) by (simp add: assms(2) replica_action_def ask_confirm_def read_prop_def)
  then show ?thesis
    using assms(3) unfolding list.set insert_iff empty_iff prod.inject
      changeLeaderInstance_def moveReplicateInstance_def transferInstance_def
    by (elim disjE conjE FalseE) (simp_all only:)
qed

theorem split_reply_not_shown_witness:
  "errs (run empty_sys [Click (splitInstance (JObj [(''leader'', JObj [(''id'', JNum 3)])])), Confirm [],
     Reply 0 True (JObj [(''code'', JNum 0), (''msg'', JStr ''ok''), (''data'', JNull)])]) = [TypeError ''code'']"
  using split_reply_not_shown [OF _ refl refl refl, of empty_sys "JNum 3" "[]" 0 "JStr ''ok''" JNull]
  by (simp del: run_simps add: empty_sys_def)

theorem replica_request_witness:
  "sent (run empty_sys [Click (transferInstance (JObj [(''id'', JNum 8)]) (JNum 2)), Confirm []]) =
     [form_post ''/range/transfer'' [(''clusterId'', JUndef), (''rangeId'', JNum 2), (''peerId'', JNum 8)]]"
  using replica_request [OF _ refl, of empty_sys "transferInstance (JObj [(''id'', JNum 8)]) (JNum 2)"
      "''/range/transfer''" "JNum 8" "[]" "JNum 2" "[]"]
  by (simp del: run_simps add: empty_sys_def)

end
