(* ===== verification/BootTable.thy ===== *)
theory BootTable
  imports Handlers
begin

text \<open>
  The table widget of the console: bootstrap-table 1.9.0, in the copy the console ships
  (\<open>plugins/bootstrap-table/bootstrap-table.min.js\<close>). The state of a table is a record: the row
  objects in a store, the two arrays \<open>this.data\<close> and \<open>this.options.data\<close> of references into it
  (with the flag \<open>b_same\<close>: whether they are one array, which decides what an update in place
  reaches), the options the operations read, and what is on the screen: the rendered rows, their
  check boxes and the pager. An operation returns the exception it ends with, if any, and the
  state it leaves. Column and row functions given by a page (formatters, sorters, request and
  response handlers) are fields of the state; \<open>Array.prototype.sort\<close> and \<open>localeCompare\<close>, which
  the language leaves to the implementation, are an environment every operation takes.
  Left out: markup and layout, the card and detail views, the footer, multi-row headers, the
  string form of \<open>pageList\<close> and the events of the header's layout.
\<close>

section \<open>Helper functions\<close>

text \<open>\<open>sprintf\<close>: the empty string as soon as an argument is missing or undefined.\<close>

fun sprintf_acc :: "string \<Rightarrow> string option list \<Rightarrow> bool \<times> string" where
  "sprintf_acc [] args = (True, [])"
| "sprintf_acc [c] args = (True, [c])"
| "sprintf_acc (c # d # cs) args =
     (if c = CHR ''%'' \<and> d = CHR ''s''
      then (case args of
          [] \<Rightarrow> (False, snd (sprintf_acc cs []))
        | None # as \<Rightarrow> (False, snd (sprintf_acc cs as))
        | Some a # as \<Rightarrow> (case sprintf_acc cs as of (ok, s) \<Rightarrow> (ok, a @ s)))
      else (case sprintf_acc (d # cs) args of (ok, s) \<Rightarrow> (ok, c # s)))"

definition sprintf :: "string \<Rightarrow> string option list \<Rightarrow> string" where
  "sprintf f args = (case sprintf_acc f args of (ok, s) \<Rightarrow> if ok then s else [])"

definition replace_char :: "char \<Rightarrow> string \<Rightarrow> string \<Rightarrow> string" where
  "replace_char c r s = concat (map (\<lambda>x. if x = c then r else [x]) s)"

definition escapeHTML :: "string \<Rightarrow> string" where
  "escapeHTML s = replace_char (CHR 0x27) ''&#039;'' (replace_char (CHR 0x22) ''&quot;''
     (replace_char (CHR ''>'') ''&gt;'' (replace_char (CHR ''<'') ''&lt;''
       (replace_char (CHR ''&'') ''&amp;'' s))))"

definition compareObjects ::
    "(string \<times> jsval) list \<Rightarrow> (string \<times> jsval) list \<Rightarrow> bool \<Rightarrow> bool" where
  "compareObjects a b same_length \<longleftrightarrow>
     \<not> (same_length \<and> length a \<noteq> length b) \<and>
     list_all (\<lambda>(k, v). case map_of b k of None \<Rightarrow> True | Some w \<Rightarrow> js_seq v w) a"

text \<open>\<open>getItemField\<close>: an own property of that name, otherwise a path of properties.\<close>

fun walk_path :: "jsval \<Rightarrow> string list \<Rightarrow> jsval option" where
  "walk_path v [] = Some v"
| "walk_path v (k # ks) = (case get_prop v k of None \<Rightarrow> None | Some w \<Rightarrow> walk_path w ks)"

definition getItemField :: "jsval \<Rightarrow> string \<Rightarrow> jsval option" where
  "getItemField row f =
     (if has_prop row f then get_prop row f else walk_path row (split_at (CHR ''.'') f))"

definition prop_of :: "jsval \<Rightarrow> string \<Rightarrow> jsval" where
  "prop_of v k = (case get_prop v k of None \<Rightarrow> JUndef | Some x \<Rightarrow> x)"

text \<open>jQuery's \<open>isNumeric\<close> and \<open>toLowerCase\<close> on 8-bit strings.\<close>

fun isNumeric :: "jsval \<Rightarrow> bool" where
  "isNumeric (JNum n) = True"
| "isNumeric (JStr s) = (trim s \<noteq> [] \<and> str_num s \<noteq> None)"
| "isNumeric v = False"

definition lower_char :: "char \<Rightarrow> char" where
  "lower_char c = (let n = of_char c :: nat in
     if 65 \<le> n \<and> n \<le> 90 \<or> 192 \<le> n \<and> n \<le> 222 \<and> n \<noteq> 215 then char_of (n + 32) else c)"

definition to_lower :: "string \<Rightarrow> string" where
  "to_lower s = map lower_char s"

section \<open>State\<close>

record column =
  c_field :: string
  c_checkbox :: bool
  c_radio :: bool
  c_checkboxEnabled :: bool
  c_visible :: bool
  c_sortable :: bool
  c_order :: string
  c_sortName :: string
  c_sorter :: "(jsval \<Rightarrow> jsval \<Rightarrow> int option) option"
  c_searchable :: bool
  c_searchFormatter :: bool
  c_formatter :: "(jsval \<Rightarrow> jsval \<Rightarrow> int \<Rightarrow> jsval) option"

datatype page_size = AllRows | PageOf int

text \<open>The pager on the screen; \<open>pg_first_off\<close> is the class \<open>disabled\<close> of the first two buttons.\<close>

record pager_dom =
  pg_shown :: bool
  pg_sizes :: "page_size list"
  pg_list_shown :: bool
  pg_numbers :: "int list"
  pg_buttons_shown :: bool
  pg_first_off :: bool
  pg_last_off :: bool

record check_box =
  cb_index :: int
  cb_enabled :: bool
  cb_checked :: bool

record tbl =
  b_heap :: "nat \<Rightarrow> jsval"
  b_next :: nat
  b_data :: "nat list"
  b_odata :: "nat list"
  b_same :: bool
  b_columns :: "column list"
  b_stateField :: "string option"
  b_singleSelect :: bool
  b_maintainSelected :: bool
  b_pagination :: bool
  b_server :: bool
  b_totalRows :: "int option"
  b_totalPages :: int
  b_ototalPages :: int
  b_pageNumber :: int
  b_pageSize :: page_size
  b_pageList :: "page_size list"
  b_smartDisplay :: bool
  b_pageFrom :: "int option"
  b_pageTo :: "int option"
  b_sortName :: "string option"
  b_sortOrder :: string
  b_orders :: "string \<Rightarrow> string"
  b_silentSort :: bool
  b_search :: bool
  b_searchText :: "string option"
  b_strictSearch :: bool
  b_filterColumns :: "(string \<times> jsval) list"
  b_uniqueId :: string
  b_url :: string
  b_queryParams :: "jsval \<Rightarrow> jsval"
  b_responseHandler :: "jsval \<Rightarrow> jsval"
  b_body :: "(int \<times> jsval list) list"
  b_items :: "check_box list"
  b_selectAll :: bool
  b_pager :: pager_dom
  b_loading :: bool
  b_reqs :: "(bool \<times> jsval) list"
  b_events :: "string list"

record env =
  js_sort :: "(nat \<Rightarrow> nat \<Rightarrow> int) \<Rightarrow> nat list \<Rightarrow> nat list"
  localeCompare :: "string \<Rightarrow> string \<Rightarrow> int"

type_synonym act = "tbl \<Rightarrow> js_error option \<times> tbl"

definition ok :: act where
  "ok t = (None, t)"

definition and_then :: "act \<Rightarrow> act \<Rightarrow> act" where
  "and_then f g t = (case f t of (None, u) \<Rightarrow> g u | (Some e, u) \<Rightarrow> (Some e, u))"

definition trigger :: "string \<Rightarrow> act" where
  "trigger e t = (None, t\<lparr>b_events := b_events t @ [e]\<rparr>)"

text \<open>The property that holds a row's selection; without a check-box column its name is \<open>undefined\<close>.\<close>

definition state_key :: "tbl \<Rightarrow> string" where
  "state_key t = (case b_stateField t of None \<Rightarrow> ''undefined'' | Some k \<Rightarrow> k)"

definition row_state :: "tbl \<Rightarrow> nat \<Rightarrow> jsval" where
  "row_state t a = prop_of (b_heap t a) (state_key t)"

definition set_states :: "nat list \<Rightarrow> jsval \<Rightarrow> tbl \<Rightarrow> tbl" where
  "set_states as v t = t\<lparr>b_heap := (\<lambda>a. if a \<in> set as then set_prop (b_heap t a) (state_key t) v
     else b_heap t a)\<rparr>"

text \<open>New row objects, and the updates in place of the two arrays.\<close>

definition alloc :: "jsval list \<Rightarrow> tbl \<Rightarrow> nat list \<times> tbl" where
  "alloc rs t = ([b_next t..<b_next t + length rs],
     t\<lparr>b_heap := (\<lambda>a. if b_next t \<le> a \<and> a < b_next t + length rs then rs ! (a - b_next t)
          else b_heap t a),
       b_next := b_next t + length rs\<rparr>)"

definition set_data :: "nat list \<Rightarrow> tbl \<Rightarrow> tbl" where
  "set_data ds t = t\<lparr>b_data := ds, b_odata := (if b_same t then ds else b_odata t)\<rparr>"

definition set_odata :: "nat list \<Rightarrow> tbl \<Rightarrow> tbl" where
  "set_odata ds t = t\<lparr>b_odata := ds, b_data := (if b_same t then ds else b_data t)\<rparr>"

section \<open>Columns\<close>

fun getFieldIndex :: "column list \<Rightarrow> string \<Rightarrow> nat option" where
  "getFieldIndex [] f = None"
| "getFieldIndex (c # cs) f = (if c_field c = f then Some 0 else map_option Suc (getFieldIndex cs f))"

definition getVisibleFields :: "tbl \<Rightarrow> string list" where
  "getVisibleFields t = filter (\<lambda>f. case getFieldIndex (b_columns t) f of
       None \<Rightarrow> False | Some i \<Rightarrow> c_visible (b_columns t ! i)) (map c_field (b_columns t))"

definition getHiddenColumns :: "tbl \<Rightarrow> column list" where
  "getHiddenColumns t = filter (\<lambda>c. \<not> c_visible c) (b_columns t)"

text \<open>
  What \<open>initHeader\<close> does to the state: the last visible check-box or radio column holds the
  selection, a radio column makes the table single-select, the sort orders start anew.
\<close>

definition initHeader :: "tbl \<Rightarrow> tbl" where
  "initHeader t =
     (let sel = filter (\<lambda>c. c_visible c \<and> (c_checkbox c \<or> c_radio c)) (b_columns t)
      in t\<lparr>b_stateField := (if sel = [] then None else Some (c_field (last sel))),
           b_singleSelect := (b_singleSelect t \<or> list_ex c_radio sel),
           b_orders := (\<lambda>f. case getFieldIndex (b_columns t) f of
              None \<Rightarrow> [] | Some i \<Rightarrow> c_order (b_columns t ! i)),
           b_selectAll := False\<rparr>)"

section \<open>Data, sorting, searching\<close>

definition searched :: "tbl \<Rightarrow> bool" where
  "searched t \<longleftrightarrow> (b_searchText t \<noteq> None \<and> b_searchText t \<noteq> Some []) \<or> b_filterColumns t \<noteq> []"

text \<open>\<open>getData()\<close>, and \<open>getData(true)\<close> with JavaScript's \<open>slice\<close>.\<close>

definition getData :: "tbl \<Rightarrow> nat list" where
  "getData t = (if searched t then b_data t else b_odata t)"

definition slice_index :: "nat \<Rightarrow> int option \<Rightarrow> nat" where
  "slice_index n i = (case i of None \<Rightarrow> 0 | Some k \<Rightarrow> if k < 0 then nat (int n + k) else min n (nat k))"

definition js_slice :: "'a list \<Rightarrow> int option \<Rightarrow> int option \<Rightarrow> 'a list" where
  "js_slice xs i j = drop (slice_index (length xs) i) (take (slice_index (length xs) j) xs)"

definition getPageData :: "tbl \<Rightarrow> nat list" where
  "getPageData t = js_slice (getData t) (map_option (\<lambda>i. i - 1) (b_pageFrom t)) (b_pageTo t)"

text \<open>
  The comparison of \<open>initSort\<close> for the sort direction \<open>d\<close>: a page's own sorter, if it gives a
  value; numbers as numbers (two equal ones compare as greater); other values as text.
\<close>

definition cell_key :: "jsval \<Rightarrow> jsval" where
  "cell_key v = (if nullish v then JStr [] else v)"

definition compare_cells ::
    "env \<Rightarrow> (jsval \<Rightarrow> jsval \<Rightarrow> int option) option \<Rightarrow> int \<Rightarrow> jsval \<Rightarrow> jsval \<Rightarrow> int" where
  "compare_cells E sorter d i j =
     (case (case sorter of None \<Rightarrow> None | Some f \<Rightarrow> f i j) of
        Some k \<Rightarrow> d * k
      | None \<Rightarrow>
          (let i = cell_key i; j = cell_key j
           in if isNumeric i \<and> isNumeric j
              then (if the (to_num j) > the (to_num i) then - d else d)
              else if js_seq i j then 0
              else if localeCompare E (js_str i) (js_str j) = -1 then - d else d))"

definition initSort :: "env \<Rightarrow> act" where
  "initSort E t =
     (case b_sortName t of
        None \<Rightarrow> (None, t)
      | Some name \<Rightarrow>
          (case getFieldIndex (b_columns t) name of
             None \<Rightarrow> (None, t)
           | Some e \<Rightarrow>
               (let col = b_columns t ! e;
                    key = (if c_sortName col = [] then name else c_sortName col);
                    d = (if b_sortOrder t = ''desc'' then -1 else 1);
                    field = (\<lambda>a. getItemField (b_heap t a) key)
                in if 2 \<le> length (b_data t) \<and> (\<exists>a \<in> set (b_data t). field a = None)
                   then (Some (TypeError key), t)
                   else (None, set_data (js_sort E (\<lambda>a b. compare_cells E (c_sorter col) d
                            (the (field a)) (the (field b))) (b_data t)) t))))"

text \<open>\<open>initData(a, mode)\<close>, with \<open>None\<close> for a missing array.\<close>

definition initData :: "env \<Rightarrow> nat list option \<Rightarrow> string \<Rightarrow> act" where
  "initData E a mode t =
     (let u = (case (mode, a) of
          (''append'', Some ds) \<Rightarrow> t\<lparr>b_data := b_data t @ ds, b_odata := b_odata t @ ds, b_same := False\<rparr>
        | (''prepend'', Some ds) \<Rightarrow> t\<lparr>b_data := ds @ b_data t, b_odata := ds @ b_odata t, b_same := False\<rparr>
        | (_, Some ds) \<Rightarrow> t\<lparr>b_data := ds, b_odata := ds, b_same := True\<rparr>
        | (_, None) \<Rightarrow> t\<lparr>b_data := b_odata t, b_same := True\<rparr>)
      in if b_server t then (None, u) else initSort E u)"

fun text_or_number :: "jsval \<Rightarrow> bool" where
  "text_or_number (JStr s) = True"
| "text_or_number (JNum n) = True"
| "text_or_number JNaN = True"
| "text_or_number v = False"

definition cell_matches :: "tbl \<Rightarrow> string \<Rightarrow> int \<Rightarrow> jsval \<Rightarrow> string \<Rightarrow> jsval \<Rightarrow> bool" where
  "cell_matches t c i row g v =
     (case getFieldIndex (b_columns t) g of
        None \<Rightarrow> False
      | Some k \<Rightarrow>
          (let col = b_columns t ! k;
               w = (case c_formatter col of
                      Some f \<Rightarrow> if c_searchFormatter col then f v row i else v | None \<Rightarrow> v);
               s = to_lower (js_str w)
           in c_searchable col \<and> text_or_number w \<and>
              (if b_strictSearch t then s = c else index_of c s \<noteq> None)))"

fun row_matches :: "tbl \<Rightarrow> string \<Rightarrow> int \<Rightarrow> jsval \<Rightarrow> bool" where
  "row_matches t c i (JObj fs) = list_ex (\<lambda>(g, v). cell_matches t c i (JObj fs) g v) fs"
| "row_matches t c i v = False"

definition passes_filter :: "tbl \<Rightarrow> nat \<Rightarrow> bool" where
  "passes_filter t a \<longleftrightarrow> list_all (\<lambda>(k, v). js_seq (prop_of (b_heap t a) k) v) (b_filterColumns t)"

definition search_rows :: "tbl \<Rightarrow> string \<Rightarrow> nat list \<Rightarrow> nat list" where
  "search_rows t c as = map snd (filter (\<lambda>(i, a). row_matches t c (int i) (b_heap t a)) (enumerate 0 as))"

definition initSearch :: "tbl \<Rightarrow> tbl" where
  "initSearch t =
     (if b_server t then t
      else let c = (case b_searchText t of None \<Rightarrow> [] | Some s \<Rightarrow> to_lower s);
               kept = (if b_filterColumns t = [] then b_odata t
                       else filter (passes_filter t) (b_odata t))
           in t\<lparr>b_data := (if c = [] then kept else search_rows t c kept),
                b_same := (b_filterColumns t = [] \<and> c = [])\<rparr>)"

section \<open>The pager\<close>

text \<open>\<open>~~(x / y)\<close>: truncation, then the conversion to a 32-bit integer; a division by zero gives 0.\<close>

definition to_int32 :: "int \<Rightarrow> int" where
  "to_int32 x = (x + 2 ^ 31) mod 2 ^ 32 - 2 ^ 31"

definition trunc_div :: "int \<Rightarrow> int \<Rightarrow> int" where
  "trunc_div x y = (if y = 0 then 0 else to_int32 (sgn x * sgn y * (\<bar>x\<bar> div \<bar>y\<bar>)))"

text \<open>The first and the last page number on the screen.\<close>

definition page_window :: "int \<Rightarrow> int \<Rightarrow> int \<times> int" where
  "page_window pages page =
     (if pages < 5 then (1, pages)
      else let from = page - 2; upto = from + 4;
               (from, upto) = (if from < 1 then (1, 5) else (from, upto))
           in if upto > pages then (pages - 4, pages) else (from, upto))"

definition size_listed :: "tbl \<Rightarrow> int option \<Rightarrow> nat \<Rightarrow> bool" where
  "size_listed t n i \<longleftrightarrow> \<not> b_smartDisplay t \<or> i = 0 \<or>
     (case (b_pageList t ! (i - 1), n) of (PageOf k, Some n) \<Rightarrow> k \<le> n | _ \<Rightarrow> False)"

definition list_hidden :: "tbl \<Rightarrow> int option \<Rightarrow> bool" where
  "list_hidden t n \<longleftrightarrow> length (b_pageList t) < 2 \<or>
     (case (b_pageList t ! 0, n) of (PageOf k, Some n) \<Rightarrow> n \<le> k | _ \<Rightarrow> False)"

definition draw_pager :: "tbl \<Rightarrow> pager_dom" where
  "draw_pager t =
     (let (from, upto) = page_window (b_totalPages t) (b_pageNumber t)
      in \<lparr>pg_shown = (\<not> b_smartDisplay t \<or> getData t \<noteq> []),
          pg_sizes = map snd (filter (\<lambda>(i, z). size_listed t (b_totalRows t) i) (enumerate 0 (b_pageList t))),
          pg_list_shown = (\<not> (b_smartDisplay t \<and> list_hidden t (b_totalRows t))),
          pg_numbers = [from..upto],
          pg_buttons_shown = (\<not> (b_smartDisplay t \<and> b_totalPages t \<le> 1)),
          pg_first_off = (b_pageNumber t \<le> 1),
          pg_last_off = (b_totalPages t \<le> b_pageNumber t)\<rparr>)"

definition page_range :: "tbl \<Rightarrow> page_size \<Rightarrow> int option \<times> int option" where
  "page_range t z =
     (case z of
        AllRows \<Rightarrow> (None, None)
      | PageOf k \<Rightarrow>
          (Some ((b_pageNumber t - 1) * k + 1),
           Some (case b_totalRows t of
                   Some n \<Rightarrow> if b_pageNumber t * k > n then n else b_pageNumber t * k
                 | None \<Rightarrow> b_pageNumber t * k)))"

definition initPagination :: "tbl \<Rightarrow> tbl" where
  "initPagination t =
     (if \<not> b_pagination t then t\<lparr>b_pager := (b_pager t)\<lparr>pg_shown := False\<rparr>\<rparr>
      else let n = (if b_server t then b_totalRows t else Some (int (length (getData t))));
               some_rows = (n \<noteq> None \<and> n \<noteq> Some 0);
               size = (case b_pageSize t of AllRows \<Rightarrow> if some_rows then PageOf (the n) else AllRows
                       | z \<Rightarrow> z);
               pages = (if some_rows then (case size of PageOf k \<Rightarrow> trunc_div (the n - 1) k + 1 | AllRows \<Rightarrow> 0) else 0);
               page = (if pages > 0 \<and> b_pageNumber t > pages then pages else b_pageNumber t);
               u = t\<lparr>b_totalRows := n, b_totalPages := pages,
                     b_ototalPages := (if some_rows then pages else b_ototalPages t),
                     b_pageNumber := page\<rparr>;
               (from, upto) = page_range u size
           in u\<lparr>b_pageFrom := from, b_pageTo := upto, b_pager := draw_pager u\<rparr>)"

section \<open>The body\<close>

text \<open>
  One row, column by column. A check-box cell is a check box, whose mark goes back into the row's
  selection property; any other cell shows its value, or a dash.
\<close>

definition checked_of :: "jsval \<Rightarrow> jsval" where
  "checked_of l = (if l = JBool True then JBool True else if truthy l then prop_of l ''checked'' else l)"

definition format_cell :: "column \<Rightarrow> jsval \<Rightarrow> jsval \<Rightarrow> int \<Rightarrow> jsval" where
  "format_cell c v row k = (case c_formatter c of None \<Rightarrow> v | Some f \<Rightarrow> f v row k)"

fun render_cells ::
    "column list \<Rightarrow> string \<Rightarrow> int \<Rightarrow> jsval \<Rightarrow> js_error option \<times> jsval \<times> jsval list \<times> check_box list" where
  "render_cells [] key k row = (None, row, [], [])"
| "render_cells (c # cs) key k row =
     (case getItemField row (c_field c) of
        None \<Rightarrow> (Some (TypeError (c_field c)), row, [], [])
      | Some v \<Rightarrow>
          if \<not> c_visible c then render_cells cs key k row
          else let l = format_cell c v row k
               in if c_checkbox c \<or> c_radio c
                  then (case render_cells cs key k (set_prop row key (checked_of l)) of
                     (e, r, cells, boxes) \<Rightarrow> (e, r, cells,
                       \<lparr>cb_index = k,
                        cb_enabled = (c_checkboxEnabled c \<and> \<not> (truthy l \<and> truthy (prop_of l ''disabled''))),
                        cb_checked = truthy (checked_of l)\<rparr> # boxes))
                  else (case render_cells cs key k row of
                     (e, r, cells, boxes) \<Rightarrow> (e, r, (if nullish l then JStr ''-'' else l) # cells, boxes)))"

text \<open>The rows with the indices \<open>ks\<close> of the array \<open>i\<close>; an index without a row is a \<open>TypeError\<close>.\<close>

definition row_at :: "nat list \<Rightarrow> int \<Rightarrow> nat option" where
  "row_at i k = (if 0 \<le> k \<and> k < int (length i) then Some (i ! nat k) else None)"

fun render_rows ::
    "column list \<Rightarrow> string \<Rightarrow> nat list \<Rightarrow> int list \<Rightarrow> (nat \<Rightarrow> jsval) \<Rightarrow>
     js_error option \<times> (nat \<Rightarrow> jsval) \<times> (int \<times> jsval list) list \<times> check_box list" where
  "render_rows cols key i [] h = (None, h, [], [])"
| "render_rows cols key i (k # ks) h =
     (case row_at i k of
        None \<Rightarrow> (Some (TypeError ''_data''), h, [], [])
      | Some a \<Rightarrow>
          if nullish (h a) then (Some (TypeError ''_data''), h, [], [])
          else (case render_cells cols key k (h a) of
             (Some e, r, cells, boxes) \<Rightarrow> (Some e, h(a := r), [], [])
           | (None, r, cells, boxes) \<Rightarrow>
               (case render_rows cols key i ks (h(a := r)) of
                  (e, h', body, rest) \<Rightarrow> (e, h', (k, cells) # body, boxes @ rest))))"

text \<open>The mark of the check box in the header, after a click and after the body is drawn.\<close>

definition updateSelected :: "tbl \<Rightarrow> tbl" where
  "updateSelected t = (let boxes = filter cb_enabled (b_items t)
     in t\<lparr>b_selectAll := (boxes \<noteq> [] \<and> list_all cb_checked boxes)\<rparr>)"

definition resetView :: "tbl \<Rightarrow> tbl" where
  "resetView t = t\<lparr>b_selectAll := (b_items t \<noteq> [] \<and> list_all cb_checked (b_items t))\<rparr>"

definition body_range :: "tbl \<Rightarrow> int option \<times> int option" where
  "body_range t = (if b_pagination t \<and> \<not> b_server t then (b_pageFrom t, b_pageTo t)
     else (Some 1, Some (int (length (getData t)))))"

definition body_indices :: "int option \<times> int option \<Rightarrow> int list" where
  "body_indices r = (case r of (Some a, Some b) \<Rightarrow> [a - 1..b - 1] | _ \<Rightarrow> [])"

definition initBody :: act where
  "initBody = and_then (trigger ''pre-body'') (\<lambda>t.
     (let u = t\<lparr>b_pageFrom := fst (body_range t), b_pageTo := snd (body_range t)\<rparr>
      in case render_rows (b_columns u) (state_key u) (getData u) (body_indices (body_range t)) (b_heap u) of
           (Some e, h, body, boxes) \<Rightarrow> (Some e, u\<lparr>b_heap := h\<rparr>)
         | (None, h, body, boxes) \<Rightarrow>
             trigger ''post-body'' (resetView (updateSelected
               (u\<lparr>b_heap := h, b_body := body, b_items := boxes\<rparr>)))))"

definition redraw :: act where
  "redraw t = initBody (initPagination (initSearch t))"

section \<open>Selection\<close>

definition resetRows :: "tbl \<Rightarrow> tbl" where
  "resetRows t =
     (if b_data t = [] then t
      else (if b_stateField t \<noteq> None \<and> b_stateField t \<noteq> Some []
            then set_states (b_data t) (JBool False) t else t)
           \<lparr>b_selectAll := False, b_items := map (\<lambda>b. b\<lparr>cb_checked := False\<rparr>) (b_items t)\<rparr>)"

definition put_state :: "int \<Rightarrow> bool \<Rightarrow> act" where
  "put_state k b t = (case row_at (b_data t) k of
       None \<Rightarrow> (Some (TypeError (state_key t)), t)
     | Some a \<Rightarrow> (None, set_states [a] (JBool b) t))"

definition all_do :: "act list \<Rightarrow> act" where
  "all_do fs = foldr and_then fs ok"

definition updateRows :: act where
  "updateRows t = all_do (map (\<lambda>x. put_state (cb_index x) (cb_checked x)) (b_items t)) t"

definition getSelections :: "tbl \<Rightarrow> nat list" where
  "getSelections t = filter (\<lambda>a. truthy (row_state t a)) (b_data t)"

definition getAllSelections :: "tbl \<Rightarrow> nat list" where
  "getAllSelections t = filter (\<lambda>a. truthy (row_state t a)) (b_odata t)"

definition checkAll_to :: "bool \<Rightarrow> act" where
  "checkAll_to b = and_then
     (\<lambda>t. updateRows (t\<lparr>b_selectAll := b,
        b_items := map (\<lambda>x. if cb_enabled x then x\<lparr>cb_checked := b\<rparr> else x) (b_items t)\<rparr>))
     (trigger (if b then ''check-all'' else ''uncheck-all''))"

definition checkAll :: act where
  "checkAll = checkAll_to True"

definition uncheckAll :: act where
  "uncheckAll = checkAll_to False"

definition check_to :: "bool \<Rightarrow> int \<Rightarrow> act" where
  "check_to b k = and_then
     (\<lambda>t. put_state k b (t\<lparr>b_items :=
        map (\<lambda>x. if cb_index x = k then x\<lparr>cb_checked := b\<rparr> else x) (b_items t)\<rparr>))
     (\<lambda>t. trigger (if b then ''check'' else ''uncheck'') (updateSelected t))"

definition check :: "int \<Rightarrow> act" where
  "check = check_to True"

definition uncheck :: "int \<Rightarrow> act" where
  "uncheck = check_to False"

text \<open>\<open>checkBy_\<close> stops at the first row without the field.\<close>

fun has_field_prefix :: "(nat \<Rightarrow> jsval) \<Rightarrow> string \<Rightarrow> (nat \<times> nat) list \<Rightarrow> (nat \<times> nat) list" where
  "has_field_prefix h f [] = []"
| "has_field_prefix h f ((g, a) # as) =
     (if has_prop (h a) f then (g, a) # has_field_prefix h f as else [])"

definition checkBy_to :: "bool \<Rightarrow> string \<Rightarrow> jsval \<Rightarrow> act" where
  "checkBy_to b f values t =
     (let chosen = filter (\<lambda>(g, a). in_array (prop_of (b_heap t a) f) values)
            (has_field_prefix (b_heap t) f (enumerate 0 (b_odata t)));
          u = t\<lparr>b_items := map (\<lambda>x. if cb_enabled x \<and> cb_index x \<in> set (map (int \<circ> fst) chosen)
                 then x\<lparr>cb_checked := b\<rparr> else x) (b_items t)\<rparr>;
          v = set_states (map snd chosen) (JBool b) u
      in and_then (\<lambda>t. (None, t\<lparr>b_events := b_events t @
             replicate (length chosen) (if b then ''check'' else ''uncheck'')\<rparr>))
           (\<lambda>t. trigger (if b then ''check-some'' else ''uncheck-some'') (updateSelected t)) v)"

definition checkBy :: "string \<Rightarrow> jsval \<Rightarrow> act" where
  "checkBy = checkBy_to True"

definition uncheckBy :: "string \<Rightarrow> jsval \<Rightarrow> act" where
  "uncheckBy = checkBy_to False"

text \<open>A click of the user on the check box (or radio button) number \<open>j\<close> of the body.\<close>

definition has_radio :: "tbl \<Rightarrow> bool" where
  "has_radio t \<longleftrightarrow> list_ex (\<lambda>c. c_visible c \<and> c_radio c) (b_columns t)"

definition only_box :: "nat \<Rightarrow> check_box list \<Rightarrow> check_box list" where
  "only_box j xs = map (\<lambda>(i, x). if i = j then x else x\<lparr>cb_checked := False\<rparr>) (enumerate 0 xs)"

definition click_item :: "nat \<Rightarrow> act" where
  "click_item j t =
     (let x = b_items t ! j; b = (has_radio t \<or> \<not> cb_checked x);
          u = t\<lparr>b_items := (b_items t)[j := x\<lparr>cb_checked := b\<rparr>]\<rparr>;
          v = (if b_maintainSelected u \<and> has_radio u then set_states (b_odata u) (JBool False) u else u)
      in and_then (put_state (cb_index x) b)
           (and_then
              (if b_singleSelect v
               then and_then (all_do (map (\<lambda>y. put_state (cb_index y) False) (splice1 j (b_items v))))
                      (\<lambda>w. (None, w\<lparr>b_items := only_box j (b_items w)\<rparr>))
               else ok)
              (\<lambda>w. trigger (if b then ''check'' else ''uncheck'') (updateSelected w))) v)"

section \<open>Server requests and paging\<close>

definition page_limit :: "tbl \<Rightarrow> jsval" where
  "page_limit t = (case b_pageSize t of
       AllRows \<Rightarrow> (case b_totalRows t of None \<Rightarrow> JUndef | Some n \<Rightarrow> JNum n) | PageOf k \<Rightarrow> JNum k)"

definition page_offset :: "tbl \<Rightarrow> jsval" where
  "page_offset t = JNum (case b_pageSize t of AllRows \<Rightarrow> 0 | PageOf k \<Rightarrow> k * (b_pageNumber t - 1))"

definition opt_str :: "string option \<Rightarrow> jsval" where
  "opt_str s = (case s of None \<Rightarrow> JUndef | Some x \<Rightarrow> JStr x)"

definition request_params :: "tbl \<Rightarrow> jsval" where
  "request_params t = b_queryParams t (JObj
     ([(''search'', opt_str (b_searchText t)), (''sort'', opt_str (b_sortName t)),
       (''order'', JStr (b_sortOrder t))] @
      (if b_pagination t then [(''limit'', page_limit t), (''offset'', page_offset t)] else [])))"

text \<open>\<open>extend\<close>: the properties of the second object override those of the first.\<close>

fun js_extend :: "jsval \<Rightarrow> (string \<times> jsval) list \<Rightarrow> jsval" where
  "js_extend v [] = v"
| "js_extend v ((k, x) # fs) = js_extend (set_prop v k x) fs"

definition initServer :: "bool \<Rightarrow> (string \<times> jsval) list \<Rightarrow> tbl \<Rightarrow> tbl" where
  "initServer silent query t =
     (let f = js_extend (request_params t) query
      in if b_url t = [] \<or> f = JBool False then t
         else t\<lparr>b_loading := (b_loading t \<or> \<not> silent), b_reqs := b_reqs t @ [(silent, f)]\<rparr>)"

definition updatePagination :: "bool \<Rightarrow> act" where
  "updatePagination disabled t =
     (if disabled then (None, t)
      else let u = initPagination (if b_maintainSelected t then t else resetRows t)
           in and_then (\<lambda>u. if b_server u then (None, initServer False [] u) else initBody u)
                (trigger ''page-change'') u)"

definition onPageListChange :: "page_size \<Rightarrow> act" where
  "onPageListChange z t = updatePagination False (t\<lparr>b_pageSize := z\<rparr>)"

definition onPageFirst :: act where
  "onPageFirst t = updatePagination (pg_first_off (b_pager t)) (t\<lparr>b_pageNumber := 1\<rparr>)"

definition onPagePre :: act where
  "onPagePre t = updatePagination (pg_first_off (b_pager t)) (t\<lparr>b_pageNumber := b_pageNumber t - 1\<rparr>)"

definition onPageNext :: act where
  "onPageNext t = updatePagination (pg_last_off (b_pager t)) (t\<lparr>b_pageNumber := b_pageNumber t + 1\<rparr>)"

definition onPageLast :: act where
  "onPageLast t = updatePagination (pg_last_off (b_pager t)) (t\<lparr>b_pageNumber := b_totalPages t\<rparr>)"

definition onPageNumber :: "int \<Rightarrow> act" where
  "onPageNumber n t = (if b_pageNumber t = n then (None, t)
     else updatePagination False (t\<lparr>b_pageNumber := n\<rparr>))"

definition selectPage :: "int \<Rightarrow> act" where
  "selectPage n t = (if 0 < n \<and> n \<le> b_ototalPages t then updatePagination False (t\<lparr>b_pageNumber := n\<rparr>)
     else (None, t))"

definition prevPage :: act where
  "prevPage t = (if 1 < b_pageNumber t then updatePagination False (t\<lparr>b_pageNumber := b_pageNumber t - 1\<rparr>)
     else (None, t))"

definition nextPage :: act where
  "nextPage t = (if b_pageNumber t < b_ototalPages t
     then updatePagination False (t\<lparr>b_pageNumber := b_pageNumber t + 1\<rparr>) else (None, t))"

definition togglePagination :: act where
  "togglePagination t = updatePagination False (t\<lparr>b_pagination := \<not> b_pagination t\<rparr>)"

definition onSearch :: "string \<Rightarrow> act" where
  "onSearch s t =
     (let c = trim s
      in if b_searchText t = Some c then (None, t)
         else and_then (updatePagination False) (trigger ''search'')
                (initSearch (t\<lparr>b_searchText := Some c, b_pageNumber := 1\<rparr>)))"

definition resetSearch :: "string \<Rightarrow> act" where
  "resetSearch = onSearch"

definition filterBy :: "(string \<times> jsval) list \<Rightarrow> act" where
  "filterBy fs t = updatePagination False (initSearch (t\<lparr>b_filterColumns := fs, b_pageNumber := 1\<rparr>))"

definition onSort :: "env \<Rightarrow> string \<Rightarrow> act" where
  "onSort E field t =
     (let flip = (\<lambda>d. if d = ''asc'' then ''desc'' else ''asc'');
          order = (if b_sortName t = Some field then flip (b_sortOrder t) else flip (b_orders t field));
          u = t\<lparr>b_sortName := Some field, b_sortOrder := order, b_events := b_events t @ [''sort''],
                b_orders := (b_orders t)(field := order)\<rparr>
      in if b_server u then (None, initServer (b_silentSort u) [] u)
         else and_then (initSort E) initBody u)"

section \<open>Changing the rows\<close>

text \<open>\<open>load\<close> of a reply: the rows are an array or missing.\<close>

definition load_rows :: "env \<Rightarrow> jsval \<Rightarrow> act" where
  "load_rows E v t =
     (let (a, u) = (case v of JArr rs \<Rightarrow> (case alloc rs t of (ds, u) \<Rightarrow> (Some ds, u)) | _ \<Rightarrow> (None, t))
      in and_then (initData E a []) redraw u)"

definition load :: "env \<Rightarrow> jsval \<Rightarrow> act" where
  "load E v t =
     (if b_server t
      then (case (get_prop v ''total'', get_prop v ''rows'') of
          (Some n, Some rs) \<Rightarrow> load_rows E rs (t\<lparr>b_totalRows := to_num n\<rparr>)
        | _ \<Rightarrow> (Some (TypeError ''total''), t))
      else (case v of
          JArr rs \<Rightarrow> load_rows E v t
        | _ \<Rightarrow> (case get_prop v ''data'' of
              Some rs \<Rightarrow> load_rows E rs t | None \<Rightarrow> (Some (TypeError ''fixedScroll''), t))))"

text \<open>A reply, good or not, to the request number \<open>i\<close>; a callback that throws leaves the loading sign.\<close>

definition server_reply :: "env \<Rightarrow> nat \<Rightarrow> bool \<Rightarrow> jsval \<Rightarrow> act" where
  "server_reply E i good v t =
     (let silent = fst (b_reqs t ! i); u = t\<lparr>b_reqs := splice1 i (b_reqs t)\<rparr>
      in and_then
           (if good then and_then (load E (b_responseHandler u v)) (trigger ''load-success'')
            else trigger ''load-error'')
           (\<lambda>w. (None, w\<lparr>b_loading := (b_loading w \<and> silent)\<rparr>)) u)"

definition refresh :: "string \<Rightarrow> bool \<Rightarrow> (string \<times> jsval) list \<Rightarrow> tbl \<Rightarrow> tbl" where
  "refresh url silent query t =
     initServer silent query (if url = [] then t else t\<lparr>b_url := url, b_pageNumber := 1\<rparr>)"

definition append_rows :: "env \<Rightarrow> jsval list \<Rightarrow> act" where
  "append_rows E rs t = (case alloc rs t of (ds, u) \<Rightarrow>
     and_then (initData E (Some ds) ''append'') redraw u)"

definition prepend_rows :: "env \<Rightarrow> jsval list \<Rightarrow> act" where
  "prepend_rows E rs t = (case alloc rs t of (ds, u) \<Rightarrow>
     and_then (initData E (Some ds) ''prepend'') redraw u)"

text \<open>The loop of \<open>remove\<close>: from the last index down to 0, each match spliced out of the array.\<close>

fun remove_loop :: "('a \<Rightarrow> bool) \<Rightarrow> nat \<Rightarrow> 'a list \<Rightarrow> 'a list" where
  "remove_loop P 0 xs = xs"
| "remove_loop P (Suc c) xs = remove_loop P c (if P (xs ! c) then splice1 c xs else xs)"

definition doomed :: "tbl \<Rightarrow> string \<Rightarrow> jsval \<Rightarrow> nat \<Rightarrow> bool" where
  "doomed t f values a \<longleftrightarrow> has_prop (b_heap t a) f \<and> in_array (prop_of (b_heap t a) f) values"

definition remove_rows :: "string \<Rightarrow> jsval \<Rightarrow> act" where
  "remove_rows f values t =
     (let ds = remove_loop (doomed t f values) (length (b_odata t)) (b_odata t)
      in if length ds \<noteq> length (b_odata t) then redraw (set_odata ds t) else (None, set_odata ds t))"

definition removeAll :: act where
  "removeAll t = (if b_odata t = [] then (None, t) else redraw (set_odata [] t))"

text \<open>
  The search by unique id runs from the last row; the wanted id is converted, for good, to the
  type of each id it is compared with.
\<close>

fun as_id :: "jsval \<Rightarrow> jsval \<Rightarrow> jsval" where
  "as_id (JStr s) v = JStr (js_str v)"
| "as_id (JNum n) v = js_parseInt (js_str v)"
| "as_id w v = v"

fun find_by_id :: "(nat \<Rightarrow> jsval) \<Rightarrow> string \<Rightarrow> jsval \<Rightarrow> nat list \<Rightarrow> nat option" where
  "find_by_id h key v [] = None"
| "find_by_id h key v (a # as) =
     (if has_prop (h a) key
      then (let w = prop_of (h a) key; v' = as_id w v
            in if js_seq w v' then Some a else find_by_id h key v' as)
      else find_by_id h key v as)"

definition getRowByUniqueId :: "jsval \<Rightarrow> tbl \<Rightarrow> nat option" where
  "getRowByUniqueId v t = find_by_id (b_heap t) (b_uniqueId t) v (rev (b_odata t))"

definition removeByUniqueId :: "jsval \<Rightarrow> act" where
  "removeByUniqueId v t = (case getRowByUniqueId v t of
       None \<Rightarrow> (None, t) | Some a \<Rightarrow> redraw (set_odata (remove1 a (b_odata t)) t))"

definition insertRow :: "env \<Rightarrow> nat \<Rightarrow> jsval \<Rightarrow> act" where
  "insertRow E i row t = (case alloc [row] t of (ds, u) \<Rightarrow>
     and_then (initSort E) initBody (initPagination (initSearch
       (set_data (take i (b_data u) @ ds @ drop i (b_data u)) u))))"

definition updateRow :: "env \<Rightarrow> int \<Rightarrow> (string \<times> jsval) list \<Rightarrow> act" where
  "updateRow E i fs t = and_then (initSort E) initBody
     (case row_at (b_data t) i of
        None \<Rightarrow> t | Some a \<Rightarrow> t\<lparr>b_heap := (b_heap t)(a := js_extend (b_heap t a) fs)\<rparr>)"

definition updateCell :: "env \<Rightarrow> int \<Rightarrow> string \<Rightarrow> jsval \<Rightarrow> act" where
  "updateCell E i f v t = (case row_at (b_data t) i of
       None \<Rightarrow> (Some (TypeError f), t)
     | Some a \<Rightarrow> and_then (initSort E) initBody (t\<lparr>b_heap := (b_heap t)(a := set_prop (b_heap t a) f v)\<rparr>))"

definition toggleColumn :: "nat option \<Rightarrow> bool \<Rightarrow> act" where
  "toggleColumn i b t = (case i of
       None \<Rightarrow> (None, t)
     | Some k \<Rightarrow> redraw (initHeader (t\<lparr>b_columns := (b_columns t)[k := (b_columns t ! k)\<lparr>c_visible := b\<rparr>]\<rparr>)))"

definition showColumn :: "string \<Rightarrow> act" where
  "showColumn f t = toggleColumn (getFieldIndex (b_columns t) f) True t"

definition hideColumn :: "string \<Rightarrow> act" where
  "hideColumn f t = toggleColumn (getFieldIndex (b_columns t) f) False t"

text \<open>
  The constructor: \<open>init\<close> on the options of a page with one header row and a \<open>data\<close> array of rows.
\<close>

definition blank_pager :: pager_dom where
  "blank_pager = \<lparr>pg_shown = False, pg_sizes = [], pg_list_shown = False, pg_numbers = [],
     pg_buttons_shown = False, pg_first_off = False, pg_last_off = False\<rparr>"

definition init_table :: "env \<Rightarrow> act" where
  "init_table E t = and_then (initData E None [])
     (and_then (\<lambda>t. initBody (initPagination t)) (\<lambda>t. (None, initServer False [] t))) (initHeader t)"

end
