(* ===== verification/BootProps.thy ===== *)
theory BootProps
  imports BootTable "HOL-Library.Multiset"
begin

text \<open>
  Lemmas about the table widget: the loops against their reference definitions, the bounds of the
  pager, the drawing of the body, and the invariant of a table with client-side paging, which
  every event of the user keeps.
\<close>

section \<open>Loops and texts\<close>

lemma remove_loop_take_drop:
  "c \<le> length xs \<Longrightarrow> remove_loop P c xs = filter (\<lambda>x. \<not> P x) (take c xs) @ drop c xs"
proof (induction c arbitrary: xs)
  case (Suc c)
  have nth: "take (Suc c) xs = take c xs @ [xs ! c]" and dr: "drop c xs = xs ! c # drop (Suc c) xs"
    using Suc.prems by (simp_all add: take_Suc_conv_app_nth Cons_nth_drop_Suc)
  show ?case
  proof (cases "P (xs ! c)")
    case True
    have "take c (splice1 c xs) = take c xs" "drop c (splice1 c xs) = drop (Suc c) xs"
      using Suc.prems by (simp_all add: splice1_def)
    then show ?thesis using Suc.IH [of "splice1 c xs"] Suc.prems True nth by simp
  next
    case False
    then show ?thesis using Suc.IH [of xs] Suc.prems nth dr by simp
  qed
qed simp

lemma remove_loop_filter: "remove_loop P (length xs) xs = filter (\<lambda>x. \<not> P x) xs"
  by (simp add: remove_loop_take_drop)

definition html_esc :: "char \<Rightarrow> string" where
  "html_esc c =
     (if c = CHR ''&'' then ''&amp;'' else if c = CHR ''<'' then ''&lt;''
      else if c = CHR ''>'' then ''&gt;'' else if c = CHR 0x22 then ''&quot;''
      else if c = CHR 0x27 then ''&#039;'' else [c])"

lemma replace_char_append [simp]: "replace_char c r (s @ t) = replace_char c r s @ replace_char c r t"
  by (simp add: replace_char_def)

lemma replace_char_simps [simp]:
  "replace_char c r [] = []"
  "replace_char c r (x # xs) = (if x = c then r else [x]) @ replace_char c r xs"
  by (simp_all add: replace_char_def)

lemma escapeHTML_single_pass: "escapeHTML s = concat (map html_esc s)"
proof (induction s)
  case (Cons x s)
  have "escapeHTML (x # s) = escapeHTML [x] @ escapeHTML s"
    by (simp add: escapeHTML_def del: replace_char_simps(2) append_Cons append_Nil
        flip: replace_char_append) simp
  moreover have "escapeHTML [x] = html_esc x"
    by (auto simp: escapeHTML_def html_esc_def)
  ultimately show ?case using Cons by simp
qed (simp add: escapeHTML_def)

section \<open>The pager\<close>

lemma searched_update [simp]:
  "searched (t\<lparr>b_heap := x1\<rparr>) = searched t" "searched (t\<lparr>b_data := x2\<rparr>) = searched t"
  "searched (t\<lparr>b_odata := x2\<rparr>) = searched t" "searched (t\<lparr>b_same := x3\<rparr>) = searched t"
  "searched (t\<lparr>b_totalRows := x4\<rparr>) = searched t" "searched (t\<lparr>b_totalPages := x5\<rparr>) = searched t"
  "searched (t\<lparr>b_ototalPages := x5\<rparr>) = searched t" "searched (t\<lparr>b_pageNumber := x5\<rparr>) = searched t"
  "searched (t\<lparr>b_pageSize := x6\<rparr>) = searched t" "searched (t\<lparr>b_pageFrom := x7\<rparr>) = searched t"
  "searched (t\<lparr>b_pageTo := x7\<rparr>) = searched t" "searched (t\<lparr>b_pager := x8\<rparr>) = searched t"
  "searched (t\<lparr>b_body := x9\<rparr>) = searched t" "searched (t\<lparr>b_items := x10\<rparr>) = searched t"
  "searched (t\<lparr>b_selectAll := x3\<rparr>) = searched t" "searched (t\<lparr>b_events := x11\<rparr>) = searched t"
  "searched (t\<lparr>b_sortName := x12\<rparr>) = searched t" "searched (t\<lparr>b_sortOrder := x13\<rparr>) = searched t"
  "searched (t\<lparr>b_orders := x14\<rparr>) = searched t" "searched (t\<lparr>b_next := x15\<rparr>) = searched t"
  by (simp_all add: searched_def)

lemma getData_update [simp]:
  "getData (t\<lparr>b_heap := x1\<rparr>) = getData t" "getData (t\<lparr>b_same := x3\<rparr>) = getData t"
  "getData (t\<lparr>b_totalRows := x4\<rparr>) = getData t" "getData (t\<lparr>b_totalPages := x5\<rparr>) = getData t"
  "getData (t\<lparr>b_ototalPages := x5\<rparr>) = getData t" "getData (t\<lparr>b_pageNumber := x5\<rparr>) = getData t"
  "getData (t\<lparr>b_pageSize := x6\<rparr>) = getData t" "getData (t\<lparr>b_pageFrom := x7\<rparr>) = getData t"
  "getData (t\<lparr>b_pageTo := x7\<rparr>) = getData t" "getData (t\<lparr>b_pager := x8\<rparr>) = getData t"
  "getData (t\<lparr>b_body := x9\<rparr>) = getData t" "getData (t\<lparr>b_items := x10\<rparr>) = getData t"
  "getData (t\<lparr>b_selectAll := x3\<rparr>) = getData t" "getData (t\<lparr>b_events := x11\<rparr>) = getData t"
  "getData (t\<lparr>b_sortName := x12\<rparr>) = getData t" "getData (t\<lparr>b_sortOrder := x13\<rparr>) = getData t"
  "getData (t\<lparr>b_orders := x14\<rparr>) = getData t"
  by (simp_all add: getData_def)

definition size_ok :: "page_size \<Rightarrow> bool" where
  "size_ok z = (case z of AllRows \<Rightarrow> True | PageOf k \<Rightarrow> 0 < k)"

lemma trunc_div_page:
  assumes "1 \<le> n" and "n < 2 ^ 31" and "0 < k"
  shows "trunc_div (n - 1) k = (n - 1) div k"
proof -
  let ?q = "(n - 1) div k"
  have "sgn (n - 1) * sgn k * (\<bar>n - 1\<bar> div \<bar>k\<bar>) = ?q"
    using assms by (cases "n = 1") (simp_all add: sgn_if)
  moreover have "0 \<le> ?q" "?q \<le> n - 1"
    using assms zdiv_mono2 [of "n - 1" 1 k] by (simp_all add: pos_imp_zdiv_nonneg_iff)
  moreover have "to_int32 ?q = ?q" if "0 \<le> ?q" "?q < 2 ^ 31"
    using that by (simp add: to_int32_def)
  ultimately show ?thesis using assms by (simp only: trunc_div_def) simp
qed

text \<open>The numbers the pager shows: consecutive, at most five of them, within the pages, the current one included.\<close>

lemma page_window_bounds:
  assumes "1 \<le> page" and "page \<le> pages" and "page_window pages page = (a, b)"
  shows "1 \<le> a" "a \<le> page" "page \<le> b" "b \<le> pages" "b - a = min 4 (pages - 1)"
  using assms by (auto simp: page_window_def Let_def split: if_splits)

subsection \<open>Page ranges\<close>

definition row_count :: "tbl \<Rightarrow> int" where
  "row_count t = int (length (getData t))"

text \<open>The size of a page in rows, and the number of pages, of a table with client-side paging.\<close>

definition page_rows :: "tbl \<Rightarrow> int" where
  "page_rows t = (case b_pageSize t of AllRows \<Rightarrow> row_count t | PageOf k \<Rightarrow> k)"

definition page_count :: "tbl \<Rightarrow> int" where
  "page_count t = (if row_count t = 0 then 0 else (row_count t - 1) div page_rows t + 1)"

definition paged :: "tbl \<Rightarrow> bool" where
  "paged t \<longleftrightarrow> \<not> b_server t \<and> b_pagination t \<and> size_ok (b_pageSize t) \<and> row_count t < 2 ^ 31"

lemma page_rows_pos: "paged t \<Longrightarrow> row_count t \<noteq> 0 \<Longrightarrow> 0 < page_rows t"
  by (cases "b_pageSize t") (auto simp: paged_def size_ok_def page_rows_def row_count_def)

lemma page_count_nonneg: "paged t \<Longrightarrow> 0 \<le> page_count t"
  using page_rows_pos [of t]
  by (auto simp: page_count_def row_count_def pos_imp_zdiv_nonneg_iff)

definition clip_page :: "tbl \<Rightarrow> int" where
  "clip_page t = (if 0 < page_count t \<and> page_count t < b_pageNumber t then page_count t else b_pageNumber t)"

text \<open>What \<open>initPagination\<close> computes on the client, in one equation.\<close>

lemma initPagination_client:
  assumes "paged t"
  defines "u \<equiv> t\<lparr>b_totalRows := Some (row_count t), b_totalPages := page_count t,
      b_ototalPages := (if row_count t = 0 then b_ototalPages t else page_count t),
      b_pageNumber := clip_page t\<rparr>"
    and "z \<equiv> (if row_count t = 0 then b_pageSize t else PageOf (page_rows t))"
  shows "initPagination t = u\<lparr>b_pageFrom := fst (page_range u z), b_pageTo := snd (page_range u z),
    b_pager := draw_pager u\<rparr>"
proof -
  have t: "\<not> b_server t" "b_pagination t" using assms(1) by (simp_all add: paged_def)
  show ?thesis
  proof (cases "row_count t = 0")
    case True
    then show ?thesis using t unfolding u_def z_def
      by (cases "b_pageSize t")
         (simp_all add: initPagination_def row_count_def page_count_def clip_page_def Let_def split_beta)
  next
    case False
    have div: "trunc_div (row_count t - 1) (page_rows t) = (row_count t - 1) div page_rows t"
      using False assms(1) page_rows_pos [OF assms(1) False]
      by (intro trunc_div_page) (simp_all add: row_count_def paged_def Suc_le_eq)
    show ?thesis
    proof (cases "b_pageSize t")
      case AllRows
      then have "page_rows t = row_count t" by (simp add: page_rows_def)
      then show ?thesis using t False div AllRows unfolding u_def z_def
        by (simp add: initPagination_def row_count_def page_count_def clip_page_def Let_def split_beta)
    next
      case (PageOf k)
      then have "page_rows t = k" by (simp add: page_rows_def)
      then show ?thesis using t False div PageOf unfolding u_def z_def
        by (simp add: initPagination_def row_count_def page_count_def clip_page_def Let_def split_beta)
    qed
  qed
qed

lemma initPagination_fields [simp]:
  "b_heap (initPagination t) = b_heap t" "b_data (initPagination t) = b_data t"
  "b_odata (initPagination t) = b_odata t" "b_same (initPagination t) = b_same t"
  "b_columns (initPagination t) = b_columns t" "b_stateField (initPagination t) = b_stateField t"
  "b_server (initPagination t) = b_server t" "b_pagination (initPagination t) = b_pagination t"
  "b_pageSize (initPagination t) = b_pageSize t" "b_pageList (initPagination t) = b_pageList t"
  "b_items (initPagination t) = b_items t" "b_body (initPagination t) = b_body t"
  "b_searchText (initPagination t) = b_searchText t" "b_next (initPagination t) = b_next t"
  "b_filterColumns (initPagination t) = b_filterColumns t"
  "b_strictSearch (initPagination t) = b_strictSearch t"
  "b_maintainSelected (initPagination t) = b_maintainSelected t"
  "b_smartDisplay (initPagination t) = b_smartDisplay t"
  "b_sortName (initPagination t) = b_sortName t"
  "b_singleSelect (initPagination t) = b_singleSelect t"
  by (simp_all add: initPagination_def Let_def split_beta)

lemma searched_initPagination [simp]: "searched (initPagination t) = searched t"
  by (simp add: searched_def)

lemma getData_initPagination [simp]: "getData (initPagination t) = getData t"
  by (simp add: getData_def)

lemma paged_initPagination [simp]: "paged (initPagination t) = paged t"
  by (simp add: paged_def row_count_def)

lemma page_measures_initPagination [simp]:
  "row_count (initPagination t) = row_count t" "page_rows (initPagination t) = page_rows t"
  "page_count (initPagination t) = page_count t"
  by (simp_all add: row_count_def page_rows_def page_count_def cong: page_size.case_cong)

definition page_span :: "int \<Rightarrow> int \<Rightarrow> int \<Rightarrow> int list" where
  "page_span n k p = [(p - 1) * k..min (p * k) n - 1]"

lemma clip_page_pos: "paged t \<Longrightarrow> 1 \<le> b_pageNumber t \<Longrightarrow> 1 \<le> clip_page t"
  by (simp add: clip_page_def)

lemma clip_page_le: "0 < page_count t \<Longrightarrow> clip_page t \<le> page_count t"
  by (simp add: clip_page_def)

lemma page_range_initPagination:
  assumes "paged t" and "row_count t \<noteq> 0"
  shows "b_pageFrom (initPagination t) = Some ((clip_page t - 1) * page_rows t + 1)"
    "b_pageTo (initPagination t) = Some (min (clip_page t * page_rows t) (row_count t))"
  using assms by (simp_all add: initPagination_client page_range_def min_def)

lemma body_indices_page:
  assumes "paged t" and "1 \<le> b_pageNumber t"
  shows "body_indices (body_range (initPagination t)) =
    (if row_count t = 0 then [] else page_span (row_count t) (page_rows t) (clip_page t))"
proof -
  have r: "body_range (initPagination t) = (b_pageFrom (initPagination t), b_pageTo (initPagination t))"
    using assms(1) by (simp add: body_range_def paged_def)
  show ?thesis
  proof (cases "row_count t = 0")
    case True
    have "0 \<le> (b_pageNumber t - 1) * k" if "0 < k" for k using assms(2) that by simp
    then have "- 1 < (b_pageNumber t - 1) * k" if "0 < k" for k using that by fastforce
    with True show ?thesis
      using assms unfolding r
      by (cases "b_pageSize t")
         (auto simp: initPagination_client page_range_def body_indices_def paged_def size_ok_def
            clip_page_def page_count_def)
  next
    case False
    then show ?thesis
      unfolding r page_range_initPagination [OF assms(1) False]
      by (simp add: body_indices_def page_span_def)
  qed
qed

lemma page_span_bounds: "1 \<le> p \<Longrightarrow> 0 < k \<Longrightarrow> i \<in> set (page_span n k p) \<Longrightarrow> 0 \<le> i \<and> i < n"
proof -
  assume "1 \<le> p" "0 < k" and i: "i \<in> set (page_span n k p)"
  then have "0 \<le> (p - 1) * k" by simp
  with i show "0 \<le> i \<and> i < n" unfolding page_span_def by auto
qed

lemma body_indices_valid:
  assumes "paged t" and "1 \<le> b_pageNumber t"
    and "i \<in> set (body_indices (body_range (initPagination t)))"
  shows "0 \<le> i \<and> i < row_count t"
proof -
  have "row_count t \<noteq> 0" and i: "i \<in> set (page_span (row_count t) (page_rows t) (clip_page t))"
    using assms by (auto simp: body_indices_page split: if_splits)
  then show ?thesis
    using page_span_bounds [OF clip_page_pos page_rows_pos i] assms by simp
qed

lemma concat_page_spans:
  assumes "0 < k" and "0 \<le> n"
  shows "(int m - 1) * k < n \<or> m = 0 \<Longrightarrow> concat (map (page_span n k) [1..int m]) = [0..min (int m * k) n - 1]"
proof (induction m)
  case 0
  then show ?case using assms by simp
next
  case (Suc m)
  have lt: "int m * k < n" using Suc.prems by simp
  have "(int m - 1) * k < n \<or> m = 0"
    using lt assms(1) by (simp add: left_diff_distrib)
  with Suc.IH have IH: "concat (map (page_span n k) [1..int m]) = [0..int m * k - 1]"
    using lt by (simp add: min_def)
  have "[1..int (Suc m)] = [1..int m] @ [int (Suc m)]"
    using upto_rec2 [of 1 "int (Suc m)"] by simp
  moreover have "[0..min (int (Suc m) * k) n - 1] =
      [0..int m * k - 1] @ [int m * k..min (int (Suc m) * k) n - 1]"
    using upto_split1 [of 0 "int m * k" "min (int (Suc m) * k) n - 1"] lt assms(1)
    by (simp add: distrib_right)
  moreover have "page_span n k (int (Suc m)) = [int m * k..min (int (Suc m) * k) n - 1]"
    by (simp add: page_span_def)
  ultimately show ?case using IH by simp
qed

lemma pages_partition_indices:
  assumes "0 < k" and "0 < n"
  shows "concat (map (page_span n k) [1..(n - 1) div k + 1]) = [0..n - 1]"
proof -
  let ?m = "nat ((n - 1) div k + 1)"
  have nonneg: "0 \<le> (n - 1) div k" using assms by (simp add: pos_imp_zdiv_nonneg_iff)
  then have m: "int ?m = (n - 1) div k + 1" by simp
  have split: "n - 1 = (n - 1) div k * k + (n - 1) mod k" by simp
  have "(n - 1) mod k < k" "0 \<le> (n - 1) mod k" using assms(1) by simp_all
  with split have "(n - 1) div k * k < n" and "n \<le> ((n - 1) div k + 1) * k"
    unfolding distrib_right by linarith+
  then show ?thesis
    using concat_page_spans [OF assms(1), of n ?m] assms(2) unfolding m by simp
qed

lemma js_slice_indices:
  assumes "0 \<le> a" and "0 \<le> b" and "b \<le> int (length xs)"
  shows "js_slice xs (Some a) (Some b) = map (\<lambda>i. xs ! nat i) [a..b - 1]"
proof (rule nth_equalityI)
  have len: "length (js_slice xs (Some a) (Some b)) = nat b - nat a"
    using assms by (simp add: js_slice_def slice_index_def)
  then show "length (js_slice xs (Some a) (Some b)) = length (map (\<lambda>i. xs ! nat i) [a..b - 1])"
    using assms by simp
  fix i assume i: "i < length (js_slice xs (Some a) (Some b))"
  then have "nat a + i < nat b" using len by simp
  then show "js_slice xs (Some a) (Some b) ! i = map (\<lambda>i. xs ! nat i) [a..b - 1] ! i"
    using assms nth_upto [of a i "b - 1"] by (simp add: js_slice_def slice_index_def nat_add_distrib)
qed

section \<open>Drawing the body\<close>

text \<open>A row without its selection property, and rows whose selection property is a truth value.\<close>

fun erase :: "string \<Rightarrow> jsval \<Rightarrow> jsval" where
  "erase key (JObj fs) = JObj (filter (\<lambda>f. fst f \<noteq> key) fs)"
| "erase key v = v"

fun tidy :: "string \<Rightarrow> jsval \<Rightarrow> bool" where
  "tidy key (JObj fs) = (case map_of fs key of None \<Rightarrow> True
     | Some v \<Rightarrow> v = JUndef \<or> v = JBool True \<or> v = JBool False)"
| "tidy key v = False"

definition marked :: "string \<Rightarrow> jsval \<Rightarrow> bool" where
  "marked key row \<longleftrightarrow> truthy (prop_of row key)"

text \<open>
  Columns the pages of the console use: fields without a path, and a check-box column that shows
  the selection property as it is.
\<close>

definition col_ok :: "string \<Rightarrow> column \<Rightarrow> bool" where
  "col_ok key c \<longleftrightarrow> CHR ''.'' \<notin> set (c_field c) \<and> CHR ''.'' \<notin> set (c_sortName c) \<and>
     (c_visible c \<and> (c_checkbox c \<or> c_radio c) \<longrightarrow> c_field c = key \<and> c_formatter c = None)"

lemma erase_put: "filter (\<lambda>f. fst f \<noteq> key) (put key v fs) = filter (\<lambda>f. fst f \<noteq> key) fs"
  by (induction fs) auto

lemma erase_set_prop [simp]: "erase key (set_prop row key v) = erase key row"
  by (cases row) (simp_all add: erase_put)

lemma tidy_JObj: "tidy key row \<Longrightarrow> \<exists>fs. row = JObj fs"
  by (cases row) simp_all

lemma tidy_not_nullish [simp]: "tidy key row \<Longrightarrow> \<not> nullish row"
  by (auto simp: nullish_def)

lemma tidy_values:
  "tidy key row \<Longrightarrow> prop_of row key = JUndef \<or> prop_of row key = JBool True \<or> prop_of row key = JBool False"
  by (cases row) (auto simp: prop_of_def split: option.splits)

lemma tidy_set_prop [simp]:
  "tidy key row \<Longrightarrow> v = JUndef \<or> v = JBool True \<or> v = JBool False \<Longrightarrow> tidy key (set_prop row key v)"
  by (cases row) (auto simp: map_of_put)

lemma prop_of_set_prop:
  "tidy key row \<Longrightarrow> prop_of (set_prop row key v) j = (if j = key then v else prop_of row j)"
  by (cases row) (simp_all add: prop_of_def map_of_put)

lemma marked_set_prop [simp]: "tidy key row \<Longrightarrow> marked key (set_prop row key (JBool b)) = b"
  by (simp add: marked_def prop_of_set_prop)

lemma getItemField_flat: "CHR ''.'' \<notin> set f \<Longrightarrow> tidy key row \<Longrightarrow> getItemField row f = Some (prop_of row f)"
  by (cases row) (auto simp: getItemField_def prop_of_def)

lemma checked_of_tidy [simp]:
  "v = JUndef \<or> v = JBool True \<or> v = JBool False \<Longrightarrow> checked_of v = v"
  by (auto simp: checked_of_def)

definition check_cols :: "column list \<Rightarrow> nat" where
  "check_cols cols = length (filter (\<lambda>c. c_visible c \<and> (c_checkbox c \<or> c_radio c)) cols)"

definition row_drawn :: "string \<Rightarrow> int \<Rightarrow> jsval \<Rightarrow> jsval \<Rightarrow> check_box list \<Rightarrow> bool" where
  "row_drawn key k row r boxes \<longleftrightarrow> tidy key r \<and> erase key r = erase key row \<and>
     marked key r = marked key row \<and> (\<forall>x \<in> set boxes. cb_index x = k \<and> cb_checked x = marked key row)"

lemma render_cells_ok:
  assumes "list_all (col_ok key) cols" and "tidy key row"
  shows "\<exists>r cells boxes. render_cells cols key k row = (None, r, cells, boxes) \<and>
    row_drawn key k row r boxes \<and> length boxes = check_cols cols"
  using assms
proof (induction cols arbitrary: row)
  case Nil
  then show ?case by (simp add: row_drawn_def check_cols_def)
next
  case (Cons c cols)
  let ?v = "prop_of row (c_field c)"
  have c: "col_ok key c" and cs: "list_all (col_ok key) cols" using Cons.prems(1) by simp_all
  have f: "getItemField row (c_field c) = Some ?v"
    using c Cons.prems(2) by (simp add: col_ok_def getItemField_flat)
  show ?case
  proof (cases "c_visible c \<and> (c_checkbox c \<or> c_radio c)")
    case True
    then have key: "c_field c = key" and fmt: "format_cell c ?v row k = prop_of row key"
      using c by (simp_all add: col_ok_def format_cell_def)
    let ?row = "set_prop row key (prop_of row key)"
    have "tidy key ?row" "marked key ?row = marked key row"
      using tidy_values [OF Cons.prems(2)] Cons.prems(2) by (auto simp: marked_def prop_of_set_prop)
    moreover obtain r cells boxes where
      "render_cells cols key k ?row = (None, r, cells, boxes)" "row_drawn key k ?row r boxes"
      "length boxes = check_cols cols"
      using Cons.IH [OF cs \<open>tidy key ?row\<close>] by auto
    moreover have "checked_of (prop_of row key) = prop_of row key"
      using tidy_values [OF Cons.prems(2)] by simp
    ultimately show ?thesis
      using True f fmt key by (auto simp: row_drawn_def Let_def marked_def check_cols_def)
  next
    case False
    from Cons.IH [OF cs Cons.prems(2)] obtain r cells boxes where
      "render_cells cols key k row = (None, r, cells, boxes)" "row_drawn key k row r boxes"
      "length boxes = check_cols cols" by auto
    then show ?thesis using False f by (auto simp: Let_def check_cols_def)
  qed
qed

text \<open>Two stores that agree on the rows, up to how an absent mark is written.\<close>

definition same_rows :: "string \<Rightarrow> (nat \<Rightarrow> jsval) \<Rightarrow> (nat \<Rightarrow> jsval) \<Rightarrow> bool" where
  "same_rows key h h' \<longleftrightarrow> (\<forall>a. erase key (h' a) = erase key (h a) \<and> marked key (h' a) = marked key (h a))"

lemma same_rows_refl [simp]: "same_rows key h h"
  by (simp add: same_rows_def)

lemma same_rows_trans: "same_rows key h h' \<Longrightarrow> same_rows key h' h'' \<Longrightarrow> same_rows key h h''"
  by (simp add: same_rows_def)

lemma render_rows_ok:
  assumes "list_all (col_ok key) cols" and "\<forall>a \<in> set i. tidy key (h a)"
    and "\<forall>k \<in> set ks. 0 \<le> k \<and> k < int (length i)"
  shows "\<exists>h' body boxes. render_rows cols key i ks h = (None, h', body, boxes) \<and> map fst body = ks \<and>
    same_rows key h h' \<and> (\<forall>a \<in> set i. tidy key (h' a)) \<and> (\<forall>a. a \<notin> set i \<longrightarrow> h' a = h a) \<and>
    (\<forall>x \<in> set boxes. cb_index x \<in> set ks \<and> cb_checked x = marked key (h (i ! nat (cb_index x)))) \<and>
    map cb_index boxes = concat (map (replicate (check_cols cols)) ks)"
  using assms(2,3)
proof (induction ks arbitrary: h)
  case (Cons k ks)
  let ?a = "i ! nat k"
  have a: "row_at i k = Some ?a" "?a \<in> set i"
    using Cons.prems(2) by (auto simp: row_at_def intro!: nth_mem)
  obtain r cells boxes where r: "render_cells cols key k (h ?a) = (None, r, cells, boxes)"
    "row_drawn key k (h ?a) r boxes" "length boxes = check_cols cols"
    using render_cells_ok [OF assms(1)] Cons.prems(1) a(2) by meson
  then have "map cb_index boxes = replicate (check_cols cols) k"
    by (auto simp: row_drawn_def list_eq_iff_nth_eq)
  let ?h = "h(?a := r)"
  have h: "same_rows key h ?h" "\<forall>a \<in> set i. tidy key (?h a)"
    using r(2) Cons.prems(1) by (simp_all add: same_rows_def row_drawn_def)
  have ks: "\<forall>k \<in> set ks. 0 \<le> k \<and> k < int (length i)" using Cons.prems(2) by simp
  from Cons.IH [OF h(2) ks] obtain h' body rest
    where IH: "render_rows cols key i ks ?h = (None, h', body, rest)"
    "map fst body = ks" "same_rows key ?h h'" "\<forall>a \<in> set i. tidy key (h' a)"
    "\<forall>a. a \<notin> set i \<longrightarrow> h' a = ?h a"
    "\<forall>x \<in> set rest. cb_index x \<in> set ks \<and> cb_checked x = marked key (?h (i ! nat (cb_index x)))"
    "map cb_index rest = concat (map (replicate (check_cols cols)) ks)"
    by blast
  have "marked key (?h b) = marked key (h b)" for b using h(1) by (simp add: same_rows_def)
  with IH r a Cons.prems(1) same_rows_trans [OF h(1)] \<open>map cb_index boxes = _\<close> show ?case
    by (auto simp: row_drawn_def)
qed simp

lemma concat_replicates: "n \<le> 1 \<Longrightarrow> concat (map (replicate n) ks) = (if n = 0 then [] else ks)"
  by (induction ks) (auto simp: le_Suc_eq)

lemma distinct_replicates: "distinct ks \<Longrightarrow> n \<le> 1 \<Longrightarrow> distinct (concat (map (replicate n) ks))"
  by (simp add: concat_replicates)

section \<open>The invariant of a client-side table\<close>

definition core_ok :: "tbl \<Rightarrow> bool" where
  "core_ok t \<longleftrightarrow> \<not> b_server t \<and> b_pagination t \<and> size_ok (b_pageSize t) \<and>
     list_all size_ok (b_pageList t) \<and> 1 \<le> b_pageNumber t \<and>
     list_all (col_ok (state_key t)) (b_columns t) \<and> check_cols (b_columns t) \<le> 1 \<and>
     (has_radio t \<longrightarrow> b_singleSelect t) \<and>
     distinct (b_odata t) \<and> length (b_odata t) < 2 ^ 31 \<and>
     (\<forall>a \<in> set (b_odata t). a < b_next t \<and> tidy (state_key t) (b_heap t a))"

declare has_radio_def [simp]

definition linked :: "tbl \<Rightarrow> bool" where
  "linked t \<longleftrightarrow> set (b_data t) \<subseteq> set (b_odata t) \<and> distinct (b_data t) \<and> b_same t = (\<not> searched t) \<and>
     (\<not> searched t \<longrightarrow> b_data t = b_odata t)"

text \<open>
  What is on the screen: the pager is up to date, the body holds the rows of the current page, and
  the check boxes show the selection.
\<close>

definition screen_ok :: "tbl \<Rightarrow> bool" where
  "screen_ok t \<longleftrightarrow> initPagination t = t \<and> map fst (b_body t) = body_indices (body_range t) \<and>
     distinct (map cb_index (b_items t)) \<and>
     (\<forall>x \<in> set (b_items t). cb_index x \<in> set (body_indices (body_range t)) \<and>
        cb_checked x = marked (state_key t) (b_heap t (getData t ! nat (cb_index x))))"

definition table_ok :: "tbl \<Rightarrow> bool" where
  "table_ok t \<longleftrightarrow> core_ok t \<and> linked t \<and> screen_ok t"

lemma linked_getData: "linked t \<Longrightarrow> getData t = b_data t"
  by (simp add: linked_def getData_def)

lemma linked_paged: "core_ok t \<Longrightarrow> linked t \<Longrightarrow> paged t"
proof -
  assume c: "core_ok t" and l: "linked t"
  have "length (b_data t) \<le> length (b_odata t)"
    using l c distinct_card [of "b_data t"] distinct_card [of "b_odata t"]
      card_mono [of "set (b_odata t)" "set (b_data t)"] by (simp add: linked_def core_ok_def)
  then show ?thesis using c l by (simp add: paged_def row_count_def linked_getData core_ok_def)
qed

lemma linked_tidy: "core_ok t \<Longrightarrow> linked t \<Longrightarrow> a \<in> set (getData t) \<Longrightarrow> tidy (state_key t) (b_heap t a)"
  by (auto simp: linked_getData) (auto simp: linked_def core_ok_def)

lemma state_key_initPagination [simp]: "state_key (initPagination t) = state_key t"
  by (simp add: state_key_def)

lemma pageNumber_initPagination: "paged t \<Longrightarrow> b_pageNumber (initPagination t) = clip_page t"
  by (simp add: initPagination_client)

lemma core_ok_initPagination [simp]: "core_ok t \<Longrightarrow> linked t \<Longrightarrow> core_ok (initPagination t)"
  using linked_paged [of t] clip_page_pos [of t]
  by (simp add: core_ok_def pageNumber_initPagination)

lemma linked_initPagination [simp]: "linked (initPagination t) = linked t"
  by (simp add: linked_def)

lemma draw_pager_cong:
  "b_totalPages u = b_totalPages t \<Longrightarrow> b_pageNumber u = b_pageNumber t \<Longrightarrow> b_totalRows u = b_totalRows t \<Longrightarrow>
   b_pageList u = b_pageList t \<Longrightarrow> b_smartDisplay u = b_smartDisplay t \<Longrightarrow> row_count u = row_count t \<Longrightarrow>
   draw_pager u = draw_pager t"
  by (auto simp: draw_pager_def size_listed_def list_hidden_def row_count_def split_beta)

lemma page_range_cong:
  "b_pageNumber u = b_pageNumber t \<Longrightarrow> b_totalRows u = b_totalRows t \<Longrightarrow> page_range u z = page_range t z"
  by (cases z) (simp_all add: page_range_def split: option.split)

text \<open>A second \<open>initPagination\<close> changes nothing.\<close>

lemma initPagination_idem:
  assumes "paged t" and "1 \<le> b_pageNumber t"
  shows "initPagination (initPagination t) = initPagination t"
proof -
  let ?u = "initPagination t"
  let ?z = "if row_count t = 0 then b_pageSize t else PageOf (page_rows t)"
  let ?w = "\<lambda>x. x\<lparr>b_totalRows := Some (row_count t), b_totalPages := page_count t,
      b_ototalPages := (if row_count t = 0 then b_ototalPages x else page_count t),
      b_pageNumber := clip_page t\<rparr>"
  have clip: "clip_page ?u = clip_page t"
    using assms by (simp add: clip_page_def pageNumber_initPagination)
  note u = initPagination_client [OF assms(1)]
  have v: "initPagination ?u = (?w ?u)\<lparr>b_pageFrom := fst (page_range (?w ?u) ?z),
      b_pageTo := snd (page_range (?w ?u) ?z), b_pager := draw_pager (?w ?u)\<rparr>"
    by (rule initPagination_client [of ?u, unfolded page_measures_initPagination clip
          paged_initPagination initPagination_fields(9), OF assms(1)])
  have "page_range (?w ?u) ?z = page_range (?w t) ?z" by (rule page_range_cong) simp_all
  moreover have "draw_pager (?w ?u) = draw_pager (?w t)"
    by (rule draw_pager_cong) (simp_all add: row_count_def)
  moreover have "b_totalRows ?u = Some (row_count t)" "b_totalPages ?u = page_count t"
    "row_count t \<noteq> 0 \<Longrightarrow> b_ototalPages ?u = page_count t" "b_pageNumber ?u = clip_page t"
    "b_pageFrom ?u = fst (page_range (?w t) ?z)" "b_pageTo ?u = snd (page_range (?w t) ?z)"
    "b_pager ?u = draw_pager (?w t)"
    by (simp_all add: u)
  ultimately show ?thesis unfolding v by (intro tbl.equality) simp_all
qed

text \<open>An up-to-date pager only depends on the number of rows and the paging options.\<close>

lemma initPagination_fixed:
  assumes "paged t" and "initPagination t = t" and "paged u" and "row_count u = row_count t"
    and "b_pageNumber u = b_pageNumber t" "b_totalRows u = b_totalRows t" "b_totalPages u = b_totalPages t"
      "b_ototalPages u = b_ototalPages t" "b_pageFrom u = b_pageFrom t" "b_pageTo u = b_pageTo t"
      "b_pager u = b_pager t" "b_pageSize u = b_pageSize t" "b_pageList u = b_pageList t"
      "b_smartDisplay u = b_smartDisplay t"
  shows "initPagination u = u"
proof -
  have k: "page_rows u = page_rows t" using assms by (cases "b_pageSize t") (simp_all add: page_rows_def)
  have m: "page_count u = page_count t" using assms k by (simp add: page_count_def)
  have c: "clip_page u = clip_page t" using assms m by (simp add: clip_page_def)
  let ?z = "if row_count t = 0 then b_pageSize t else PageOf (page_rows t)"
  let ?w = "\<lambda>x. x\<lparr>b_totalRows := Some (row_count t), b_totalPages := page_count t,
      b_ototalPages := (if row_count t = 0 then b_ototalPages x else page_count t),
      b_pageNumber := clip_page t\<rparr>"
  have z: "page_range (?w u) ?z = page_range (?w t) ?z" by (rule page_range_cong) simp_all
  have d: "draw_pager (?w u) = draw_pager (?w t)"
    by (rule draw_pager_cong) (use assms in \<open>simp_all add: row_count_def\<close>)
  have t: "t = (?w t)\<lparr>b_pageFrom := fst (page_range (?w t) ?z), b_pageTo := snd (page_range (?w t) ?z),
      b_pager := draw_pager (?w t)\<rparr>" (is "_ = ?v")
    using initPagination_client [OF assms(1)] assms(2) by simp
  have "b_totalRows t = Some (row_count t)" "b_totalPages t = page_count t"
    "row_count t \<noteq> 0 \<Longrightarrow> page_count t = b_ototalPages t" "b_pageNumber t = clip_page t"
    "b_pageFrom t = fst (page_range (?w t) ?z)"
    "b_pageTo t = snd (page_range (?w t) ?z)" "b_pager t = draw_pager (?w t)"
    using arg_cong [OF t, of b_totalRows] arg_cong [OF t, of b_totalPages] arg_cong [OF t, of b_ototalPages]
      arg_cong [OF t, of b_pageNumber] arg_cong [OF t, of b_pageFrom] arg_cong [OF t, of b_pageTo]
      arg_cong [OF t, of b_pager] by simp_all
  then show ?thesis
    unfolding initPagination_client [OF assms(3), unfolded assms(4,12) k m c] z d
    using assms(5-11) by (intro tbl.equality) simp_all
qed

text \<open>Drawing the body changes only the screen and how the marks are written.\<close>

definition redrawn :: "tbl \<Rightarrow> tbl \<Rightarrow> bool" where
  "redrawn t u \<longleftrightarrow> (\<exists>evs h body boxes all. same_rows (state_key t) (b_heap t) h \<and>
     u = t\<lparr>b_events := evs, b_heap := h, b_body := body, b_items := boxes, b_selectAll := all\<rparr>)"

lemma redrawn_fields:
  assumes "redrawn t u"
  shows "b_data u = b_data t" "b_odata u = b_odata t" "b_same u = b_same t" "b_columns u = b_columns t"
    "b_stateField u = b_stateField t" "b_pageNumber u = b_pageNumber t" "b_next u = b_next t"
    "b_searchText u = b_searchText t" "b_filterColumns u = b_filterColumns t"
    "b_pageSize u = b_pageSize t" "b_pager u = b_pager t" "state_key u = state_key t"
    "getData u = getData t" "searched u = searched t" "linked u = linked t"
    "same_rows (state_key t) (b_heap t) (b_heap u)"
  using assms by (auto simp: redrawn_def state_key_def linked_def)

lemma redrawn_options: "redrawn t u \<Longrightarrow> b_maintainSelected u = b_maintainSelected t"
    "redrawn t u \<Longrightarrow> b_strictSearch u = b_strictSearch t"
  by (auto simp: redrawn_def)

lemma initPagination_screen:
  assumes "paged t"
  shows "initPagination (t\<lparr>b_events := e, b_heap := h, b_body := b, b_items := i, b_selectAll := a\<rparr>) =
     (initPagination t)\<lparr>b_events := e, b_heap := h, b_body := b, b_items := i, b_selectAll := a\<rparr>"
    (is "initPagination ?u = _")
proof -
  have n: "row_count ?u = row_count t" by (simp add: row_count_def)
  have k: "page_rows ?u = page_rows t" by (cases "b_pageSize t") (simp_all add: page_rows_def n)
  have m: "page_count ?u = page_count t" by (simp add: page_count_def n k)
  have c: "clip_page ?u = clip_page t" by (simp add: clip_page_def m)
  have p: "paged ?u" using assms by (simp add: paged_def n)
  let ?z = "if row_count t = 0 then b_pageSize t else PageOf (page_rows t)"
  let ?w = "\<lambda>x. x\<lparr>b_totalRows := Some (row_count t), b_totalPages := page_count t,
      b_ototalPages := (if row_count t = 0 then b_ototalPages x else page_count t),
      b_pageNumber := clip_page t\<rparr>"
  have z: "b_pageSize ?u = b_pageSize t" by simp
  have "page_range (?w ?u) ?z = page_range (?w t) ?z" by (rule page_range_cong) simp_all
  moreover have "draw_pager (?w ?u) = draw_pager (?w t)" by (rule draw_pager_cong) (simp_all add: row_count_def)
  ultimately show ?thesis
    unfolding initPagination_client [OF p, unfolded n k m c z] initPagination_client [OF assms]
    by (intro tbl.equality) simp_all
qed

lemma body_range_screen [simp]:
  "body_range (t\<lparr>b_events := e, b_heap := h, b_body := b, b_items := i, b_selectAll := a\<rparr>) = body_range t"
  by (simp add: body_range_def)

lemma initBody_drawn:
  assumes "list_all (col_ok (state_key t)) (b_columns t)" and "paged t"
    and "\<forall>a \<in> set (getData t). tidy (state_key t) (b_heap t a)"
    and "\<forall>k \<in> set (body_indices (body_range t)). 0 \<le> k \<and> k < row_count t"
  obtains evs h body boxes all where
    "initBody t = (None, t\<lparr>b_events := evs, b_heap := h, b_body := body, b_items := boxes, b_selectAll := all\<rparr>)"
    "map fst body = body_indices (body_range t)" "same_rows (state_key t) (b_heap t) h"
    "\<forall>a \<in> set (getData t). tidy (state_key t) (h a)" "\<forall>a. a \<notin> set (getData t) \<longrightarrow> h a = b_heap t a"
    "\<forall>x \<in> set boxes. cb_index x \<in> set (body_indices (body_range t)) \<and>
       cb_checked x = marked (state_key t) (b_heap t (getData t ! nat (cb_index x)))"
    "map cb_index boxes = concat (map (replicate (check_cols (b_columns t))) (body_indices (body_range t)))"
proof -
  let ?t = "t\<lparr>b_events := b_events t @ [''pre-body'']\<rparr>"
  from render_rows_ok [OF assms(1,3), of "body_indices (body_range t)"] assms(4)
  obtain h body boxes where r: "render_rows (b_columns t) (state_key t) (getData t)
       (body_indices (body_range t)) (b_heap t) = (None, h, body, boxes)"
    and rest: "map fst body = body_indices (body_range t)" "same_rows (state_key t) (b_heap t) h"
      "\<forall>a \<in> set (getData t). tidy (state_key t) (h a)" "\<forall>a. a \<notin> set (getData t) \<longrightarrow> h a = b_heap t a"
      "\<forall>x \<in> set boxes. cb_index x \<in> set (body_indices (body_range t)) \<and>
         cb_checked x = marked (state_key t) (b_heap t (getData t ! nat (cb_index x)))"
      "map cb_index boxes = concat (map (replicate (check_cols (b_columns t))) (body_indices (body_range t)))"
    unfolding row_count_def by blast
  have range: "body_range t = (b_pageFrom t, b_pageTo t)" "body_range ?t = (b_pageFrom t, b_pageTo t)"
    using assms(2) by (simp_all add: body_range_def paged_def)
  have "initBody t = (None, t\<lparr>b_events := b_events t @ [''pre-body'', ''post-body''], b_heap := h,
      b_body := body, b_items := boxes, b_selectAll := (boxes \<noteq> [] \<and> list_all cb_checked boxes)\<rparr>)"
    using r range
    by (simp add: initBody_def and_then_def trigger_def state_key_def Let_def resetView_def
        updateSelected_def)
  with rest that show ?thesis by blast
qed

lemma draw_ok:
  assumes "core_ok t" and "linked t"
  shows "\<exists>u. initBody (initPagination t) = (None, u) \<and> table_ok u \<and> redrawn (initPagination t) u"
proof -
  let ?v = "initPagination t"
  have p: "paged t" "1 \<le> b_pageNumber t" using assms linked_paged by (auto simp: core_ok_def)
  have v: "core_ok ?v" "linked ?v" using assms by simp_all
  have k: "\<forall>k \<in> set (body_indices (body_range ?v)). 0 \<le> k \<and> k < row_count ?v"
    using body_indices_valid [OF p] by simp
  have cols: "list_all (col_ok (state_key ?v)) (b_columns ?v)" using v(1) by (simp add: core_ok_def)
  have tidy: "\<forall>a \<in> set (getData ?v). tidy (state_key ?v) (b_heap ?v a)"
    using linked_tidy [OF v] by blast
  obtain evs h body boxes all where
    u: "initBody ?v = (None, ?v\<lparr>b_events := evs, b_heap := h, b_body := body, b_items := boxes, b_selectAll := all\<rparr>)"
      (is "_ = (None, ?u)") "map fst body = body_indices (body_range ?v)"
      "same_rows (state_key ?v) (b_heap ?v) h" "\<forall>a \<in> set (getData ?v). tidy (state_key ?v) (h a)"
      "\<forall>a. a \<notin> set (getData ?v) \<longrightarrow> h a = b_heap ?v a"
      "\<forall>x \<in> set boxes. cb_index x \<in> set (body_indices (body_range ?v)) \<and>
         cb_checked x = marked (state_key ?v) (b_heap ?v (getData ?v ! nat (cb_index x)))"
      "map cb_index boxes = concat (map (replicate (check_cols (b_columns ?v))) (body_indices (body_range ?v)))"
    by (rule initBody_drawn [OF cols _ tidy k]) (use p(1) in simp)
  have red: "redrawn ?v ?u" unfolding redrawn_def using u(3) by blast
  have key: "state_key ?u = state_key t" by (simp add: state_key_def)
  have "\<forall>a \<in> set (b_odata t). tidy (state_key t) (h a)"
    using assms(1) u(4,5) by (simp add: core_ok_def) (metis)
  then have "core_ok ?u" using v(1) key by (simp add: core_ok_def)
  moreover have "distinct (map cb_index boxes)"
    unfolding u(7) by (rule distinct_replicates)
      (use v(1) in \<open>simp_all add: core_ok_def body_indices_def split: prod.split option.split\<close>)
  then have "screen_ok ?u"
    using u(2,3,6) initPagination_idem [OF p] key p(1)
    by (simp add: screen_ok_def initPagination_screen same_rows_def)
  moreover have "linked ?u" using v(2) redrawn_fields(15) [OF red] by simp
  ultimately have "table_ok ?u" by (simp add: table_ok_def)
  with red u(1) show ?thesis by blast
qed

lemma search_rowsD: "a \<in> set (search_rows t c as) \<Longrightarrow> a \<in> set as"
  unfolding search_rows_def by (auto simp: in_set_enumerate_eq intro: nth_mem)

lemma search_rows_distinct: "distinct as \<Longrightarrow> distinct (search_rows t c as)"
  unfolding search_rows_def by (rule distinct_map_filter) simp

lemma to_lower_Nil [simp]: "to_lower s = [] \<longleftrightarrow> s = []"
  by (simp add: to_lower_def)

lemma initSearch_fields [simp]:
  "b_heap (initSearch t) = b_heap t" "b_odata (initSearch t) = b_odata t"
  "b_columns (initSearch t) = b_columns t" "b_stateField (initSearch t) = b_stateField t"
  "b_server (initSearch t) = b_server t" "b_pagination (initSearch t) = b_pagination t"
  "b_pageSize (initSearch t) = b_pageSize t" "b_pageList (initSearch t) = b_pageList t"
  "b_pageNumber (initSearch t) = b_pageNumber t" "b_next (initSearch t) = b_next t"
  "b_searchText (initSearch t) = b_searchText t" "b_filterColumns (initSearch t) = b_filterColumns t"
  "b_maintainSelected (initSearch t) = b_maintainSelected t"
  "b_singleSelect (initSearch t) = b_singleSelect t"
  by (simp_all add: initSearch_def Let_def)

lemma core_ok_initSearch [simp]: "core_ok (initSearch t) = core_ok t"
  by (simp add: core_ok_def state_key_def)

lemma linked_initSearch: "core_ok t \<Longrightarrow> linked (initSearch t)"
  using search_rows_distinct [of _ t]
  by (auto dest!: search_rowsD simp: core_ok_def linked_def initSearch_def searched_def Let_def split: option.split)

lemma redraw_ok:
  "core_ok t \<Longrightarrow> \<exists>u. redraw t = (None, u) \<and> table_ok u \<and> redrawn (initPagination (initSearch t)) u"
  unfolding redraw_def by (rule draw_ok) (simp_all add: linked_initSearch)

text \<open>Sorting permutes the rows, whatever the comparison.\<close>

definition sorts :: "env \<Rightarrow> bool" where
  "sorts E \<longleftrightarrow> (\<forall>c xs. mset (js_sort E c xs) = mset xs)"

definition joined :: "tbl \<Rightarrow> bool" where
  "joined t \<longleftrightarrow> set (b_data t) \<subseteq> set (b_odata t) \<and> (b_same t \<longrightarrow> b_data t = b_odata t)"

lemma linked_joined: "linked t \<Longrightarrow> joined t"
  by (auto simp: linked_def joined_def)

lemma set_data_perm:
  assumes "core_ok t" and "joined t" and "mset ds = mset (b_data t)"
  shows "core_ok (set_data ds t)" "linked t \<Longrightarrow> linked (set_data ds t)"
proof -
  have ds: "set ds = set (b_data t)" "length ds = length (b_data t)" "distinct ds = distinct (b_data t)"
    using assms(3) by (metis set_mset_mset, metis size_mset, metis mset_eq_imp_distinct_iff)
  show "core_ok (set_data ds t)" "linked t \<Longrightarrow> linked (set_data ds t)"
    using assms ds by (auto simp: core_ok_def joined_def linked_def set_data_def state_key_def)
qed

lemma getFieldIndex_Some: "getFieldIndex cs f = Some i \<Longrightarrow> i < length cs \<and> c_field (cs ! i) = f"
  by (induction cs arbitrary: i) (auto split: if_splits)

lemma initSort_ok:
  assumes "core_ok t" and "joined t" and "sorts E"
  shows "\<exists>ds. initSort E t = (None, set_data ds t) \<and> mset ds = mset (b_data t)"
proof -
  have self: "set_data (b_data t) t = t" using assms(2) by (auto simp: set_data_def joined_def)
  show ?thesis
  proof (cases "b_sortName t")
    case None
    then show ?thesis using self by (auto simp: initSort_def intro!: exI [of _ "b_data t"])
  next
    case (Some name)
    show ?thesis
    proof (cases "getFieldIndex (b_columns t) name")
      case None
      then show ?thesis using Some self by (auto simp: initSort_def intro!: exI [of _ "b_data t"])
    next
      case index: (Some e)
      let ?c = "b_columns t ! e"
      let ?key = "if c_sortName ?c = [] then name else c_sortName ?c"
      have e: "e < length (b_columns t) \<and> c_field ?c = name"
        using index by (rule getFieldIndex_Some)
      then have "col_ok (state_key t) ?c" using assms(1) by (simp add: core_ok_def list_all_length)
      then have "CHR ''.'' \<notin> set ?key" using e by (auto simp: col_ok_def)
      then have "getItemField (b_heap t a) ?key \<noteq> None" if "a \<in> set (b_data t)" for a
        using getItemField_flat [of _ "state_key t" "b_heap t a"] that assms(1,2)
        by (auto simp: core_ok_def joined_def)
      then show ?thesis
        using Some index assms(3) by (auto simp: initSort_def Let_def sorts_def)
    qed
  qed
qed

section \<open>Events of a client-side table\<close>

datatype t_event =
    PageFirst | PagePre | PageNext | PageLast
  | PageNumber int
  | PageSize page_size
  | SearchFor string
  | SortBy string
  | ItemClick nat
  | AllClick bool
  | LoadRows "jsval list"
  | RemoveRows string jsval

fun t_fire :: "env \<Rightarrow> t_event \<Rightarrow> act" where
  "t_fire E PageFirst = onPageFirst"
| "t_fire E PagePre = onPagePre"
| "t_fire E PageNext = onPageNext"
| "t_fire E PageLast = onPageLast"
| "t_fire E (PageNumber n) = onPageNumber n"
| "t_fire E (PageSize z) = onPageListChange z"
| "t_fire E (SearchFor s) = onSearch s"
| "t_fire E (SortBy f) = onSort E f"
| "t_fire E (ItemClick j) = click_item j"
| "t_fire E (AllClick b) = checkAll_to b"
| "t_fire E (LoadRows rs) = load E (JArr rs)"
| "t_fire E (RemoveRows f values) = remove_rows f values"

text \<open>
  When an event can happen. The pager's buttons count as possible only while they do not look
  disabled; rows to be loaded are objects without a foreign value in the selection property.
\<close>

fun t_possible :: "t_event \<Rightarrow> tbl \<Rightarrow> bool" where
  "t_possible PageFirst t = (\<not> pg_first_off (b_pager t))"
| "t_possible PagePre t = (\<not> pg_first_off (b_pager t))"
| "t_possible PageNext t = (\<not> pg_last_off (b_pager t))"
| "t_possible PageLast t = (\<not> pg_last_off (b_pager t))"
| "t_possible (PageNumber n) t = (n \<in> set (pg_numbers (b_pager t)))"
| "t_possible (PageSize z) t = (z \<in> set (pg_sizes (b_pager t)))"
| "t_possible (ItemClick j) t = (j < length (b_items t) \<and> cb_enabled (b_items t ! j))"
| "t_possible (LoadRows rs) t = (list_all (tidy (state_key t)) rs \<and> length rs < 2 ^ 31)"
| "t_possible e t = True"

inductive t_steps :: "env \<Rightarrow> tbl \<Rightarrow> (t_event \<times> js_error option) list \<Rightarrow> tbl \<Rightarrow> bool" for E :: env where
  t_none: "t_steps E t [] t"
| t_more: "t_steps E t es u \<Longrightarrow> t_possible e u \<Longrightarrow> t_fire E e u = (r, v) \<Longrightarrow>
    t_steps E t (es @ [(e, r)]) v"

subsection \<open>Paging\<close>

lemma core_ok_set_states:
  assumes "core_ok t"
  shows "core_ok (set_states as (JBool b) t)"
  using assms by (auto simp: core_ok_def set_states_def state_key_def)

lemma linked_set_states [simp]: "linked (set_states as v t) = linked t"
  by (simp add: linked_def set_states_def searched_def)

lemma core_ok_screen [simp]:
  "core_ok (t\<lparr>b_selectAll := x\<rparr>) = core_ok t" "core_ok (t\<lparr>b_items := y\<rparr>) = core_ok t"
  "core_ok (t\<lparr>b_events := z\<rparr>) = core_ok t"
  by (simp_all add: core_ok_def state_key_def)

lemma linked_screen [simp]:
  "linked (t\<lparr>b_selectAll := x\<rparr>) = linked t" "linked (t\<lparr>b_items := y\<rparr>) = linked t"
  "linked (t\<lparr>b_events := z\<rparr>) = linked t" "linked (t\<lparr>b_pageNumber := n\<rparr>) = linked t"
  "linked (t\<lparr>b_pageSize := s\<rparr>) = linked t"
  by (simp_all add: linked_def)

lemma resetRows_ok: "core_ok t \<Longrightarrow> linked t \<Longrightarrow> core_ok (resetRows t) \<and> linked (resetRows t)"
  by (simp add: resetRows_def core_ok_set_states)

text \<open>Changing marks and check boxes alike keeps the invariant.\<close>

lemma table_ok_marks:
  assumes "table_ok t" and "\<forall>a \<in> set (b_odata t). tidy (state_key t) (h a)"
    and "map cb_index boxes = map cb_index (b_items t)"
    and "\<forall>x \<in> set boxes. cb_checked x = marked (state_key t) (h (getData t ! nat (cb_index x)))"
  shows "table_ok (t\<lparr>b_events := evs, b_heap := h, b_items := boxes, b_selectAll := all\<rparr>)" (is "table_ok ?u")
proof -
  have t: "core_ok t" "linked t" "screen_ok t" using assms(1) by (simp_all add: table_ok_def)
  have key: "state_key ?u = state_key t" "getData ?u = getData t" by (simp_all add: state_key_def)
  have "core_ok ?u" using t(1) assms(2) by (simp add: core_ok_def key)
  moreover have "linked ?u" using t(2) by (simp add: linked_def)
  moreover have "initPagination ?u = ?u"
    using initPagination_screen [OF linked_paged [OF t(1,2)], where e = evs and h = h and
        b = "b_body t" and i = boxes and a = all] t(3) by (simp add: screen_ok_def)
  moreover have "cb_index ` set boxes = cb_index ` set (b_items t)"
    using assms(3) by (metis set_map)
  then have "cb_index x \<in> set (body_indices (body_range t))" if "x \<in> set boxes" for x
    using t(3) that unfolding screen_ok_def by (metis (no_types, lifting) imageE imageI)
  moreover have "body_range ?u = body_range t" by (simp add: body_range_def)
  ultimately show ?thesis
    using t(3) assms(3,4) by (simp add: table_ok_def screen_ok_def key)
qed

lemma table_ok_events:
  assumes "table_ok t"
  shows "table_ok (t\<lparr>b_events := evs\<rparr>)"
proof -
  have "table_ok (t\<lparr>b_events := evs, b_heap := b_heap t, b_items := b_items t, b_selectAll := b_selectAll t\<rparr>)"
    by (rule table_ok_marks [OF assms]) (use assms in \<open>auto simp: table_ok_def screen_ok_def core_ok_def\<close>)
  then show ?thesis by simp
qed

definition same_content :: "tbl \<Rightarrow> tbl \<Rightarrow> bool" where
  "same_content t u \<longleftrightarrow> b_data u = b_data t \<and> b_odata u = b_odata t \<and> b_searchText u = b_searchText t \<and>
     b_filterColumns u = b_filterColumns t \<and> b_columns u = b_columns t \<and> b_stateField u = b_stateField t \<and>
     b_sortName u = b_sortName t \<and> b_strictSearch u = b_strictSearch t \<and> b_maintainSelected u = b_maintainSelected t \<and>
     (\<forall>a. erase (state_key t) (b_heap u a) = erase (state_key t) (b_heap t a))"

lemma redrawn_same_content: "redrawn t u \<Longrightarrow> same_content t u"
  by (auto simp: redrawn_def same_content_def same_rows_def)

lemma same_content_initPagination [simp]: "same_content t (initPagination t)"
  by (simp add: same_content_def)

lemma same_content_resetRows [simp]: "same_content t (resetRows t)"
  by (simp add: same_content_def resetRows_def set_states_def)

lemma same_content_key: "same_content t u \<Longrightarrow> state_key u = state_key t"
  by (simp add: same_content_def state_key_def)

lemma same_content_trans: "same_content t u \<Longrightarrow> same_content u v \<Longrightarrow> same_content t v"
  using same_content_key [of t u] by (simp add: same_content_def)

lemma same_content_events: "same_content t (u\<lparr>b_events := evs\<rparr>) = same_content t u"
  by (simp add: same_content_def)

lemma clip_page_resetRows: "clip_page (resetRows t) = clip_page t"
proof -
  have f: "b_pageNumber (resetRows t) = b_pageNumber t" "b_pageSize (resetRows t) = b_pageSize t"
    by (simp_all add: resetRows_def set_states_def)
  have "getData (resetRows t) = getData t" by (simp add: resetRows_def set_states_def)
  then have n: "row_count (resetRows t) = row_count t" by (simp add: row_count_def)
  then have "page_rows (resetRows t) = page_rows t" using f by (cases "b_pageSize t") (simp_all add: page_rows_def)
  with n have "page_count (resetRows t) = page_count t" by (simp add: page_count_def)
  with f show ?thesis by (simp add: clip_page_def)
qed

lemma updatePagination_ok:
  assumes "core_ok t" and "linked t"
  shows "\<exists>u. updatePagination False t = (None, u) \<and> table_ok u \<and> same_content t u \<and> b_pageNumber u = clip_page t \<and>
    (\<not> b_maintainSelected t \<and> b_stateField t \<noteq> None \<and> b_stateField t \<noteq> Some [] \<longrightarrow>
       (\<forall>a \<in> set (b_data t). \<not> marked (state_key t) (b_heap u a))) \<and>
    (b_maintainSelected t \<or> b_stateField t = None \<or> b_stateField t = Some [] \<longrightarrow>
       (\<forall>a. marked (state_key t) (b_heap u a) = marked (state_key t) (b_heap t a)))"
proof -
  let ?t = "if b_maintainSelected t then t else resetRows t"
  have t: "core_ok ?t" "linked ?t" using assms resetRows_ok by auto
  then obtain u where u: "initBody (initPagination ?t) = (None, u)" "table_ok u" "redrawn (initPagination ?t) u"
    using draw_ok by blast
  have same: "same_content t ?t" by (auto simp: same_content_def resetRows_def set_states_def)
  have content: "same_content t u"
    using same_content_trans [OF same_content_trans [OF same same_content_initPagination] redrawn_same_content [OF u(3)]] .
  have page: "b_pageNumber u = clip_page t"
    using redrawn_fields(6) [OF u(3)] pageNumber_initPagination [OF linked_paged [OF t]]
    by (simp add: clip_page_resetRows split: if_splits)
  have marks: "marked (state_key t) (b_heap u a) = marked (state_key t) (b_heap ?t a)" for a
    using redrawn_fields(16) [OF u(3)] same_content_key [OF same] by (simp add: same_rows_def)
  have tidy: "a \<in> set (b_data t) \<Longrightarrow> tidy (state_key t) (b_heap t a)" for a
    using linked_tidy [OF assms] linked_getData [OF assms(2)] by simp
  have "updatePagination False t = (None, u\<lparr>b_events := b_events u @ [''page-change'']\<rparr>)"
    using t u(1) by (simp add: updatePagination_def Let_def and_then_def trigger_def core_ok_def)
  moreover have "\<not> marked (state_key t) (b_heap u a)"
    if "\<not> b_maintainSelected t \<and> b_stateField t \<noteq> None \<and> b_stateField t \<noteq> Some []" "a \<in> set (b_data t)" for a
    using that tidy by (auto simp: marks resetRows_def set_states_def)
  moreover have "marked (state_key t) (b_heap u a) = marked (state_key t) (b_heap t a)"
    if "b_maintainSelected t \<or> b_stateField t = None \<or> b_stateField t = Some []" for a
    using that by (auto simp: marks resetRows_def)
  ultimately show ?thesis
    using u(2) content page by (simp add: table_ok_events same_content_events)
qed

lemma core_ok_page [simp]: "core_ok t \<Longrightarrow> 1 \<le> n \<Longrightarrow> core_ok (t\<lparr>b_pageNumber := n\<rparr>)"
  by (simp add: core_ok_def state_key_def)

lemma core_ok_size [simp]: "core_ok t \<Longrightarrow> size_ok z \<Longrightarrow> core_ok (t\<lparr>b_pageSize := z\<rparr>)"
  by (simp add: core_ok_def state_key_def)

text \<open>What the drawn pager says about the page number.\<close>

lemma pager_drawn:
  assumes "table_ok t"
  shows "b_pager t = draw_pager t" "b_totalPages t = page_count t" "0 \<le> page_count t"
    "0 < page_count t \<Longrightarrow> b_pageNumber t \<le> page_count t" "1 \<le> b_pageNumber t"
proof -
  have t: "core_ok t" "linked t" "initPagination t = t"
    using assms by (simp_all add: table_ok_def screen_ok_def)
  note p = linked_paged [OF t(1,2)]
  have "b_pager (initPagination t) = draw_pager (initPagination t)"
    "b_totalPages (initPagination t) = page_count t" "b_pageNumber (initPagination t) = clip_page t"
    using p by (simp_all add: initPagination_client draw_pager_def size_listed_def list_hidden_def)
  then show "b_pager t = draw_pager t" "b_totalPages t = page_count t"
      "0 < page_count t \<Longrightarrow> b_pageNumber t \<le> page_count t"
    using clip_page_le [of t] by (simp_all add: t(3))
  show "0 \<le> page_count t" "1 \<le> b_pageNumber t"
    using page_count_nonneg [OF p] t(1) by (simp_all add: core_ok_def)
qed

lemma page_numbers_positive:
  assumes "table_ok t" and "n \<in> set (pg_numbers (b_pager t))"
  shows "1 \<le> n" and "n \<le> page_count t"
proof -
  obtain a b where w: "page_window (page_count t) (b_pageNumber t) = (a, b)" by fastforce
  then have n: "a \<le> n" "n \<le> b"
    using assms(2) pager_drawn(1,2) [OF assms(1)] by (simp_all add: draw_pager_def)
  have "1 \<le> a \<and> b \<le> page_count t"
  proof (cases "page_count t < 5")
    case True
    then show ?thesis using w by (auto simp: page_window_def)
  next
    case False
    then show ?thesis
      using page_window_bounds [OF _ _ w] pager_drawn(4,5) [OF assms(1)] by auto
  qed
  with n show "1 \<le> n" "n \<le> page_count t" by simp_all
qed

lemma page_sizes_ok:
  assumes "table_ok t" and "z \<in> set (pg_sizes (b_pager t))"
  shows "size_ok z"
proof -
  have "z \<in> snd ` set (enumerate 0 (b_pageList t))"
    using assms pager_drawn(1) [OF assms(1)] by (auto simp: draw_pager_def split_beta)
  then have "z \<in> set (b_pageList t)" by (simp flip: set_map)
  then show ?thesis using assms(1) by (auto simp: table_ok_def core_ok_def list_all_iff)
qed

lemmas table_ok_parts = table_ok_def [THEN iffD1, THEN conjunct1]
  table_ok_def [THEN iffD1, THEN conjunct2, THEN conjunct1]

lemma page_event_ok:
  assumes "table_ok t" and "t_possible e t"
    and "e \<in> {PageFirst, PagePre, PageNext, PageLast} \<union> range PageNumber \<union> range PageSize"
  shows "\<exists>u. t_fire E e t = (None, u) \<and> table_ok u"
proof -
  note t = table_ok_parts [OF assms(1)] and d = pager_drawn [OF assms(1)]
  have go: "\<exists>u. updatePagination False (t\<lparr>b_pageNumber := n\<rparr>) = (None, u) \<and> table_ok u" if "1 \<le> n" for n
    using updatePagination_ok [of "t\<lparr>b_pageNumber := n\<rparr>"] t that by auto
  have off: "pg_first_off (b_pager t) = (b_pageNumber t \<le> 1)" "pg_last_off (b_pager t) = (page_count t \<le> b_pageNumber t)"
    using d(1,2) by (simp_all add: draw_pager_def split_beta)
  show ?thesis
  proof (cases e)
    case (PageNumber n)
    then show ?thesis
      using go [of n] page_numbers_positive [OF assms(1)] assms(1,2) by (simp add: onPageNumber_def)
  next
    case (PageSize z)
    then show ?thesis
      using updatePagination_ok [of "t\<lparr>b_pageSize := z\<rparr>"] page_sizes_ok [OF assms(1)] assms(2) t
      by (auto simp: onPageListChange_def)
  qed (use assms(2,3) off d go [of 1] go [of "b_pageNumber t - 1"] go [of "b_pageNumber t + 1"]
         go [of "page_count t"] in
       \<open>auto simp: onPageFirst_def onPagePre_def onPageNext_def onPageLast_def\<close>)
qed

subsection \<open>Searching, sorting and changing the rows\<close>

text \<open>What a search does: the rows that match, page one, and only visible rows unmarked.\<close>

lemma onSearch_ok:
  assumes "table_ok t" and "b_searchText t \<noteq> Some (trim s)"
  defines "v \<equiv> initSearch (t\<lparr>b_searchText := Some (trim s), b_pageNumber := 1\<rparr>)"
  shows "\<exists>u. onSearch s t = (None, u) \<and> table_ok u \<and> same_content v u \<and> b_pageNumber u = 1 \<and>
    (\<not> b_maintainSelected t \<and> b_stateField t \<noteq> None \<and> b_stateField t \<noteq> Some [] \<longrightarrow>
       (\<forall>a \<in> set (b_data v). \<not> marked (state_key t) (b_heap u a)))"
proof -
  let ?t = "t\<lparr>b_searchText := Some (trim s), b_pageNumber := 1\<rparr>"
  have c: "core_ok ?t" using table_ok_parts(1) [OF assms(1)] by (simp add: core_ok_def state_key_def)
  have key: "state_key v = state_key t" by (simp add: v_def state_key_def)
  obtain u where u: "updatePagination False v = (None, u)" "table_ok u" "same_content v u" "b_pageNumber u = clip_page v"
    "\<not> b_maintainSelected t \<and> b_stateField t \<noteq> None \<and> b_stateField t \<noteq> Some [] \<longrightarrow>
       (\<forall>a \<in> set (b_data v). \<not> marked (state_key t) (b_heap u a))"
    using updatePagination_ok [of v] linked_initSearch [OF c] c key unfolding v_def by auto
  have "page_count v \<noteq> 0 \<Longrightarrow> 1 \<le> page_count v"
    using page_count_nonneg [OF linked_paged [of v]] linked_initSearch [OF c] c by (simp add: v_def)
  then have "clip_page v = 1" by (auto simp: clip_page_def v_def)
  with u have "table_ok (u\<lparr>b_events := b_events u @ [''search'']\<rparr>)"
    "onSearch s t = (None, u\<lparr>b_events := b_events u @ [''search'']\<rparr>)" "b_pageNumber u = 1"
    using assms(2) by (simp_all add: onSearch_def Let_def and_then_def trigger_def table_ok_events v_def)
  with u(3,5) show ?thesis by (simp add: same_content_events)
qed

lemma search_event_ok:
  assumes "table_ok t"
  shows "\<exists>u. t_fire E (SearchFor s) t = (None, u) \<and> table_ok u"
  using onSearch_ok [OF assms, of s] assms by (cases "b_searchText t = Some (trim s)") (auto simp: onSearch_def)

lemma onSort_ok:
  assumes "table_ok t" and "sorts E"
  shows "\<exists>u. onSort E f t = (None, u) \<and> table_ok u \<and> b_sortName u = Some f \<and>
    mset (b_data u) = mset (b_data t) \<and> (searched t \<longrightarrow> b_odata u = b_odata t) \<and>
    b_searchText u = b_searchText t \<and> b_filterColumns u = b_filterColumns t"
proof -
  have t: "core_ok t" "linked t" "initPagination t = t"
    using assms(1) by (simp_all add: table_ok_def screen_ok_def)
  note p = linked_paged [OF t(1,2)]
  let ?P = "\<lambda>u. table_ok u \<and> b_sortName u = Some f \<and>
    mset (b_data u) = mset (b_data t) \<and> (searched t \<longrightarrow> b_odata u = b_odata t) \<and>
    b_searchText u = b_searchText t \<and> b_filterColumns u = b_filterColumns t"
  let ?v = "\<lambda>x y z. t\<lparr>b_sortName := Some f, b_sortOrder := x, b_events := y, b_orders := z\<rparr>"
  have "\<exists>u. and_then (initSort E) initBody (?v x y z) = (None, u) \<and> ?P u" for x y z
  proof -
    have v: "core_ok (?v x y z)" "linked (?v x y z)"
      using t by (simp_all add: core_ok_def linked_def state_key_def)
    obtain ds where ds: "initSort E (?v x y z) = (None, set_data ds (?v x y z))" "mset ds = mset (b_data t)"
      using initSort_ok [OF v(1) linked_joined [OF v(2)] assms(2)] by auto
    let ?w = "set_data ds (?v x y z)"
    have w: "core_ok ?w" "linked ?w" using set_data_perm [OF v(1) linked_joined] v(2) ds(2) by simp_all
    have "length ds = length (b_data t)" using ds(2) by (metis size_mset)
    then have n: "row_count ?w = row_count t"
      by (simp add: row_count_def linked_getData [OF w(2)] linked_getData [OF t(2)]) (simp add: set_data_def)
    have "initPagination ?w = ?w"
      by (rule initPagination_fixed [OF p t(3) linked_paged [OF w] n]) (simp_all add: set_data_def)
    then obtain u where u: "initBody ?w = (None, u)" "table_ok u" "redrawn ?w u" using draw_ok [OF w] by auto
    have "same_content ?w u" using redrawn_same_content [OF u(3)] .
    then have "?P u" using u(2) ds(2) t(2) by (auto simp: same_content_def set_data_def linked_def)
    then show ?thesis using ds(1) u(1) by (simp add: and_then_def)
  qed
  then show ?thesis using t(1) by (simp add: onSort_def Let_def core_ok_def)
qed

lemma sort_event_ok:
  "table_ok t \<Longrightarrow> sorts E \<Longrightarrow> \<exists>u. t_fire E (SortBy f) t = (None, u) \<and> table_ok u"
  using onSort_ok [of t E f] by auto

lemma remove_event_ok:
  assumes "table_ok t"
  shows "\<exists>u. t_fire E (RemoveRows f values) t = (None, u) \<and> table_ok u"
proof -
  let ?ds = "filter (\<lambda>a. \<not> doomed t f values a) (b_odata t)"
  note t = table_ok_parts [OF assms]
  show ?thesis
  proof (cases "length ?ds = length (b_odata t)")
    case True
    then have "?ds = b_odata t"
      using length_filter_less [of _ "b_odata t" "\<lambda>a. \<not> doomed t f values a"]
      by (intro filter_True) fastforce
    then have "set_odata ?ds t = t" using t(2) by (auto simp: set_odata_def linked_def)
    then show ?thesis using True assms by (simp add: remove_rows_def remove_loop_filter Let_def)
  next
    case False
    have "core_ok (set_odata ?ds t)"
      using t(1) le_less_trans [OF length_filter_le] by (auto simp: core_ok_def set_odata_def state_key_def)
    from redraw_ok [OF this] False show ?thesis
      by (auto simp: remove_rows_def remove_loop_filter Let_def)
  qed
qed

lemma load_event_ok:
  assumes "table_ok t" and "sorts E" and "t_possible (LoadRows rs) t"
  shows "\<exists>u. t_fire E (LoadRows rs) t = (None, u) \<and> table_ok u"
proof -
  note t = table_ok_parts [OF assms(1)]
  obtain ds u where u: "alloc rs t = (ds, u)" by fastforce
  let ?v = "u\<lparr>b_data := ds, b_odata := ds, b_same := True\<rparr>"
  have rows: "tidy (state_key t) (rs ! i)" if "i < length rs" for i
    using assms(3) that by (simp add: list_all_length)
  have v: "core_ok ?v" "joined ?v"
    using t(1) u assms(3) rows by (auto simp: alloc_def core_ok_def joined_def state_key_def)
  obtain as where as: "initSort E ?v = (None, set_data as ?v)" "mset as = mset (b_data ?v)"
    using initSort_ok [OF v assms(2)] by blast
  have "core_ok (set_data as ?v)" using set_data_perm [OF v as(2)] by blast
  from redraw_ok [OF this] obtain w where "redraw (set_data as ?v) = (None, w)" "table_ok w" by blast
  moreover have "\<not> b_server t" "\<not> b_server u" using t(1) u by (auto simp: core_ok_def alloc_def)
  ultimately show ?thesis
    using as(1) u by (simp add: load_def load_rows_def initData_def and_then_def Let_def)
qed

subsection \<open>Selecting\<close>

definition puts :: "(int \<times> bool) list \<Rightarrow> act" where
  "puts ps = all_do (map (\<lambda>(k, b). put_state k b) ps)"

lemma puts_simps [simp]:
  "puts [] t = (None, t)"
  "puts ((k, b) # ps) t = and_then (put_state k b) (puts ps) t"
  by (simp_all add: puts_def all_do_def ok_def)

text \<open>The writes of marks by row index: exactly the named rows get the new marks.\<close>

lemma puts_ok:
  assumes "\<forall>(k, b) \<in> set ps. 0 \<le> k \<and> k < int (length d)" and "distinct (map fst ps)"
    and "distinct d" and "\<forall>a \<in> set d. tidy key (g a)"
    and "b_data t = d" and "state_key t = key" and "b_heap t = g"
  shows "\<exists>h. puts ps t = (None, t\<lparr>b_heap := h\<rparr>) \<and> (\<forall>a \<in> set d. tidy key (h a)) \<and>
    (\<forall>a. a \<notin> set d \<longrightarrow> h a = g a) \<and> (\<forall>a. erase key (h a) = erase key (g a)) \<and>
    (\<forall>i < length d. marked key (h (d ! i)) =
       (case map_of ps (int i) of None \<Rightarrow> marked key (g (d ! i)) | Some b \<Rightarrow> b))"
  using assms
proof (induction ps arbitrary: t g)
  case Nil
  show ?case by (rule exI [of _ g]) (use Nil.prems in auto)
next
  case (Cons p ps)
  obtain k b where p: "p = (k, b)" by fastforce
  let ?a = "d ! nat k"
  have k: "0 \<le> k" "k < int (length d)" using Cons.prems(1) p by auto
  then have a: "?a \<in> set d" "row_at d k = Some ?a" by (auto simp: row_at_def)
  let ?h = "\<lambda>a. if a = ?a then set_prop (g a) key (JBool b) else g a"
  let ?t = "t\<lparr>b_heap := ?h\<rparr>"
  have put: "put_state k b t = (None, ?t)"
    using a Cons.prems(5-7) by (simp add: put_state_def set_states_def cong: if_cong)
  have "state_key ?t = key" using Cons.prems(6) by (simp add: state_key_def)
  moreover have "\<forall>(k, b) \<in> set ps. 0 \<le> k \<and> k < int (length d)" "distinct (map fst ps)"
      "\<forall>a \<in> set d. tidy key (?h a)" "b_data ?t = d" "b_heap ?t = ?h"
    using Cons.prems by auto
  ultimately obtain h where h: "puts ps ?t = (None, ?t\<lparr>b_heap := h\<rparr>)"
      "\<forall>a \<in> set d. tidy key (h a)" "\<forall>a. a \<notin> set d \<longrightarrow> h a = ?h a" "\<forall>a. erase key (h a) = erase key (?h a)"
      "\<forall>i < length d. marked key (h (d ! i)) =
         (case map_of ps (int i) of None \<Rightarrow> marked key (?h (d ! i)) | Some b \<Rightarrow> b)"
    using Cons.IH [of ?h ?t] Cons.prems(3) by blast
  have other: "map_of ps k = None" using Cons.prems(2) p by (simp add: map_of_eq_None_iff)
  have m: "marked key (?h (d ! i)) = (if int i = k then b else marked key (g (d ! i)))" if "i < length d" for i
    using that k Cons.prems(3,4) by (auto simp: nth_eq_iff_index_eq)
  have "marked key (h (d ! i)) =
      (case map_of (p # ps) (int i) of None \<Rightarrow> marked key (g (d ! i)) | Some b \<Rightarrow> b)" if "i < length d" for i
    unfolding h(5) [rule_format, OF that] m [OF that] using other p by (simp split: option.split)
  moreover have "\<forall>a. erase key (h a) = erase key (g a)" using h(4) by simp
  moreover have "\<forall>a. a \<notin> set d \<longrightarrow> h a = g a" using h(3) a(1) by auto
  ultimately show ?case
    using h(1,2) put p by (intro exI [of _ h]) (simp add: and_then_def)
qed

text \<open>The check boxes on the screen stand for rows of the current data.\<close>

lemma item_index:
  assumes "table_ok t" and "x \<in> set (b_items t)"
  shows "0 \<le> cb_index x" "cb_index x < int (length (b_data t))"
proof -
  have t: "core_ok t" "linked t" "initPagination t = t"
    using assms(1) by (simp_all add: table_ok_def screen_ok_def)
  have "cb_index x \<in> set (body_indices (body_range (initPagination t)))"
    using assms by (simp add: table_ok_def screen_ok_def)
  from body_indices_valid [OF linked_paged [OF t(1,2)] _ this] t(1,2)
  show "0 \<le> cb_index x" "cb_index x < int (length (b_data t))"
    by (simp_all add: core_ok_def row_count_def linked_getData)
qed

text \<open>The end of a click: the marks \<open>ps\<close> are written and the check boxes redrawn to match.\<close>

lemma click_end_ok:
  assumes t: "table_ok t" and key: "state_key v = state_key t" and data: "b_data v = b_data t"
    and tidy: "\<forall>a \<in> set (b_odata t). tidy (state_key t) (b_heap v a)"
    and ps: "\<forall>(k, b) \<in> set ps. 0 \<le> k \<and> k < int (length (b_data t))" "distinct (map fst ps)"
    and boxes: "map cb_index boxes = map cb_index (b_items t)"
      "\<forall>x \<in> set boxes. cb_checked x = (case map_of ps (cb_index x) of
         None \<Rightarrow> marked (state_key t) (b_heap v (b_data t ! nat (cb_index x))) | Some b \<Rightarrow> b)"
  shows "\<exists>h. puts ps v = (None, v\<lparr>b_heap := h\<rparr>) \<and>
    (\<forall>evs all. table_ok (t\<lparr>b_events := evs, b_heap := h, b_items := boxes, b_selectAll := all\<rparr>))"
proof -
  note c = table_ok_parts [OF t]
  have sub: "set (b_data t) \<subseteq> set (b_odata t)" "distinct (b_data t)" using c(2) by (simp_all add: linked_def)
  obtain h where h: "puts ps v = (None, v\<lparr>b_heap := h\<rparr>)"
      "\<forall>a \<in> set (b_data t). tidy (state_key t) (h a)" "\<forall>a. a \<notin> set (b_data t) \<longrightarrow> h a = b_heap v a"
      "\<forall>i < length (b_data t). marked (state_key t) (h (b_data t ! i)) = (case map_of ps (int i) of
         None \<Rightarrow> marked (state_key t) (b_heap v (b_data t ! i)) | Some b \<Rightarrow> b)"
    using puts_ok [OF ps sub(2), of "state_key t" "b_heap v" v] tidy sub(1) key data by blast
  have "\<forall>a \<in> set (b_odata t). tidy (state_key t) (h a)" using h(2,3) tidy by metis
  moreover have "cb_checked x = marked (state_key t) (h (getData t ! nat (cb_index x)))" if "x \<in> set boxes" for x
  proof -
    have "cb_index x \<in> cb_index ` set (b_items t)" using boxes(1) that by (metis imageI set_map)
    then have "0 \<le> cb_index x" "cb_index x < int (length (b_data t))" using item_index [OF t] by auto
    then have "nat (cb_index x) < length (b_data t)" "int (nat (cb_index x)) = cb_index x" by auto
    with h(4) boxes(2) that show ?thesis by (simp add: linked_getData [OF c(2)])
  qed
  ultimately have "table_ok (t\<lparr>b_events := evs, b_heap := h, b_items := boxes, b_selectAll := all\<rparr>)" for evs all
    using boxes(1) by (intro table_ok_marks [OF t]) simp_all
  with h(1) show ?thesis by blast
qed

lemma map_of_boxes:
  "distinct (map cb_index bs) \<Longrightarrow> x \<in> set bs \<Longrightarrow>
   map_of (map (\<lambda>x. (cb_index x, cb_checked x)) bs) (cb_index x) = Some (cb_checked x)"
  by (rule map_of_is_SomeI) (auto simp: comp_def)

lemma all_event_ok:
  assumes t: "table_ok t"
  shows "\<exists>u. t_fire E (AllClick b) t = (None, u) \<and> table_ok u"
proof -
  let ?f = "\<lambda>x. if cb_enabled x then x\<lparr>cb_checked := b\<rparr> else x"
  let ?boxes = "map ?f (b_items t)"
  let ?v = "t\<lparr>b_selectAll := b, b_items := ?boxes\<rparr>"
  let ?ps = "map (\<lambda>x. (cb_index x, cb_checked x)) ?boxes"
  have idx: "cb_index (?f x) = cb_index x" for x by simp
  then have cbi: "map cb_index ?boxes = map cb_index (b_items t)" by simp
  have d: "distinct (map cb_index ?boxes)"
    unfolding cbi using t by (simp add: table_ok_def screen_ok_def)
  have fst: "map fst ?ps = map cb_index ?boxes" by simp
  have "\<exists>h. puts ?ps ?v = (None, ?v\<lparr>b_heap := h\<rparr>) \<and>
    (\<forall>evs all. table_ok (t\<lparr>b_events := evs, b_heap := h, b_items := ?boxes, b_selectAll := all\<rparr>))"
  proof (rule click_end_ok [OF t _ _ _ _ _ cbi])
    show "distinct (map fst ?ps)" unfolding fst by (rule d)
    show "\<forall>(k, b) \<in> set ?ps. 0 \<le> k \<and> k < int (length (b_data t))"
      using item_index [OF t] by (auto split: if_splits)
    show "\<forall>x \<in> set ?boxes. cb_checked x = (case map_of ?ps (cb_index x) of
        None \<Rightarrow> marked (state_key t) (b_heap ?v (b_data t ! nat (cb_index x))) | Some b \<Rightarrow> b)"
      by (rule ballI, subst map_of_boxes [OF d]) (assumption, simp)
  qed (use table_ok_parts(1) [OF t] in \<open>simp_all add: state_key_def core_ok_def\<close>)
  then obtain h where "puts ?ps ?v = (None, ?v\<lparr>b_heap := h\<rparr>)" and
    good: "\<And>evs all. table_ok (t\<lparr>b_events := evs, b_heap := h, b_items := ?boxes, b_selectAll := all\<rparr>)"
    by blast
  moreover have "updateRows ?v = puts ?ps ?v" by (simp add: updateRows_def puts_def comp_def)
  ultimately
  have "t_fire E (AllClick b) t = (None, t\<lparr>b_events := b_events t @
      [if b then ''check-all'' else ''uncheck-all''], b_heap := h, b_items := ?boxes, b_selectAll := b\<rparr>)"
    by (simp add: checkAll_to_def and_then_def trigger_def)
  with good show ?thesis by blast
qed

lemma and_then_assoc: "and_then (and_then f g) h = and_then f (and_then g h)"
  by (rule ext) (simp add: and_then_def split: prod.split option.split)

lemma and_then_ok [simp]: "and_then ok f = f" "and_then f ok = f"
  by (rule ext, simp add: and_then_def ok_def split: prod.split option.split)+

lemma puts_Nil: "puts [] = ok"
  by (rule ext) (simp add: ok_def)

lemma puts_Cons: "puts ((k, b) # ps) = and_then (put_state k b) (puts ps)"
  by (rule ext) simp

lemma distinct_splice1:
  assumes "distinct (map f xs)" and "j < length xs"
  shows "distinct (f (xs ! j) # map f (splice1 j xs))"
proof -
  have "xs = take j xs @ xs ! j # drop (Suc j) xs" using assms(2) by (rule id_take_nth_drop)
  then have "distinct (map f (take j xs) @ f (xs ! j) # map f (drop (Suc j) xs))"
    using assms(1) by (metis list.simps(9) map_append)
  then show ?thesis by (auto simp: splice1_def)
qed

lemma click_end:
  assumes "puts ps v = (None, v\<lparr>b_heap := h\<rparr>)" and "v = t\<lparr>b_heap := g, b_items := bs\<rparr>"
    and "\<And>evs all. table_ok (t\<lparr>b_events := evs, b_heap := h, b_items := f bs, b_selectAll := all\<rparr>)"
  shows "\<exists>u. and_then (puts ps) (\<lambda>w. trigger e (updateSelected (w\<lparr>b_items := f (b_items w)\<rparr>))) v = (None, u) \<and>
    table_ok u"
proof -
  let ?all = "filter cb_enabled (f bs) \<noteq> [] \<and> list_all cb_checked (filter cb_enabled (f bs))"
  have "and_then (puts ps) (\<lambda>w. trigger e (updateSelected (w\<lparr>b_items := f (b_items w)\<rparr>))) v =
      (None, t\<lparr>b_events := b_events t @ [e], b_heap := h, b_items := f bs, b_selectAll := ?all\<rparr>)"
    using assms(1,2) by (simp add: and_then_def trigger_def updateSelected_def Let_def)
  with assms(3) show ?thesis by blast
qed

lemma only_box_same: "map cb_index (only_box j xs) = map cb_index xs"
  by (simp add: only_box_def list_eq_iff_nth_eq nth_enumerate_eq)

lemma only_box_in:
  "x \<in> set (only_box j xs) \<Longrightarrow> j < length xs \<Longrightarrow>
   x = xs ! j \<or> (\<exists>y \<in> set (splice1 j xs). x = y\<lparr>cb_checked := False\<rparr>)"
proof -
  assume "x \<in> set (only_box j xs)" and j: "j < length xs"
  then obtain i where i: "i < length xs" "x = (if i = j then xs ! i else (xs ! i)\<lparr>cb_checked := False\<rparr>)"
    by (auto simp: only_box_def in_set_enumerate_eq)
  moreover have "xs ! i \<in> set (splice1 j xs)" if "i \<noteq> j"
  proof (cases "i < j")
    case True
    then have "xs ! i \<in> set (take j xs)" using i(1) by (auto simp: in_set_conv_nth)
    then show ?thesis by (simp add: splice1_def)
  next
    case False
    then have "xs ! i = drop (Suc j) xs ! (i - Suc j)" "i - Suc j < length (drop (Suc j) xs)"
      using that i(1) by auto
    then show ?thesis by (metis Un_iff nth_mem set_append splice1_def)
  qed
  ultimately show ?thesis by auto
qed

lemma click_item_puts:
  assumes "j < length (b_items t)"
  defines "x \<equiv> b_items t ! j"
  defines "b \<equiv> has_radio t \<or> \<not> cb_checked x"
  defines "bs \<equiv> (b_items t)[j := x\<lparr>cb_checked := b\<rparr>]"
  defines "v \<equiv> (if b_maintainSelected t \<and> has_radio t
      then set_states (b_odata t) (JBool False) (t\<lparr>b_items := bs\<rparr>) else t\<lparr>b_items := bs\<rparr>)"
  shows "click_item j t =
    (if b_singleSelect t
     then and_then (puts ((cb_index x, b) # map (\<lambda>y. (cb_index y, False)) (splice1 j bs)))
       (\<lambda>w. trigger (if b then ''check'' else ''uncheck'') (updateSelected (w\<lparr>b_items := only_box j (b_items w)\<rparr>))) v
     else and_then (puts [(cb_index x, b)])
       (\<lambda>w. trigger (if b then ''check'' else ''uncheck'') (updateSelected (w\<lparr>b_items := b_items w\<rparr>))) v)"
proof -
  have v: "b_items v = bs" "b_singleSelect v = b_singleSelect t" by (simp_all add: v_def set_states_def)
  have p: "all_do (map (\<lambda>y. put_state (cb_index y) False) ys) = puts (map (\<lambda>y. (cb_index y, False)) ys)" for ys
    by (simp add: puts_def comp_def)
  have item: "and_then (\<lambda>w. (None, w\<lparr>b_items := f (b_items w)\<rparr>)) g = (\<lambda>w. g (w\<lparr>b_items := f (b_items w)\<rparr>))" for f g
    by (rule ext) (simp add: and_then_def)
  have "click_item j t = and_then (put_state (cb_index x) b)
      (and_then
         (if b_singleSelect v
          then and_then (all_do (map (\<lambda>y. put_state (cb_index y) False) (splice1 j (b_items v))))
                 (\<lambda>w. (None, w\<lparr>b_items := only_box j (b_items w)\<rparr>))
          else ok)
         (\<lambda>w. trigger (if b then ''check'' else ''uncheck'') (updateSelected w))) v"
    unfolding click_item_def Let_def v_def bs_def b_def x_def by simp
  then show ?thesis
    unfolding v p by (cases "b_singleSelect t") (simp_all add: puts_Nil puts_Cons and_then_assoc item del: puts_simps)
qed

lemma item_event_ok:
  assumes t: "table_ok t" and j: "j < length (b_items t)"
  shows "\<exists>u. t_fire E (ItemClick j) t = (None, u) \<and> table_ok u"
proof -
  let ?x = "b_items t ! j"
  define b where "b \<longleftrightarrow> has_radio t \<or> \<not> cb_checked ?x"
  define bs where "bs = (b_items t)[j := ?x\<lparr>cb_checked := b\<rparr>]"
  define v where "v = (if b_maintainSelected t \<and> has_radio t
      then set_states (b_odata t) (JBool False) (t\<lparr>b_items := bs\<rparr>) else t\<lparr>b_items := bs\<rparr>)"
  note fire = click_item_puts [OF j, folded b_def, folded bs_def, folded v_def]
  note c = table_ok_parts [OF t]
  have s: "distinct (map cb_index (b_items t))" "\<And>x. x \<in> set (b_items t) \<Longrightarrow>
      cb_checked x = marked (state_key t) (b_heap t (b_data t ! nat (cb_index x)))"
    using t c(2) linked_getData by (simp_all add: table_ok_def screen_ok_def)
  have bs: "map cb_index bs = map cb_index (b_items t)" "bs ! j = ?x\<lparr>cb_checked := b\<rparr>" "j < length bs"
    using j by (simp_all add: bs_def map_update list_update_same_conv)
  have key: "state_key v = state_key t" "b_data v = b_data t" by (simp_all add: v_def set_states_def state_key_def)
  have tidy: "\<forall>a \<in> set (b_odata t). tidy (state_key t) (b_heap v a)"
    using c(1) by (simp add: v_def set_states_def core_ok_def state_key_def)
  have g: "v = t\<lparr>b_heap := b_heap v, b_items := bs\<rparr>" by (simp add: v_def set_states_def)
  have valid: "0 \<le> cb_index y \<and> cb_index y < int (length (b_data t))" if "y \<in> set bs" for y
  proof -
    have "cb_index y \<in> cb_index ` set (b_items t)" using bs(1) that by (metis imageI set_map)
    then show ?thesis using item_index [OF t] by auto
  qed
  have idx: "cb_index ?x = cb_index (bs ! j)" using bs(2) by simp
  have dist: "distinct (map cb_index bs)" unfolding bs(1) by (rule s(1))
  show ?thesis
  proof (cases "b_singleSelect t")
    case True
    let ?ps = "(cb_index ?x, b) # map (\<lambda>y. (cb_index y, False)) (splice1 j bs)"
    have sp: "set (splice1 j bs) \<subseteq> set bs" by (rule set_splice1)
    have d: "distinct (map fst ?ps)"
      using distinct_splice1 [OF dist bs(3)] idx by (simp add: comp_def)
    have marks: "\<forall>y \<in> set (only_box j bs). cb_checked y = (case map_of ?ps (cb_index y) of
        None \<Rightarrow> marked (state_key t) (b_heap v (b_data t ! nat (cb_index y))) | Some b \<Rightarrow> b)"
    proof
      fix y assume "y \<in> set (only_box j bs)"
      then consider "y = bs ! j" | z where "z \<in> set (splice1 j bs)" "y = z\<lparr>cb_checked := False\<rparr>"
        using only_box_in [OF _ bs(3)] by blast
      then show "cb_checked y = (case map_of ?ps (cb_index y) of
        None \<Rightarrow> marked (state_key t) (b_heap v (b_data t ! nat (cb_index y))) | Some b \<Rightarrow> b)"
      proof cases
        case 2
        then have "map_of ?ps (cb_index y) = Some False"
          by (intro map_of_is_SomeI [OF d]) auto
        then show ?thesis using 2 by simp
      qed (use bs(2) in simp)
    qed
    have "\<forall>(k, b) \<in> set ?ps. 0 \<le> k \<and> k < int (length (b_data t))"
      using valid sp nth_mem [OF bs(3)] idx by auto
    from click_end_ok [OF t key tidy this d only_box_same [of j bs, unfolded bs(1)] marks]
    obtain h where "puts ?ps v = (None, v\<lparr>b_heap := h\<rparr>)" and
      h: "\<And>evs all. table_ok (t\<lparr>b_events := evs, b_heap := h, b_items := only_box j bs, b_selectAll := all\<rparr>)"
      by blast
    from click_end [where f = "only_box j", OF this(1) g h] show ?thesis
      unfolding t_fire.simps fire using True by (simp only: if_True)
  next
    case False
    then have v: "b_heap v = b_heap t" using c(1) by (auto simp: v_def core_ok_def)
    let ?ps = "[(cb_index ?x, b)]"
    have marks: "\<forall>y \<in> set bs. cb_checked y = (case map_of ?ps (cb_index y) of
        None \<Rightarrow> marked (state_key t) (b_heap v (b_data t ! nat (cb_index y))) | Some b \<Rightarrow> b)"
    proof
      fix y assume "y \<in> set bs"
      then obtain i where i: "i < length bs" "y = bs ! i" by (auto simp: in_set_conv_nth)
      show "cb_checked y = (case map_of ?ps (cb_index y) of
        None \<Rightarrow> marked (state_key t) (b_heap v (b_data t ! nat (cb_index y))) | Some b \<Rightarrow> b)"
      proof (cases "i = j")
        case False
        then have y: "y = b_items t ! i" "i < length (b_items t)" using i by (simp_all add: bs_def)
        moreover have "cb_index y \<noteq> cb_index ?x"
          using s(1) y j False by (simp add: distinct_conv_nth)
        ultimately show ?thesis using s(2) [of y] v by simp
      qed (use i bs(2) in simp)
    qed
    have "\<forall>(k, b) \<in> set ?ps. 0 \<le> k \<and> k < int (length (b_data t))"
      using valid nth_mem [OF bs(3)] idx by auto
    from click_end_ok [OF t key tidy this _ bs(1) marks]
    obtain h where "puts ?ps v = (None, v\<lparr>b_heap := h\<rparr>)" and
      h: "\<And>evs all. table_ok (t\<lparr>b_events := evs, b_heap := h, b_items := bs, b_selectAll := all\<rparr>)"
      by auto
    from click_end [where f = "\<lambda>x. x", OF this(1) g h] show ?thesis
      unfolding t_fire.simps fire using False by (simp only: if_False)
  qed
qed

lemma event_ok:
  assumes "table_ok t" and "sorts E" and "t_possible e t"
  shows "\<exists>u. t_fire E e t = (None, u) \<and> table_ok u"
proof (cases e)
  case (ItemClick j)
  then show ?thesis using item_event_ok [OF assms(1)] assms(3) by simp
qed (use assms page_event_ok search_event_ok sort_event_ok all_event_ok load_event_ok remove_event_ok
     in \<open>simp_all del: t_fire.simps t_possible.simps\<close>)

lemma t_steps_ok:
  assumes "t_steps E t es u" and "table_ok t" and "sorts E"
  shows "table_ok u \<and> list_all (\<lambda>(e, r). r = None) es"
  using assms
proof (induction rule: t_steps.induct)
  case (t_more t es u e r v)
  then show ?case using event_ok [of u E e] by auto
qed simp

section \<open>A new table\<close>

lemma table_ok_request:
  assumes "table_ok t"
  shows "table_ok (t\<lparr>b_loading := l, b_reqs := q\<rparr>)" (is "table_ok ?u")
proof -
  have t: "core_ok t" "linked t" "screen_ok t" using assms by (simp_all add: table_ok_def)
  have searched: "searched ?u = searched t" by (simp add: searched_def)
  then have key: "state_key ?u = state_key t" "getData ?u = getData t" by (simp_all add: state_key_def getData_def)
  then have range: "body_range ?u = body_range t" by (simp add: body_range_def)
  have u: "core_ok ?u" "linked ?u" using t(1,2) key searched by (simp_all add: core_ok_def linked_def)
  have "initPagination ?u = ?u"
    by (rule initPagination_fixed [OF linked_paged [OF t(1,2)] _ linked_paged [OF u]])
       (use t(3) key in \<open>simp_all add: screen_ok_def row_count_def\<close>)
  then show ?thesis using u t(3) by (simp add: table_ok_def screen_ok_def key range)
qed

lemma init_table_ok:
  assumes "core_ok (initHeader t)" and "\<not> searched t" and "sorts E"
  shows "\<exists>u. init_table E t = (None, u) \<and> table_ok u \<and> mset (b_odata u) = mset (b_odata t) \<and>
    (b_sortName t = None \<longrightarrow> b_odata u = b_odata t) \<and> b_pageSize u = b_pageSize t \<and> \<not> searched u \<and>
    b_stateField u = b_stateField (initHeader t) \<and> b_columns u = b_columns t \<and>
    b_maintainSelected u = b_maintainSelected t \<and> b_strictSearch u = b_strictSearch t \<and>
    (b_pageNumber t = 1 \<longrightarrow> b_pageNumber u = 1) \<and>
    (\<forall>a. erase (state_key u) (b_heap u a) = erase (state_key u) (b_heap t a) \<and>
         marked (state_key u) (b_heap u a) = marked (state_key u) (b_heap t a))"
proof -
  let ?t = "(initHeader t)\<lparr>b_data := b_odata t, b_same := True\<rparr>"
  have h: "b_odata (initHeader t) = b_odata t" "searched (initHeader t) = searched t" "b_heap (initHeader t) = b_heap t"
    "b_sortName (initHeader t) = b_sortName t" "b_pageSize (initHeader t) = b_pageSize t"
    "b_columns (initHeader t) = b_columns t" "b_maintainSelected (initHeader t) = b_maintainSelected t"
    "b_strictSearch (initHeader t) = b_strictSearch t" "b_pageNumber (initHeader t) = b_pageNumber t"
    by (simp_all add: initHeader_def Let_def searched_def)
  have v: "core_ok ?t" "linked ?t" using assms(1,2) h by (auto simp: core_ok_def linked_def state_key_def)
  obtain ds where ds: "initSort E ?t = (None, set_data ds ?t)" "mset ds = mset (b_data ?t)"
    using initSort_ok [OF v(1) linked_joined [OF v(2)] assms(3)] by blast
  let ?w = "set_data ds ?t"
  have w: "core_ok ?w" "linked ?w"
    using set_data_perm [OF v(1) linked_joined [OF v(2)] ds(2)] v(2) by blast+
  obtain u where u: "initBody (initPagination ?w) = (None, u)" "table_ok u" "redrawn (initPagination ?w) u"
    using draw_ok [OF w] by blast
  have "\<not> b_server (initHeader t)" using assms(1) by (simp add: core_ok_def)
  then have init: "initData E None [] (initHeader t) = (None, ?w)"
    using ds(1) h by (simp add: initData_def Let_def)
  let ?u = "initServer False [] u"
  have "table_ok ?u" using u(2) table_ok_request by (simp add: initServer_def Let_def)
  moreover have "init_table E t = (None, ?u)" using init u by (simp add: init_table_def and_then_def)
  moreover have f: "b_odata ?u = ds" "b_pageSize ?u = b_pageSize t" "searched ?u = searched t" "b_columns ?u = b_columns t"
      "b_stateField ?u = b_stateField (initHeader t)" "b_maintainSelected ?u = b_maintainSelected t"
      "b_strictSearch ?u = b_strictSearch t"
    using redrawn_fields(2,4,5,10,14) [OF u(3)] redrawn_options [OF u(3)] h
    by (simp_all add: initServer_def Let_def set_data_def searched_def)
  moreover have "b_pageNumber ?u = clip_page ?w"
    using redrawn_fields(6) [OF u(3)] pageNumber_initPagination [OF linked_paged [OF w]]
    by (simp add: initServer_def Let_def)
  then have "b_pageNumber t = 1 \<Longrightarrow> b_pageNumber ?u = 1"
    using page_count_nonneg [OF linked_paged [OF w]] h by (auto simp: clip_page_def set_data_def)
  moreover have "b_sortName t = None \<Longrightarrow> ds = b_odata t"
  proof -
    assume "b_sortName t = None"
    then have "initSort E ?t = (None, ?t)" using h by (simp add: initSort_def)
    then have "b_data (set_data ds ?t) = b_data ?t" using ds(1) by simp
    then show "ds = b_odata t" by (simp add: set_data_def)
  qed
  moreover have "state_key ?u = state_key ?w" "same_rows (state_key ?w) (b_heap t) (b_heap ?u)"
    using redrawn_fields(12,16) [OF u(3)] h
    by (simp_all add: initServer_def Let_def state_key_def set_data_def)
  ultimately show ?thesis using ds(2) assms(2) by (simp add: same_rows_def)
qed

end
