(* ===== verification/BootSpec.thy ===== *)
theory BootSpec
  imports BootProps
begin

text \<open>
  The contract the pages of the console are verified against, a table of rows with a selection
  mark, and that both the tables of the browser machine and the widget fulfil it; then the
  properties of the widget for its users.
\<close>

section \<open>The abstract table\<close>

text \<open>
  What the pages of the console rely on of a table: rows with a selection mark, from which rows
  can be removed by a field's values, which can be loaded anew and asked for the selected rows.
\<close>

locale row_table =
  fixes view :: "'s \<Rightarrow> (jsval \<times> bool) list"
    and good :: "'s \<Rightarrow> bool"
    and field_ok :: "'s \<Rightarrow> string \<Rightarrow> bool"
    and remove :: "string \<Rightarrow> jsval \<Rightarrow> 's \<Rightarrow> 's"
    and selections :: "'s \<Rightarrow> jsval list"
  assumes view_remove: "good s \<Longrightarrow> field_ok s f \<Longrightarrow>
      view (remove f values s) = filter (\<lambda>r. table_keeps f values (fst r)) (view s)"
    and selections_view: "good s \<Longrightarrow> selections s = map fst (filter snd (view s))"
    and good_remove: "good s \<Longrightarrow> good (remove f values s)"
begin

text \<open>Removing rows by the ids of the selected ones removes exactly the selected rows.\<close>

lemma remove_selected:
  assumes "good s" and "field_ok s ''id''" and "numbered (view s)"
  shows "view (remove ''id'' (JArr (map (JNum \<circ> rid) (selections s))) s) = filter (\<lambda>r. \<not> snd r) (view s)"
proof -
  have sel: "map (JNum \<circ> rid) (selections s) = map JNum (selected_ids (view s))"
    using assms(1) by (simp add: selections_view selected_ids_def)
  have "table_keeps ''id'' (JArr (map JNum (selected_ids (view s)))) (fst r) \<longleftrightarrow> \<not> snd r" if "r \<in> set (view s)" for r
  proof -
    have "num_id (fst r) \<noteq> None" using assms(3) that by (auto simp: numbered_def list_all_iff)
    then show ?thesis
      using selected_ids_iff [OF assms(3), of "fst r" "snd r"] that by (simp add: table_keeps_nums)
  qed
  then show ?thesis unfolding sel view_remove [OF assms(1,2)] by (intro filter_cong) auto
qed

text \<open>A second removal with the same values finds nothing to remove.\<close>

lemma remove_idem:
  assumes "good s" and "field_ok s f" and "field_ok (remove f values s) f"
  shows "view (remove f values (remove f values s)) = view (remove f values s)"
  using assms by (simp add: view_remove good_remove)

end

text \<open>The browser machine of the pages is such a table, for each of its tables.\<close>

interpretation page_table: row_table "\<lambda>s. rows s i" "\<lambda>s. True" "\<lambda>s f. True"
  "\<lambda>f values. apply_effect (TableRemove i f values)" "\<lambda>s. map fst (filter snd (rows s i))" for i
  by unfold_locales simp_all

definition view :: "tbl \<Rightarrow> (jsval \<times> bool) list" where
  "view t = map (\<lambda>a. (erase (state_key t) (b_heap t a), marked (state_key t) (b_heap t a))) (b_odata t)"

definition selected_rows :: "tbl \<Rightarrow> jsval list" where
  "selected_rows t = map (\<lambda>a. erase (state_key t) (b_heap t a)) (getSelections t)"

lemma view_redrawn:
  assumes "redrawn t u"
  shows "view u = view t"
  using redrawn_fields(2,12,16) [OF assms] by (simp add: view_def same_rows_def)

lemma view_initPagination [simp]: "view (initPagination t) = view t"
  by (simp add: view_def)

lemma view_initSearch [simp]: "view (initSearch t) = view t"
  by (simp add: view_def state_key_def)

lemma erase_prop:
  assumes "f \<noteq> key" and "tidy key row"
  shows "has_prop (erase key row) f = has_prop row f" "prop_of (erase key row) f = prop_of row f"
proof -
  obtain fs where row: "row = JObj fs" using tidy_JObj [OF assms(2)] by blast
  have "map_of (filter (\<lambda>f. fst f \<noteq> key) fs) f = map_of fs f"
    using assms(1) by (induction fs) auto
  then show "has_prop (erase key row) f = has_prop row f" "prop_of (erase key row) f = prop_of row f"
    by (simp_all add: row prop_of_def)
qed

lemma doomed_keeps:
  assumes "f \<noteq> state_key t" and "tidy (state_key t) (b_heap t a)"
  shows "table_keeps f values (erase (state_key t) (b_heap t a)) \<longleftrightarrow> \<not> doomed t f values a"
proof -
  have "(case get_prop v f of None \<Rightarrow> JUndef | Some v \<Rightarrow> v) = prop_of v f" for v by (simp add: prop_of_def)
  then show ?thesis using erase_prop [OF assms] by (simp add: table_keeps_def doomed_def)
qed

lemma remove_rows_redrawn:
  assumes "table_ok t" and "remove_rows f values t = (r, u)"
  defines "v \<equiv> set_odata (filter (\<lambda>a. \<not> doomed t f values a) (b_odata t)) t"
  shows "u = v \<or> redrawn (initPagination (initSearch v)) u"
proof (cases "length (b_odata v) = length (b_odata t)")
  case True
  then show ?thesis using assms(2) by (simp add: v_def remove_rows_def remove_loop_filter set_odata_def Let_def)
next
  case False
  have "core_ok v"
    using table_ok_parts(1) [OF assms(1)] le_less_trans [OF length_filter_le]
    by (auto simp: v_def core_ok_def set_odata_def state_key_def)
  from redraw_ok [OF this] False show ?thesis
    using assms(2) by (auto simp: v_def remove_rows_def remove_loop_filter set_odata_def Let_def)
qed

lemma remove_rows_view:
  assumes "table_ok t" and "remove_rows f values t = (r, u)"
  shows "r = None" "table_ok u" "state_key u = state_key t" "searched u = searched t"
    "f \<noteq> state_key t \<Longrightarrow> view u = filter (\<lambda>r. table_keeps f values (fst r)) (view t)"
proof -
  let ?ds = "filter (\<lambda>a. \<not> doomed t f values a) (b_odata t)"
  let ?v = "set_odata ?ds t"
  show "r = None" "table_ok u" using remove_event_ok [OF assms(1), of _ f "values"] assms(2) by auto
  have key: "state_key ?v = state_key t" "searched ?v = searched t" "b_heap ?v = b_heap t" "b_odata ?v = ?ds"
    by (simp_all add: set_odata_def state_key_def searched_def)
  have search: "state_key (initSearch x) = state_key x" "searched (initSearch x) = searched x" for x
    by (simp_all add: state_key_def searched_def)
  note alt = remove_rows_redrawn [OF assms]
  show "state_key u = state_key t" "searched u = searched t"
    using alt redrawn_fields(12,14) [of "initPagination (initSearch ?v)" u] key by (auto simp: search)
  assume f: "f \<noteq> state_key t"
  let ?g = "\<lambda>a. (erase (state_key t) (b_heap t a), marked (state_key t) (b_heap t a))"
  have v: "view ?v = map ?g ?ds" unfolding view_def key by simp
  have ds: "?ds = filter (\<lambda>a. table_keeps f values (fst (?g a))) (b_odata t)"
    using table_ok_parts(1) [OF assms(1)] doomed_keeps [OF f]
    by (intro filter_cong) (auto simp: core_ok_def)
  have "view ?v = filter (\<lambda>r. table_keeps f values (fst r)) (view t)"
    unfolding v by (subst ds) (simp add: view_def filter_map comp_def)
  moreover have "view u = view ?v"
    using alt view_redrawn [of "initPagination (initSearch ?v)" u] by auto
  ultimately show "view u = filter (\<lambda>r. table_keeps f values (fst r)) (view t)" by simp
qed

lemma selected_rows_view:
  assumes "table_ok t" and "\<not> searched t"
  shows "selected_rows t = map fst (filter snd (view t))"
proof -
  have "b_data t = b_odata t" using table_ok_parts(2) [OF assms(1)] assms(2) by (simp add: linked_def)
  then show ?thesis
    by (simp add: selected_rows_def getSelections_def view_def row_state_def marked_def filter_map comp_def)
qed

text \<open>The widget without an active search is such a table, for the fields other than the selection.\<close>

interpretation widget: row_table view "\<lambda>t. table_ok t \<and> \<not> searched t" "\<lambda>t f. f \<noteq> state_key t"
  "\<lambda>f values t. snd (remove_rows f values t)" selected_rows
proof (unfold_locales, goal_cases)
  case (1 t f vs)
  then show ?case using remove_rows_view(5) [of t f vs] by (metis prod.collapse)
next
  case (2 t)
  then show ?case by (simp add: selected_rows_view)
next
  case (3 t f vs)
  then show ?case using remove_rows_view(2,4) [of t f vs] by (metis prod.collapse)
qed

section \<open>The table on the screen\<close>

text \<open>The indices of the rows on the current page.\<close>

definition page_indices :: "tbl \<Rightarrow> int list" where
  "page_indices t = (if row_count t = 0 then [] else page_span (row_count t) (page_rows t) (b_pageNumber t))"

lemma table_ok_screen:
  assumes "table_ok t"
  shows "map fst (b_body t) = page_indices t"
    "x \<in> set (b_items t) \<Longrightarrow> \<exists>a. row_at (b_data t) (cb_index x) = Some a \<and> cb_checked x = truthy (row_state t a)"
proof -
  have t: "core_ok t" "linked t" "initPagination t = t" "map fst (b_body t) = body_indices (body_range t)"
    using assms by (simp_all add: table_ok_def screen_ok_def)
  have page: "clip_page t = b_pageNumber t"
    using pageNumber_initPagination [OF linked_paged [OF t(1,2)]] t(3) by simp
  have "1 \<le> b_pageNumber t" using t(1) by (simp add: core_ok_def)
  from body_indices_page [OF linked_paged [OF t(1,2)] this]
  show "map fst (b_body t) = page_indices t"
    unfolding t(3) t(4) page page_indices_def by simp
  assume x: "x \<in> set (b_items t)"
  have "cb_checked x = marked (state_key t) (b_heap t (b_data t ! nat (cb_index x)))"
    using assms x t(2) by (auto simp: table_ok_def screen_ok_def linked_getData)
  then show "\<exists>a. row_at (b_data t) (cb_index x) = Some a \<and> cb_checked x = truthy (row_state t a)"
    using item_index [OF assms x] by (simp add: row_at_def marked_def row_state_def)
qed

text \<open>
  C11. A table with client-side paging, once initialised, handles every sequence of possible events
  (page buttons that are not disabled, page sizes, searches, sorting, check boxes, new rows, removed
  rows) without an exception. After each of them the page number is within the pages, the body
  holds exactly the rows of that page, and each check box stands for a row of the data and shows
  whether that row is selected.
\<close>

theorem table_events_safe:
  assumes "core_ok (initHeader t0)" and "\<not> searched t0" and "sorts E"
    and "init_table E t0 = (r, t)" and "t_steps E t es u"
  shows "r = None \<and> list_all (\<lambda>(e, r). r = None) es \<and> 1 \<le> b_pageNumber u \<and>
    (0 < b_totalPages u \<longrightarrow> b_pageNumber u \<le> b_totalPages u) \<and> map fst (b_body u) = page_indices u \<and>
    (\<forall>x \<in> set (b_items u). \<exists>a. row_at (b_data u) (cb_index x) = Some a \<and>
       cb_checked x = truthy (row_state u a))"
proof -
  have t: "r = None" "table_ok t" using init_table_ok [OF assms(1-3)] assms(4) by auto
  with t_steps_ok [OF assms(5) _ assms(3)] have u: "table_ok u" "list_all (\<lambda>(e, r). r = None) es" by auto
  then show ?thesis
    using t(1) pager_drawn [OF u(1)] table_ok_screen [OF u(1)] by simp
qed

text \<open>
  C13. The pages of a table partition its rows: showing page 1, 2, and so on up to the last page
  shows every row exactly once, in order.
\<close>

theorem pages_partition:
  assumes "paged t"
  shows "concat (map (\<lambda>p. getPageData (initPagination (t\<lparr>b_pageNumber := p\<rparr>)))
      [1..b_totalPages (initPagination t)]) = getData t"
proof (cases "row_count t = 0")
  case True
  then show ?thesis using assms by (simp add: initPagination_client page_count_def row_count_def)
next
  case False
  let ?n = "row_count t" and ?k = "page_rows t"
  have pos: "0 < ?k" "0 < ?n" using page_rows_pos [OF assms False] False by (auto simp: row_count_def)
  have pages: "b_totalPages (initPagination t) = (?n - 1) div ?k + 1"
    using assms False by (simp add: initPagination_client page_count_def)
  have "getPageData (initPagination (t\<lparr>b_pageNumber := p\<rparr>)) = map (\<lambda>i. getData t ! nat i) (page_span ?n ?k p)"
    if "p \<in> set [1..(?n - 1) div ?k + 1]" for p
  proof -
    let ?t = "t\<lparr>b_pageNumber := p\<rparr>"
    have p: "paged ?t" "row_count ?t = ?n" "page_rows ?t = ?k" "page_count ?t = (?n - 1) div ?k + 1"
      using assms False by (simp_all add: paged_def row_count_def page_rows_def page_count_def cong: page_size.case_cong)
    then have "clip_page ?t = p" using that by (simp add: clip_page_def)
    with page_range_initPagination [OF p(1)] p False
    have "getPageData (initPagination ?t) = js_slice (getData t) (Some ((p - 1) * ?k)) (Some (min (p * ?k) ?n))"
      by (simp add: getPageData_def)
    also have "\<dots> = map (\<lambda>i. getData t ! nat i) [(p - 1) * ?k..min (p * ?k) ?n - 1]"
      using that pos by (intro js_slice_indices) (auto simp: row_count_def)
    finally show ?thesis by (simp add: page_span_def)
  qed
  then have "map (\<lambda>p. getPageData (initPagination (t\<lparr>b_pageNumber := p\<rparr>))) [1..(?n - 1) div ?k + 1] =
      map (map (\<lambda>i. getData t ! nat i)) (map (page_span ?n ?k) [1..(?n - 1) div ?k + 1])"
    by (simp add: comp_def)
  then have "concat (map (\<lambda>p. getPageData (initPagination (t\<lparr>b_pageNumber := p\<rparr>))) [1..(?n - 1) div ?k + 1]) =
      map (\<lambda>i. getData t ! nat i) [0..?n - 1]"
    by (simp only: pages_partition_indices [OF pos] flip: map_concat)
  also have "\<dots> = getData t"
    by (rule nth_equalityI) (simp_all add: row_count_def nth_upto)
  finally show ?thesis by (simp add: pages)
qed

section \<open>The widget against the pages' view of it\<close>

lemma click_item_view:
  assumes t: "table_ok t" and "\<not> searched t" and "\<not> b_singleSelect t" and j: "j < length (b_items t)"
  defines "k \<equiv> nat (cb_index (b_items t ! j))"
  shows "\<exists>u. click_item j t = (None, u) \<and>
    view u = (view t)[k := (fst (view t ! k), \<not> cb_checked (b_items t ! j))]"
proof -
  let ?x = "b_items t ! j"
  have nr: "\<not> has_radio t" using table_ok_parts(1) [OF t] assms(3) by (auto simp: core_ok_def)
  let ?b = "\<not> cb_checked ?x"
  let ?v = "t\<lparr>b_items := (b_items t)[j := ?x\<lparr>cb_checked := ?b\<rparr>]\<rparr>"
  have data: "b_data t = b_odata t" "distinct (b_data t)"
    using table_ok_parts(2) [OF t] assms(2) by (auto simp: linked_def)
  have idx: "0 \<le> cb_index ?x" "cb_index ?x < int (length (b_data t))" using item_index [OF t nth_mem [OF j]] .
  have tidy: "\<forall>a \<in> set (b_data t). tidy (state_key t) (b_heap t a)"
    using table_ok_parts(1) [OF t] data by (simp add: core_ok_def)
  have "state_key ?v = state_key t" "b_data ?v = b_data t" "b_heap ?v = b_heap t" by (simp_all add: state_key_def)
  then obtain h where h: "puts [(cb_index ?x, ?b)] ?v = (None, ?v\<lparr>b_heap := h\<rparr>)"
      "\<forall>a. erase (state_key t) (h a) = erase (state_key t) (b_heap t a)"
      "\<forall>i < length (b_data t). marked (state_key t) (h (b_data t ! i)) =
         (case map_of [(cb_index ?x, ?b)] (int i) of None \<Rightarrow> marked (state_key t) (b_heap t (b_data t ! i)) | Some b \<Rightarrow> b)"
    using puts_ok [of "[(cb_index ?x, ?b)]" "b_data t" "state_key t" "b_heap t" ?v] idx data(2) tidy by auto
  obtain u where u: "click_item j t = (None, u)" "b_heap u = h" "b_odata u = b_odata t" "state_key u = state_key t"
    using click_item_puts [OF j] nr assms(3) h(1)
    by (simp add: and_then_def trigger_def updateSelected_def Let_def state_key_def del: puts_simps)
  have "view u = (view t)[k := (fst (view t ! k), ?b)]"
  proof (rule nth_equalityI)
    show "length (view u) = length ((view t)[k := (fst (view t ! k), ?b)])" using u by (simp add: view_def)
    fix i assume "i < length (view u)"
    then have i: "i < length (b_odata t)" using u by (simp add: view_def)
    have "int i = cb_index ?x \<longleftrightarrow> i = k" using idx by (auto simp: k_def)
    with h(3) data(1) i have "marked (state_key t) (h (b_odata t ! i)) =
        (if i = k then ?b else marked (state_key t) (b_heap t (b_odata t ! i)))" by auto
    then show "view u ! i = (view t)[k := (fst (view t ! k), ?b)] ! i"
      using u i h(2) by (simp add: view_def nth_list_update)
  qed
  with u(1) show ?thesis by blast
qed

text \<open>
  C12. The widget does what the pages of the console are verified against. Where the rows of a page's
  table are the widget's view (its rows with their marks, no search active), the selected rows the
  page reads are the widget's selected rows; removing rows by a field's values leaves the same rows
  on both sides, without an exception; and a click on a check box of the widget is the page's event
  that selects that row.
\<close>

theorem widget_simulates_page_table:
  assumes "table_ok t" and "\<not> searched t" and "rows s i = view t"
  shows "answer (QSelections i) s = JArr (selected_rows t) \<and>
    (f \<noteq> state_key t \<longrightarrow> (\<exists>u. remove_rows f values t = (None, u) \<and>
      rows (apply_effect (TableRemove i f values) s) i = view u)) \<and>
    (\<not> b_singleSelect t \<and> j < length (b_items t) \<longrightarrow> (\<exists>u. click_item j t = (None, u) \<and>
      rows (select_row i (nat (cb_index (b_items t ! j))) (\<not> cb_checked (b_items t ! j)) s) i = view u))"
proof (intro conjI impI)
  show "answer (QSelections i) s = JArr (selected_rows t)"
    using assms selected_rows_view by simp
  show "\<exists>u. remove_rows f values t = (None, u) \<and> rows (apply_effect (TableRemove i f values) s) i = view u"
    if "f \<noteq> state_key t"
    using remove_rows_view(1,5) [OF assms(1), of f "values"] that assms(3)
    by (cases "remove_rows f values t") auto
  assume j: "\<not> b_singleSelect t \<and> j < length (b_items t)"
  then have "nat (cb_index (b_items t ! j)) < length (view t)"
    using item_index [OF assms(1) nth_mem] table_ok_parts(2) [OF assms(1)] assms(2)
    by (auto simp: view_def linked_def nat_less_iff)
  moreover obtain u where "click_item j t = (None, u)" "view u = (view t)[nat (cb_index (b_items t ! j)) :=
      (fst (view t ! nat (cb_index (b_items t ! j))), \<not> cb_checked (b_items t ! j))]"
    using click_item_view [OF assms(1,2)] j by blast
  ultimately show "\<exists>u. click_item j t = (None, u) \<and>
      rows (select_row i (nat (cb_index (b_items t ! j))) (\<not> cb_checked (b_items t ! j)) s) i = view u"
    using assms(3) by (simp add: select_row_def)
qed

text \<open>
  C22. Changing the page, with a button that is not disabled, keeps the rows of the table and drops
  the selection of all of them, so that a batch operation never sees rows selected on another page.
  Where the check-box column has the empty string as its field, as in several tables of the
  console, the selection is kept across pages instead.
\<close>

theorem page_change_selection:
  assumes "table_ok t" and "\<not> searched t" and "\<not> b_maintainSelected t"
    and "e \<in> {PageFirst, PagePre, PageNext, PageLast}" and "t_possible e t" and "b_stateField t = Some key"
  shows "\<exists>u. t_fire E e t = (None, u) \<and>
    view u = (if key = [] then view t else map (\<lambda>(r, b). (r, False)) (view t))"
proof -
  note t = table_ok_parts [OF assms(1)] and d = pager_drawn [OF assms(1)]
  have data: "b_data t = b_odata t" using t(2) assms(2) by (simp add: linked_def)
  have go: "\<exists>u. updatePagination False (t\<lparr>b_pageNumber := n\<rparr>) = (None, u) \<and>
      view u = (if key = [] then view t else map (\<lambda>(r, b). (r, False)) (view t))" if n: "1 \<le> n" for n
  proof -
    let ?t = "t\<lparr>b_pageNumber := n\<rparr>"
    have k: "state_key ?t = state_key t" by (simp add: state_key_def)
    obtain u where u: "updatePagination False ?t = (None, u)" "same_content ?t u"
        "key \<noteq> [] \<Longrightarrow> \<forall>a \<in> set (b_odata t). \<not> marked (state_key t) (b_heap u a)"
        "key = [] \<Longrightarrow> \<forall>a. marked (state_key t) (b_heap u a) = marked (state_key t) (b_heap t a)"
      using updatePagination_ok [of ?t] t n assms(3,6) data k by auto
    moreover have "state_key u = state_key t" "b_odata u = b_odata t"
        "\<forall>a. erase (state_key t) (b_heap u a) = erase (state_key t) (b_heap t a)"
      using u(2) k same_content_key [OF u(2)] by (simp_all add: same_content_def)
    ultimately show ?thesis by (auto simp: view_def)
  qed
  have off: "pg_first_off (b_pager t) = (b_pageNumber t \<le> 1)" "pg_last_off (b_pager t) = (page_count t \<le> b_pageNumber t)"
    using d(1,2) by (simp_all add: draw_pager_def split_beta)
  then show ?thesis
    using assms(4,5) d(2,5) go [of 1] go [of "b_pageNumber t - 1"] go [of "b_pageNumber t + 1"] go [of "page_count t"]
    by (auto simp: onPageFirst_def onPagePre_def onPageNext_def onPageLast_def)
qed

text \<open>
  C37. The buttons of the pager act even while they look disabled: on the first of several pages, two
  clicks on the disabled previous button and one on the next button end in a \<open>TypeError\<close>, since
  the handlers count the page number before they ask whether the button is disabled.
\<close>

theorem disabled_previous_throws:
  assumes "table_ok t" and "b_pageNumber t = 1" and "1 < b_totalPages t" and "b_pageSize t = PageOf k"
  shows "\<exists>u v w. onPagePre t = (None, u) \<and> onPagePre u = (None, v) \<and>
    onPageNext v = (Some (TypeError ''_data''), w)"
proof -
  note t = table_ok_parts [OF assms(1)] and d = pager_drawn [OF assms(1)]
  have off: "pg_first_off (b_pager t)" "\<not> pg_last_off (b_pager t)"
    using d(1) assms(2,3) by (simp_all add: draw_pager_def split_beta)
  let ?u = "\<lambda>n. t\<lparr>b_pageNumber := n\<rparr>"
  have pre: "onPagePre t = (None, ?u 0)" "onPagePre (?u 0) = (None, ?u (- 1))"
    using off assms(2) by (simp_all add: onPagePre_def updatePagination_def)
  define v where "v = (if b_maintainSelected t then ?u 0 else resetRows (?u 0))"
  have next_page: "onPageNext (?u (- 1)) = updatePagination False (?u 0)"
    using off by (simp add: onPageNext_def)
  have n: "row_count t \<noteq> 0" "0 < page_count t" using assms(3) d(2) by (auto simp: page_count_def)
  have k: "0 < k" using t(1) assms(4) by (simp add: core_ok_def size_ok_def)
  have data: "getData v = getData t" by (simp add: v_def resetRows_def set_states_def)
  have row: "row_count v = row_count t" unfolding row_count_def data ..
  have f: "b_pageSize v = PageOf k" "b_pageNumber v = 0" "\<not> b_server v" "b_pagination v"
    using t(1) assms(4) by (simp_all add: v_def resetRows_def set_states_def core_ok_def)
  have p: "paged v"
    using linked_paged [OF t] f row k by (simp add: paged_def size_ok_def)
  have rows: "page_rows v = k" using f(1) by (simp add: page_rows_def)
  have "clip_page v = 0" using f(2) by (simp add: clip_page_def)
  with page_range_initPagination [OF p] row rows n(1) data
  have range: "b_pageFrom (initPagination v) = Some (1 - k)" "b_pageTo (initPagination v) = Some 0"
    by (simp_all add: row_count_def)
  have "[- k..- 1] = - k # [- k + 1..- 1]" using k by (subst upto.simps) simp
  then have "fst (initBody (initPagination v)) = Some (TypeError ''_data'')"
    using range f(3,4) k
    by (simp add: initBody_def and_then_def trigger_def body_range_def body_indices_def row_at_def Let_def)
  then obtain w where "initBody (initPagination v) = (Some (TypeError ''_data''), w)" by (metis prod.collapse)
  then have "updatePagination False (?u 0) = (Some (TypeError ''_data''), w)"
    using f(3) by (simp add: updatePagination_def Let_def and_then_def flip: v_def)
  with pre next_page show ?thesis by auto
qed

section \<open>Searching and sorting\<close>

text \<open>A row shows a text: a searchable column's value, a string or a number, contains it.\<close>

definition shows_text :: "tbl \<Rightarrow> string \<Rightarrow> jsval \<Rightarrow> bool" where
  "shows_text t c row \<longleftrightarrow> (case row of
     JObj fs \<Rightarrow> (\<exists>(g, v) \<in> set fs. text_or_number v \<and> sublist c (to_lower (js_str v)) \<and>
       (case getFieldIndex (b_columns t) g of None \<Rightarrow> False | Some k \<Rightarrow> c_searchable (b_columns t ! k)))
   | _ \<Rightarrow> False)"

lemma shows_text_cong:
  assumes "b_columns u = b_columns t"
  shows "shows_text u = shows_text t"
  unfolding shows_text_def assms ..

lemma map_snd_filter_enumerate: "map snd (filter (\<lambda>(i, a). P a) (enumerate n as)) = filter P as"
proof -
  have "filter P (map snd (enumerate n as)) = map snd (filter (\<lambda>(i, a). P a) (enumerate n as))"
    unfolding filter_map by (rule arg_cong [where f = "map snd"], rule filter_cong) auto
  then show ?thesis by simp
qed

lemma row_matches_plain:
  assumes "list_all (\<lambda>c. c_formatter c = None) (b_columns t)" and "\<not> b_strictSearch t"
  shows "row_matches t c i row = shows_text t c row"
proof (cases row)
  case (JObj fs)
  have "cell_matches t c i row g v = (text_or_number v \<and> sublist c (to_lower (js_str v)) \<and>
      (case getFieldIndex (b_columns t) g of None \<Rightarrow> False | Some k \<Rightarrow> c_searchable (b_columns t ! k)))" for g v
    using assms getFieldIndex_Some [of "b_columns t" g]
    by (auto simp: cell_matches_def Let_def list_all_length index_of_None_iff split: option.split)
  then show ?thesis by (auto simp: JObj shows_text_def list_ex_iff)
qed (simp_all add: shows_text_def)

lemma search_rows_plain:
  assumes "list_all (\<lambda>c. c_formatter c = None) (b_columns t)" and "\<not> b_strictSearch t"
  shows "search_rows t c as = filter (\<lambda>a. shows_text t c (b_heap t a)) as"
  unfolding search_rows_def row_matches_plain [OF assms] by (rule map_snd_filter_enumerate)

lemma getData_searched: "table_ok t \<Longrightarrow> getData t = b_data t"
  using table_ok_parts(2) linked_getData by blast

text \<open>
  C20. A search shows exactly the rows that contain the text (blanks around it and letter case do not
  count) in a searchable column, in their order, from page one on; emptying the search field shows
  all rows again, unchanged.
\<close>

theorem search_and_clear:
  assumes "table_ok t" and "\<not> searched t" and "trim s \<noteq> []"
    and "list_all (\<lambda>c. c_formatter c = None) (b_columns t)" and "\<not> b_strictSearch t"
  shows "\<exists>u v. onSearch s t = (None, u) \<and> b_pageNumber u = 1 \<and>
    getData u = filter (\<lambda>a. shows_text t (to_lower (trim s)) (b_heap t a)) (b_odata t) \<and>
    onSearch [] u = (None, v) \<and> b_pageNumber v = 1 \<and> getData v = b_odata t \<and>
    map fst (view v) = map fst (view t)"
proof -
  have differs: "b_searchText t \<noteq> Some (trim s)" and fil: "b_filterColumns t = []"
    using assms(2,3) by (auto simp: searched_def)
  have server: "\<not> b_server t" using table_ok_parts(1) [OF assms(1)] by (simp add: core_ok_def)
  let ?w = "initSearch (t\<lparr>b_searchText := Some (trim s), b_pageNumber := 1\<rparr>)"
  obtain u where u: "onSearch s t = (None, u)" "table_ok u" "same_content ?w u" "b_pageNumber u = 1"
    using onSearch_ok [OF assms(1) differs] by blast
  have sr: "search_rows (t\<lparr>b_searchText := x, b_pageNumber := n\<rparr>) c as = search_rows t c as" for x n c as
    using search_rows_plain [of "t\<lparr>b_searchText := x, b_pageNumber := n\<rparr>"] search_rows_plain [OF assms(4,5)] assms(4,5)
      shows_text_cong [of "t\<lparr>b_searchText := x, b_pageNumber := n\<rparr>" t] by simp
  have data: "b_data u = filter (\<lambda>a. shows_text t (to_lower (trim s)) (b_heap t a)) (b_odata t)"
    using u(3) fil server assms(3) search_rows_plain [OF assms(4,5)]
    by (simp add: same_content_def initSearch_def Let_def sr)
  have uf: "b_searchText u = Some (trim s)" "b_filterColumns u = []" "b_odata u = b_odata t"
      "state_key u = state_key t" "\<forall>a. erase (state_key t) (b_heap u a) = erase (state_key t) (b_heap t a)"
    using u(3) fil by (simp_all add: same_content_def state_key_def)
  have empty: "trim [] = []" by (simp add: trim_def)
  let ?x = "initSearch (u\<lparr>b_searchText := Some (trim []), b_pageNumber := 1\<rparr>)"
  obtain v where v: "onSearch [] u = (None, v)" "table_ok v" "same_content ?x v" "b_pageNumber v = 1"
    using onSearch_ok [OF u(2), of "[]"] uf(1) assms(3) empty by auto
  have "\<not> b_server u" using table_ok_parts(1) [OF u(2)] by (simp add: core_ok_def)
  then have "b_data v = b_odata t" "b_odata v = b_odata t" "state_key v = state_key t"
    "\<forall>a. erase (state_key t) (b_heap v a) = erase (state_key t) (b_heap t a)"
    using v(3) uf empty by (simp_all add: same_content_def initSearch_def Let_def state_key_def)
  then show ?thesis
    using u v data getData_searched [OF u(2)] getData_searched [OF v(2)] by (simp add: view_def comp_def)
qed

text \<open>
  C38. A sort order chosen while a search is active does not last: it sorts the matching rows only, and
  when the search field is emptied the table shows the rows in their old order, although its
  header still marks the column as sorted.
\<close>

theorem sort_lost_after_search:
  assumes "table_ok t" and "\<not> searched t" and "trim s \<noteq> []" and "sorts E"
  shows "\<exists>u v w. onSearch s t = (None, u) \<and> onSort E f u = (None, v) \<and> onSearch [] v = (None, w) \<and>
    getData w = b_odata t \<and> b_sortName w = Some f"
proof -
  have differs: "b_searchText t \<noteq> Some (trim s)" using assms(2,3) by (auto simp: searched_def)
  obtain u where u: "onSearch s t = (None, u)" "table_ok u"
      "same_content (initSearch (t\<lparr>b_searchText := Some (trim s), b_pageNumber := 1\<rparr>)) u"
    using onSearch_ok [OF assms(1) differs] by blast
  have uf: "b_searchText u = Some (trim s)" "b_odata u = b_odata t" "b_filterColumns u = []"
    using u(3) assms(2) by (simp_all add: same_content_def searched_def)
  then have "searched u" using assms(3) by (simp add: searched_def)
  then obtain v where v: "onSort E f u = (None, v)" "table_ok v" "b_sortName v = Some f" "b_odata v = b_odata t"
      "b_searchText v = Some (trim s)" "b_filterColumns v = []"
    using onSort_ok [OF u(2) assms(4), of f] uf by auto
  have empty: "trim [] = []" by (simp add: trim_def)
  obtain w where w: "onSearch [] v = (None, w)" "table_ok w"
      "same_content (initSearch (v\<lparr>b_searchText := Some (trim []), b_pageNumber := 1\<rparr>)) w"
    using onSearch_ok [OF v(2), of "[]"] v(5) assms(3) empty by auto
  have "\<not> b_server v" using table_ok_parts(1) [OF v(2)] by (simp add: core_ok_def)
  then have "b_data w = b_odata t" "b_sortName w = Some f"
    using w(3) v empty by (simp_all add: same_content_def initSearch_def Let_def)
  with u(1) v(1) w(1) getData_searched [OF w(2)] show ?thesis by simp
qed

section \<open>Escaping\<close>

lemma html_esc_no_markup: "set (html_esc c) \<inter> {CHR ''<'', CHR ''>'', CHR 0x22, CHR 0x27} = {}"
  by (auto simp: html_esc_def)

lemma html_esc_prefix: "html_esc c @ s = html_esc d @ t \<Longrightarrow> c = d \<and> s = t"
  by (auto simp: html_esc_def split: if_splits)

text \<open>
  C21. The escaping of row attributes, five replacements in a row, is the character-wise replacement
  of the five special characters: its result holds no quotes and no angle brackets, and different
  texts stay different.
\<close>

theorem escapeHTML_faithful:
  "escapeHTML s = concat (map html_esc s) \<and>
   set (escapeHTML s) \<inter> {CHR ''<'', CHR ''>'', CHR 0x22, CHR 0x27} = {} \<and>
   (escapeHTML s = escapeHTML t \<longleftrightarrow> s = t)"
proof (intro conjI)
  show "escapeHTML s = concat (map html_esc s)" by (rule escapeHTML_single_pass)
  show "set (escapeHTML s) \<inter> {CHR ''<'', CHR ''>'', CHR 0x22, CHR 0x27} = {}"
    unfolding escapeHTML_single_pass using html_esc_no_markup by fastforce
  have "concat (map html_esc s) = concat (map html_esc t) \<Longrightarrow> s = t"
  proof (induction s arbitrary: t)
    case Nil
    then show ?case by (cases t) (auto simp: html_esc_def split: if_splits)
  next
    case (Cons c s)
    then obtain d u where t: "t = d # u" by (cases t) (auto simp: html_esc_def split: if_splits)
    with Cons html_esc_prefix [of c "concat (map html_esc s)" d] show ?case by simp
  qed
  then show "escapeHTML s = escapeHTML t \<longleftrightarrow> s = t" unfolding escapeHTML_single_pass by auto
qed

section \<open>A concrete table\<close>

definition demo_column :: "string \<Rightarrow> bool \<Rightarrow> column" where
  "demo_column f sel = \<lparr>c_field = f, c_checkbox = sel, c_radio = False, c_checkboxEnabled = True,
     c_visible = True, c_sortable = True, c_order = ''asc'', c_sortName = [], c_sorter = None,
     c_searchable = True, c_searchFormatter = True, c_formatter = None\<rparr>"

definition widget_row :: "int \<Rightarrow> string \<Rightarrow> jsval" where
  "widget_row i name = JObj [(''id'', JNum i), (''name'', JStr name)]"

definition demo_opts :: tbl where
  "demo_opts = \<lparr>
     b_heap = (\<lambda>a. if a = 0 then widget_row 1 ''Ann'' else if a = 1 then widget_row 2 ''Bob''
               else widget_row 3 ''Dan''),
     b_next = 3, b_data = [], b_odata = [0, 1, 2], b_same = False,
     b_columns = [demo_column ''state'' True, demo_column ''id'' False, demo_column ''name'' False],
     b_stateField = None, b_singleSelect = False, b_maintainSelected = False, b_pagination = True,
     b_server = False, b_totalRows = Some 0, b_totalPages = 0, b_ototalPages = 0, b_pageNumber = 1,
     b_pageSize = PageOf 2, b_pageList = [PageOf 2, PageOf 10], b_smartDisplay = True,
     b_pageFrom = None, b_pageTo = None, b_sortName = None, b_sortOrder = ''asc'',
     b_orders = (\<lambda>_. []), b_silentSort = True, b_search = True, b_searchText = None,
     b_strictSearch = False, b_filterColumns = [], b_uniqueId = [], b_url = [],
     b_queryParams = (\<lambda>v. v), b_responseHandler = (\<lambda>v. v), b_body = [], b_items = [],
     b_selectAll = False, b_pager = blank_pager, b_loading = False, b_reqs = [], b_events = []\<rparr>"

fun insert_by :: "('a \<Rightarrow> 'a \<Rightarrow> int) \<Rightarrow> 'a \<Rightarrow> 'a list \<Rightarrow> 'a list" where
  "insert_by c x [] = [x]"
| "insert_by c x (y # ys) = (if c x y \<le> 0 then x # y # ys else y # insert_by c x ys)"

definition demo_env :: env where
  "demo_env = \<lparr>js_sort = (\<lambda>c xs. foldr (insert_by c) xs []),
     localeCompare = (\<lambda>s t. if s < t then -1 else if s = t then 0 else 1)\<rparr>"

definition demo_table :: tbl where
  "demo_table = snd (init_table demo_env demo_opts)"

lemma mset_insert_by: "mset (insert_by c x ys) = add_mset x (mset ys)"
  by (induction ys) auto

lemma demo_sorts: "sorts demo_env"
proof -
  have "mset (foldr (insert_by c) xs []) = mset xs" for c and xs :: "nat list"
    by (induction xs) (simp_all add: mset_insert_by)
  then show ?thesis by (simp add: sorts_def demo_env_def)
qed

lemma demo_core: "core_ok (initHeader demo_opts)" "\<not> searched demo_opts"
  by (simp_all add: core_ok_def initHeader_def demo_opts_def demo_column_def widget_row_def state_key_def
      col_ok_def check_cols_def size_ok_def searched_def Let_def)

lemma demo_table_ok: "table_ok demo_table" "init_table demo_env demo_opts = (None, demo_table)"
    "b_odata demo_table = [0, 1, 2]" "b_pageSize demo_table = PageOf 2" "\<not> searched demo_table"
    "b_pageNumber demo_table = 1" "b_maintainSelected demo_table = False" "b_stateField demo_table = Some ''state''"
    "list_all (\<lambda>c. c_formatter c = None) (b_columns demo_table)" "\<not> b_strictSearch demo_table"
    "erase ''state'' (b_heap demo_table a) = b_heap demo_opts a" "\<not> marked ''state'' (b_heap demo_table a)"
proof -
  obtain u where u: "init_table demo_env demo_opts = (None, u)" "table_ok u" "b_odata u = b_odata demo_opts"
      "b_pageSize u = b_pageSize demo_opts" "\<not> searched u" "b_pageNumber u = 1"
      "b_maintainSelected u = b_maintainSelected demo_opts" "b_stateField u = b_stateField (initHeader demo_opts)"
      "b_columns u = b_columns demo_opts" "b_strictSearch u = b_strictSearch demo_opts"
      "\<forall>a. erase (state_key u) (b_heap u a) = erase (state_key u) (b_heap demo_opts a) \<and>
         marked (state_key u) (b_heap u a) = marked (state_key u) (b_heap demo_opts a)"
    using init_table_ok [OF demo_core demo_sorts] by (auto simp: demo_opts_def)
  have d: "demo_table = u" using u(1) by (simp add: demo_table_def)
  have s: "b_stateField u = Some ''state''"
    using u(8) by (simp add: initHeader_def demo_opts_def demo_column_def Let_def)
  have key: "state_key u = ''state''" using s by (simp add: state_key_def)
  show "table_ok demo_table" "init_table demo_env demo_opts = (None, demo_table)"
    "b_odata demo_table = [0, 1, 2]" "b_pageSize demo_table = PageOf 2" "\<not> searched demo_table"
    "b_pageNumber demo_table = 1" "b_maintainSelected demo_table = False" "b_stateField demo_table = Some ''state''"
    "list_all (\<lambda>c. c_formatter c = None) (b_columns demo_table)" "\<not> b_strictSearch demo_table"
    unfolding d using u(1-7,9,10) s by (simp_all add: demo_opts_def demo_column_def)
  have "erase ''state'' (b_heap demo_opts a) = b_heap demo_opts a" "\<not> marked ''state'' (b_heap demo_opts a)"
    by (simp_all add: demo_opts_def widget_row_def marked_def prop_of_def)
  with u(11) key show "erase ''state'' (b_heap demo_table a) = b_heap demo_opts a" "\<not> marked ''state'' (b_heap demo_table a)"
    unfolding d by simp_all
qed

lemma demo_pages: "row_count demo_table = 3" "page_count demo_table = 2" "b_totalPages demo_table = 2" "paged demo_table"
    "\<not> pg_last_off (b_pager demo_table)" "state_key demo_table = ''state''"
proof -
  have "getData demo_table = [0, 1, 2]"
    using getData_searched demo_table_ok(1,3,5) by (simp add: getData_def)
  then show n: "row_count demo_table = 3" by (simp add: row_count_def)
  then show p: "page_count demo_table = 2" using demo_table_ok(4) by (simp add: page_count_def page_rows_def)
  show "b_totalPages demo_table = 2" "\<not> pg_last_off (b_pager demo_table)"
    using pager_drawn(1,2) [OF demo_table_ok(1)] p demo_table_ok(6) by (simp_all add: draw_pager_def split_beta)
  show "paged demo_table" using linked_paged table_ok_parts [OF demo_table_ok(1)] by blast
  show "state_key demo_table = ''state''" using demo_table_ok(8) by (simp add: state_key_def)
qed

section \<open>Witnesses\<close>

theorem table_events_safe_witness:
  "\<exists>u. t_steps demo_env demo_table [(PageNext, None)] u \<and> 1 \<le> b_pageNumber u \<and> map fst (b_body u) = page_indices u"
proof -
  obtain u where u: "t_fire demo_env PageNext demo_table = (None, u)"
    using event_ok [OF demo_table_ok(1) demo_sorts, of PageNext] demo_pages(5) by auto
  have "t_possible PageNext demo_table" using demo_pages(5) by simp
  from t_more [OF t_none this u] have s: "t_steps demo_env demo_table [(PageNext, None)] u" by simp
  from table_events_safe [OF demo_core demo_sorts demo_table_ok(2) this] s show ?thesis by blast
qed

theorem pages_partition_witness:
  "concat (map (\<lambda>p. getPageData (initPagination (demo_table\<lparr>b_pageNumber := p\<rparr>)))
      [1..b_totalPages (initPagination demo_table)]) = [0, 1, 2]"
  using pages_partition [OF demo_pages(4)] demo_table_ok(1,3,5) by (simp add: getData_def)

theorem widget_simulates_page_table_witness:
  "answer (QSelections ''t'') (empty_sys\<lparr>rows := (\<lambda>_. view demo_table)\<rparr>) = JArr (selected_rows demo_table) \<and>
   (\<exists>u. remove_rows ''id'' (JArr [JNum 2]) demo_table = (None, u) \<and>
      rows (apply_effect (TableRemove ''t'' ''id'' (JArr [JNum 2])) (empty_sys\<lparr>rows := (\<lambda>_. view demo_table)\<rparr>)) ''t'' = view u)"
  using widget_simulates_page_table [OF demo_table_ok(1,5), of "empty_sys\<lparr>rows := (\<lambda>_. view demo_table)\<rparr>" "''t''"
      "''id''" "JArr [JNum 2]"] demo_pages(6) by simp

theorem page_change_selection_witness:
  "\<exists>u. t_fire demo_env PageNext demo_table = (None, u) \<and> view u = map (\<lambda>(r, b). (r, False)) (view demo_table)"
  using page_change_selection [OF demo_table_ok(1,5), of PageNext "''state''" demo_env] demo_table_ok(7,8) demo_pages(5)
  by simp

theorem disabled_previous_throws_witness:
  "\<exists>u v w. onPagePre demo_table = (None, u) \<and> onPagePre u = (None, v) \<and>
    onPageNext v = (Some (TypeError ''_data''), w)"
  using disabled_previous_throws [OF demo_table_ok(1,6) _ demo_table_ok(4)] demo_pages(3) by simp

theorem search_and_clear_witness:
  "\<exists>u v. onSearch ''an'' demo_table = (None, u) \<and>
    getData u = filter (\<lambda>a. shows_text demo_table ''an'' (b_heap demo_table a)) [0, 1, 2] \<and>
    onSearch [] u = (None, v) \<and> getData v = [0, 1, 2]"
proof -
  have "trim ''an'' = ''an''" "to_lower ''an'' = ''an''"
    by (simp_all add: is_ws_def to_lower_def lower_char_def Let_def)
  then show ?thesis
    using search_and_clear [OF demo_table_ok(1,5) _ demo_table_ok(9,10), of "''an''"] demo_table_ok(3) by auto
qed

theorem sort_lost_after_search_witness:
  "\<exists>u v w. onSearch ''an'' demo_table = (None, u) \<and> onSort demo_env ''name'' u = (None, v) \<and>
    onSearch [] v = (None, w) \<and> getData w = [0, 1, 2] \<and> b_sortName w = Some ''name''"
proof -
  have "trim ''an'' \<noteq> []" by (simp add: trim_Nil_iff is_ws_def)
  from sort_lost_after_search [OF demo_table_ok(1,5) this demo_sorts] show ?thesis by (simp add: demo_table_ok(3))
qed

end
