(* ===== verification/JsGrid.thy ===== *)
theory JsGrid
  imports BootTable
begin

text \<open>
  The editable grid of the schema forms: jsGrid, in the copy the console ships and has adapted
  (\<open>plugins/jqgrid/validation/jsgrid.*.js\<close>). The state of a grid is a record: the item objects in a
  store, the array \<open>data\<close> of references into it, the options the operations read, and what is on
  the screen: the rows with their cells, the controls of the insert row, the row under edit with its
  controls, and the pager. An item is found by identity, as in the code. All operations run to their
  end at once, because every grid of the console keeps the default controller, whose methods answer
  \<open>undefined\<close> immediately, and data in memory (\<open>DirectLoadingStrategy\<close>); its event hooks are the
  default \<open>$.noop\<close>. An operation returns the exception it ends with, if any, and the state it leaves.
  Left out: the filter row, custom renderers, number fields, validators given as functions,
  \<open>PageLoadingStrategy\<close>, the load indicator, and sizes and style classes.
\<close>

section \<open>Validation\<close>

text \<open>The named validators with their parameter; a regular expression is the set of texts it accepts.\<close>

datatype validator =
    Required
  | RangeLength jsval jsval
  | MinLength jsval
  | MaxLength jsval
  | InRange jsval jsval
  | MinValue jsval
  | MaxValue jsval
  | Pattern "string \<Rightarrow> bool"

text \<open>\<open>a >= b\<close>: two strings lexicographically, otherwise as numbers.\<close>

fun js_ge :: "jsval \<Rightarrow> jsval \<Rightarrow> bool" where
  "js_ge (JStr s) (JStr t) = (t \<le> s)"
| "js_ge a b = (case (to_num a, to_num b) of (Some m, Some n) \<Rightarrow> n \<le> m | _ \<Rightarrow> False)"

text \<open>A validator's verdict; \<open>None\<close> is the \<open>TypeError\<close> of reading the length of nothing.\<close>

fun validator_ok :: "validator \<Rightarrow> jsval \<Rightarrow> bool option" where
  "validator_ok Required v = Some (v \<noteq> JUndef \<and> v \<noteq> JNull \<and> v \<noteq> JStr [])"
| "validator_ok (RangeLength a b) v =
     map_option (\<lambda>n. js_ge n a \<and> js_ge b n) (get_prop v ''length'')"
| "validator_ok (MinLength a) v = map_option (\<lambda>n. js_ge n a) (get_prop v ''length'')"
| "validator_ok (MaxLength b) v = map_option (\<lambda>n. js_ge b n) (get_prop v ''length'')"
| "validator_ok (InRange a b) v = Some (js_ge v a \<and> js_ge b v)"
| "validator_ok (MinValue a) v = Some (js_ge v a)"
| "validator_ok (MaxValue b) v = Some (js_ge b v)"
| "validator_ok (Pattern re) v = Some (re (js_str v))"

fun message :: "validator \<Rightarrow> string" where
  "message Required = ''the column must be filled in''"
| "message (RangeLength a b) = ''Field value length is out of the defined range''"
| "message (MinLength a) = ''Field value is too short''"
| "message (MaxLength b) = ''Field value is too long''"
| "message (InRange a b) = ''Field value is out of the defined range''"
| "message (MinValue a) = ''Field value is too small''"
| "message (MaxValue b) = ''Field value is too large''"
| "message (Pattern re) = ''Field value is not matching the defined pattern''"

fun validate :: "validator list \<Rightarrow> jsval \<Rightarrow> string list option" where
  "validate [] v = Some []"
| "validate (r # rs) v = (case validator_ok r v of
     None \<Rightarrow> None
   | Some b \<Rightarrow> map_option (\<lambda>es. if b then es else message r # es) (validate rs v))"

section \<open>Fields and controls\<close>

text \<open>
  The types of field the forms use. The items of a selection are objects with the properties
  \<open>name\<close> and \<open>value\<close>, which the forms give as \<open>textField\<close> and \<open>valueField\<close>.
\<close>

datatype field_type =
    TextField
  | SelectField "(string \<times> int) list"
  | CheckboxField
  | ControlField

datatype sorter = ByString | ByNumber

record grid_field =
  f_name :: string
  f_type :: field_type
  f_visible :: bool
  f_inserting :: bool
  f_editing :: bool
  f_sorting :: bool
  f_sorter :: sorter
  f_validate :: "validator list"

text \<open>A control of the insert row or of the edit row, with what the user has put into it.\<close>

datatype control = NoControl | TextBox string | SelectBox "nat option" | CheckBox bool

definition first_option :: "(string \<times> int) list \<Rightarrow> nat option" where
  "first_option items = (if items = [] then None else Some 0)"

definition insertTemplate :: "grid_field \<Rightarrow> control" where
  "insertTemplate f = (if \<not> f_inserting f then NoControl else
     case f_type f of
       TextField \<Rightarrow> TextBox []
     | SelectField items \<Rightarrow> SelectBox (first_option items)
     | CheckboxField \<Rightarrow> CheckBox False
     | ControlField \<Rightarrow> NoControl)"

text \<open>\<open>$(select).val(v)\<close>: the first option whose value is the text of \<open>v\<close>, none otherwise.\<close>

fun val_keys :: "jsval \<Rightarrow> string list" where
  "val_keys JNull = [[]]"
| "val_keys (JNum n) = [show_int n]"
| "val_keys JNaN = [''NaN'']"
| "val_keys (JStr s) = [s]"
| "val_keys (JArr vs) = map (\<lambda>v. if nullish v then [] else js_str v) vs"
| "val_keys v = []"

fun first_index :: "('a \<Rightarrow> bool) \<Rightarrow> 'a list \<Rightarrow> nat option" where
  "first_index P [] = None"
| "first_index P (x # xs) = (if P x then Some 0 else map_option Suc (first_index P xs))"

definition select_option :: "(string \<times> int) list \<Rightarrow> jsval \<Rightarrow> nat option" where
  "select_option items v = first_index (\<lambda>it. show_int (snd it) \<in> set (val_keys v)) items"

definition editTemplate :: "grid_field \<Rightarrow> jsval \<Rightarrow> control" where
  "editTemplate f v = (if \<not> f_editing f then NoControl else
     case f_type f of
       TextField \<Rightarrow> TextBox (if nullish v then [] else js_str v)
     | SelectField items \<Rightarrow>
         SelectBox (if v = JUndef then first_option items else select_option items v)
     | CheckboxField \<Rightarrow> CheckBox (truthy v)
     | ControlField \<Rightarrow> NoControl)"

text \<open>
  The value of a control, \<open>insertValue\<close> and \<open>editValue\<close> alike: a selection without a chosen option has
  the value \<open>null\<close>, which \<open>parseInt(val || 0, 10)\<close> makes 0.
\<close>

fun control_value :: "field_type \<Rightarrow> control \<Rightarrow> jsval" where
  "control_value TextField (TextBox s) = JStr s"
| "control_value (SelectField items) (SelectBox (Some i)) =
     (if i < length items then js_parseInt (show_int (snd (items ! i))) else JNum 0)"
| "control_value (SelectField items) (SelectBox None) = JNum 0"
| "control_value CheckboxField (CheckBox b) = JBool b"
| "control_value t c = JStr []"

text \<open>What a cell shows.\<close>

datatype cell = TextCell jsval | CheckCell bool | ButtonCell

definition select_text :: "(string \<times> int) list \<Rightarrow> jsval \<Rightarrow> string" where
  "select_text items v = (case find (\<lambda>(name, value). js_seq (JNum value) v) items of
     Some (name, value) \<Rightarrow> name | None \<Rightarrow> [])"

definition itemTemplate :: "grid_field \<Rightarrow> jsval \<Rightarrow> cell" where
  "itemTemplate f v = (case f_type f of
       TextField \<Rightarrow> TextCell (if nullish v then JStr [] else v)
     | SelectField items \<Rightarrow> TextCell (JStr (select_text items v))
     | CheckboxField \<Rightarrow> CheckCell (truthy v)
     | ControlField \<Rightarrow> ButtonCell)"

section \<open>Values of items\<close>

fun dig :: "jsval \<Rightarrow> string list \<Rightarrow> jsval" where
  "dig v [] = v"
| "dig v (k # ks) = (if truthy v then dig (prop_of v k) ks else v)"

definition path :: "grid_field \<Rightarrow> string list" where
  "path f = split_at (CHR ''.'') (f_name f)"

definition getItemFieldValue :: "jsval \<Rightarrow> grid_field \<Rightarrow> jsval option" where
  "getItemFieldValue item f =
     map_option (\<lambda>v. dig v (tl (path f))) (get_prop item (hd (path f)))"

fun set_path :: "jsval \<Rightarrow> string list \<Rightarrow> jsval \<Rightarrow> jsval" where
  "set_path v [] x = v"
| "set_path v [k] x = set_prop v k x"
| "set_path v (k # k' # ks) x = (let c = prop_of v k in
     set_prop v k (set_path (if truthy c then c else JObj []) (k' # ks) x))"

definition setItemFieldValue :: "jsval \<Rightarrow> grid_field \<Rightarrow> jsval \<Rightarrow> jsval" where
  "setItemFieldValue item f x = set_path item (path f) x"

text \<open>
  \<open>$.extend(true, target, source)\<close> for a source of primitive values and objects: objects are merged,
  \<open>undefined\<close> is skipped.
\<close>

fun extend_deep :: "(string \<times> jsval) list \<Rightarrow> (string \<times> jsval) list \<Rightarrow> (string \<times> jsval) list" where
  "extend_deep target [] = target"
| "extend_deep target ((k, JUndef) # fs) = extend_deep target fs"
| "extend_deep target ((k, JObj gs) # fs) =
     extend_deep (put k (JObj (extend_deep (case map_of target k of Some (JObj hs) \<Rightarrow> hs | _ \<Rightarrow> []) gs)) target) fs"
| "extend_deep target ((k, v) # fs) = extend_deep (put k v target) fs"

fun extend_item :: "jsval \<Rightarrow> jsval \<Rightarrow> jsval" where
  "extend_item (JObj target) (JObj source) = JObj (extend_deep target source)"
| "extend_item v w = v"

section \<open>State\<close>

record grid_row =
  r_item :: nat
  r_cells :: "cell list"

text \<open>
  The parts of the pager: text, a link of the navigation with its target and whether it is active, the
  link of a page, the number of the current page, and the two links that move the window of pages.
\<close>

datatype pager_part =
    Words string
  | Nav string int bool
  | PageLink int
  | CurrentPage int
  | PrevPages
  | NextPages
  | Number int

record grid =
  g_heap :: "nat \<Rightarrow> jsval"
  g_next :: nat
  g_data :: "nat list"
  g_fields :: "grid_field list"
  g_editing :: bool
  g_inserting :: bool
  g_sorting :: bool
  g_confirmDeleting :: bool
  g_paging :: bool
  g_pageIndex :: int
  g_pageSize :: int
  g_pageButtonCount :: int
  g_pagerFormat :: string
  g_firstPage :: int
  g_sortField :: "nat option"
  g_sortAsc :: bool
  g_rows :: "grid_row list"
  g_insertRow :: "control list"
  g_editRow :: "(nat \<times> control list) option"
  g_pager :: "pager_part list"
  g_pagerShown :: bool
  g_alerts :: "string list"

type_synonym gact = "grid \<Rightarrow> js_error option \<times> grid"

definition g_items :: "grid \<Rightarrow> jsval list" where
  "g_items g = map (g_heap g) (g_data g)"

definition g_alert :: "string \<Rightarrow> grid \<Rightarrow> grid" where
  "g_alert m g = g\<lparr>g_alerts := g_alerts g @ [m]\<rparr>"

text \<open>New item objects.\<close>

definition g_alloc :: "jsval list \<Rightarrow> grid \<Rightarrow> nat list \<times> grid" where
  "g_alloc vs g = ([g_next g..<g_next g + length vs],
     g\<lparr>g_heap := (\<lambda>a. if g_next g \<le> a \<and> a < g_next g + length vs then vs ! (a - g_next g)
          else g_heap g a),
       g_next := g_next g + length vs\<rparr>)"

section \<open>Paging\<close>

definition itemsCount :: "grid \<Rightarrow> int" where
  "itemsCount g = int (length (g_data g))"

definition pagesCount :: "grid \<Rightarrow> int" where
  "pagesCount g = itemsCount g div g_pageSize g + (if itemsCount g mod g_pageSize g \<noteq> 0 then 1 else 0)"

definition firstDisplayIndex :: "grid \<Rightarrow> int" where
  "firstDisplayIndex g = (if g_paging g then (g_pageIndex g - 1) * g_pageSize g else 0)"

definition lastDisplayIndex :: "grid \<Rightarrow> int" where
  "lastDisplayIndex g =
     (if g_paging g then min (g_pageIndex g * g_pageSize g) (itemsCount g) else itemsCount g)"

text \<open>
  The loop of \<open>_createPages\<close>: at most \<open>k\<close> buttons, from page \<open>n\<close> on, up to the last page.
\<close>

fun page_links :: "nat \<Rightarrow> int \<Rightarrow> int \<Rightarrow> int \<Rightarrow> pager_part list" where
  "page_links 0 n pageCount pageIndex = []"
| "page_links (Suc k) n pageCount pageIndex =
     (if n \<le> pageCount
      then (if n = pageIndex then CurrentPage n else PageLink n) # page_links k (n + 1) pageCount pageIndex
      else [])"

definition createPages :: "grid \<Rightarrow> pager_part list" where
  "createPages g =
     (if g_firstPage g > 1 then [PrevPages] else []) @
     page_links (nat (g_pageButtonCount g)) (g_firstPage g) (pagesCount g) (g_pageIndex g) @
     (if g_firstPage g + g_pageButtonCount g - 1 < pagesCount g then [NextPages] else [])"

definition format_part :: "grid \<Rightarrow> string \<Rightarrow> pager_part list" where
  "format_part g p = (let i = g_pageIndex g; n = pagesCount g in
     if p = ''{pages}'' then createPages g
     else if p = ''{first}'' then [Nav ''First'' 1 (i > 1)]
     else if p = ''{prev}'' then [Nav ''Prev'' (i - 1) (i > 1)]
     else if p = ''{next}'' then [Nav ''Next'' (i + 1) (i < n)]
     else if p = ''{last}'' then [Nav ''Last'' n (i < n)]
     else if p = ''{pageIndex}'' then [Number i]
     else if p = ''{pageCount}'' then [Number n]
     else if p = ''{itemCount}'' then [Number (itemsCount g)]
     else [Words p])"

definition createPagerByFormat :: "grid \<Rightarrow> pager_part list" where
  "createPagerByFormat g =
     concat (map (\<lambda>p. format_part g p @ [Words '' '']) (split_at (CHR '' '') (g_pagerFormat g)))"

definition refreshPager :: "grid \<Rightarrow> grid" where
  "refreshPager g = g\<lparr>g_pager := (if g_paging g then createPagerByFormat g else []),
     g_pagerShown := (g_paging g \<and> pagesCount g > 1)\<rparr>"

section \<open>Drawing\<close>

text \<open>
  The cells of a row; \<open>None\<close> is the \<open>TypeError\<close> of an item that is \<open>null\<close> or \<open>undefined\<close>, which is
  raised as soon as a visible field is read.
\<close>

fun renderCells :: "jsval \<Rightarrow> grid_field list \<Rightarrow> cell list option" where
  "renderCells item [] = Some []"
| "renderCells item (f # fs) =
     (if f_visible f
      then (case getItemFieldValue item f of
          None \<Rightarrow> None
        | Some v \<Rightarrow> map_option (Cons (itemTemplate f v)) (renderCells item fs))
      else renderCells item fs)"

definition createRow :: "grid \<Rightarrow> nat \<Rightarrow> grid_row option" where
  "createRow g a =
     map_option (\<lambda>cs. \<lparr>r_item = a, r_cells = cs\<rparr>) (renderCells (g_heap g a) (g_fields g))"

fun createRows :: "grid \<Rightarrow> nat list \<Rightarrow> bool \<times> grid_row list" where
  "createRows g [] = (True, [])"
| "createRows g (a # as) = (case createRow g a of
     None \<Rightarrow> (False, [])
   | Some r \<Rightarrow> (case createRows g as of (good, rs) \<Rightarrow> (good, r # rs)))"

text \<open>The references the loop of \<open>_refreshContent\<close> visits.\<close>

definition displayed :: "grid \<Rightarrow> nat list" where
  "displayed g = take (nat (lastDisplayIndex g - firstDisplayIndex g))
     (drop (nat (firstDisplayIndex g)) (g_data g))"

definition refreshContent :: gact where
  "refreshContent g = (case createRows g (displayed g) of (good, rs) \<Rightarrow>
     (if good then None else Some (TypeError ''item''), g\<lparr>g_rows := rs\<rparr>))"

definition cancelEdit :: "grid \<Rightarrow> grid" where
  "cancelEdit g = g\<lparr>g_editRow := None\<rparr>"

definition grid_refresh :: gact where
  "grid_refresh g = (case refreshContent (cancelEdit g) of
     (None, h) \<Rightarrow> (None, refreshPager h) | (Some e, h) \<Rightarrow> (Some e, h))"

definition createInsertRow :: "grid \<Rightarrow> control list" where
  "createInsertRow g = map (\<lambda>f. if f_visible f then insertTemplate f else NoControl) (g_fields g)"

definition renderGrid :: gact where
  "renderGrid g = grid_refresh (g\<lparr>g_editRow := None, g_rows := [], g_pager := [],
     g_insertRow := createInsertRow g\<rparr>)"

definition clearInsert :: gact where
  "clearInsert g = grid_refresh (g\<lparr>g_insertRow := createInsertRow g\<rparr>)"

text \<open>
  \<open>$("#...").jsGrid({data, editing, inserting, fields})\<close> on a fresh element: the defaults of
  \<open>Grid.prototype\<close>, with the options the forms set as arguments.
\<close>

definition default_pagerFormat :: string where
  "default_pagerFormat =
     ''Pages: {first} {prev} {pages} {next} {last} &nbsp;&nbsp; {pageIndex} of {pageCount}''"

definition new_grid :: "bool \<Rightarrow> bool \<Rightarrow> grid_field list \<Rightarrow> jsval list \<Rightarrow> grid" where
  "new_grid editing inserting fs vs =
     \<lparr>g_heap = (\<lambda>a. if a < length vs then vs ! a else JUndef), g_next = length vs,
      g_data = [0..<length vs], g_fields = fs, g_editing = editing, g_inserting = inserting,
      g_sorting = False, g_confirmDeleting = False, g_paging = False, g_pageIndex = 1, g_pageSize = 20,
      g_pageButtonCount = 15, g_pagerFormat = default_pagerFormat, g_firstPage = 1, g_sortField = None,
      g_sortAsc = True, g_rows = [], g_insertRow = [], g_editRow = None, g_pager = [],
      g_pagerShown = False, g_alerts = []\<rparr>"

definition jsGrid :: "bool \<Rightarrow> bool \<Rightarrow> grid_field list \<Rightarrow> jsval list \<Rightarrow> js_error option \<times> grid" where
  "jsGrid editing inserting fs vs = renderGrid (new_grid editing inserting fs vs)"

section \<open>Sorting\<close>

text \<open>The strategies \<open>string\<close> and \<open>number\<close>; \<open>Array.prototype.sort\<close> takes \<open>NaN\<close> as 0.\<close>

definition sort_strings :: "env \<Rightarrow> jsval \<Rightarrow> jsval \<Rightarrow> int" where
  "sort_strings E a b = (if nullish a \<and> nullish b then 0 else if nullish a then - 1
     else if nullish b then 1 else localeCompare E (js_str a) (js_str b))"

definition sort_numbers :: "jsval \<Rightarrow> jsval \<Rightarrow> int" where
  "sort_numbers a b = (case js_sub a b of JNum d \<Rightarrow> d | _ \<Rightarrow> 0)"

definition sortingFunc :: "env \<Rightarrow> grid_field \<Rightarrow> jsval \<Rightarrow> jsval \<Rightarrow> int" where
  "sortingFunc E f = (case f_sorter f of ByString \<Rightarrow> sort_strings E | ByNumber \<Rightarrow> sort_numbers)"

definition sortFactor :: "grid \<Rightarrow> int" where
  "sortFactor g = (if g_sortAsc g then 1 else - 1)"

text \<open>\<open>_sortData\<close>; reading a property of a \<open>null\<close> item in the comparison throws.\<close>

definition sortData :: "env \<Rightarrow> gact" where
  "sortData E g = (case g_sortField g of
     None \<Rightarrow> (None, g)
   | Some i \<Rightarrow>
       if 2 \<le> length (g_data g) \<and> list_ex nullish (g_items g) then (Some (TypeError ''sort''), g)
       else let f = g_fields g ! i; key = (\<lambda>a. prop_of (g_heap g a) (f_name f)) in
         (None, g\<lparr>g_data := js_sort E (\<lambda>a b. sortFactor g * sortingFunc E f (key a) (key b)) (g_data g)\<rparr>))"

definition setSortingParams :: "nat \<Rightarrow> grid \<Rightarrow> grid" where
  "setSortingParams i g = g\<lparr>g_sortField := Some i,
     g_sortAsc := (if g_sortField g = Some i then \<not> g_sortAsc g else True)\<rparr>"

definition sort_click :: "env \<Rightarrow> nat \<Rightarrow> gact" where
  "sort_click E i g = (case sortData E (setSortingParams i g) of
     (None, h) \<Rightarrow> grid_refresh h | (Some e, h) \<Rightarrow> (Some e, h))"

definition resetSorting :: "grid \<Rightarrow> grid" where
  "resetSorting g = g\<lparr>g_sortField := None, g_sortAsc := True\<rparr>"

section \<open>Turning pages\<close>

definition setPage :: "int \<Rightarrow> grid \<Rightarrow> grid" where
  "setPage p g = (let first = g_firstPage g; k = g_pageButtonCount g in
     g\<lparr>g_pageIndex := p,
       g_firstPage := (if p > first + k - 1 then p - k + 1 else if p < first then p else first)\<rparr>)"

definition openPage :: "int \<Rightarrow> gact" where
  "openPage p g = (if p < 1 \<or> p > pagesCount g then (None, g) else grid_refresh (setPage p g))"

definition showPrevPages :: "grid \<Rightarrow> grid" where
  "showPrevPages g = refreshPager (g\<lparr>g_firstPage :=
     (if g_firstPage g > g_pageButtonCount g then g_firstPage g - g_pageButtonCount g else 1)\<rparr>)"

definition showNextPages :: "grid \<Rightarrow> grid" where
  "showNextPages g = refreshPager (g\<lparr>g_firstPage :=
     (if g_firstPage g + 2 * g_pageButtonCount g > pagesCount g
      then pagesCount g - g_pageButtonCount g + 1 else g_firstPage g + g_pageButtonCount g)\<rparr>)"

definition resetPager :: "grid \<Rightarrow> grid" where
  "resetPager g = setPage 1 (g\<lparr>g_firstPage := 1\<rparr>)"

definition reset :: gact where
  "reset g = grid_refresh (resetPager (resetSorting g))"

text \<open>\<open>search\<close> with the default controller, which loads nothing.\<close>

definition search :: "grid \<Rightarrow> grid" where
  "search g = resetPager (resetSorting g)"

text \<open>A click on a part of the pager.\<close>

fun pager_click :: "pager_part \<Rightarrow> gact" where
  "pager_click (Nav t p active) g = (if active then openPage p g else (None, g))"
| "pager_click (PageLink p) g = openPage p g"
| "pager_click PrevPages g = (None, showPrevPages g)"
| "pager_click NextPages g = (None, showNextPages g)"
| "pager_click x g = (None, g)"

section \<open>Inserting\<close>

text \<open>\<open>_getInsertItem\<close> and \<open>_getEditedItem\<close>: the values of the visible fields that have a control.\<close>

fun read_controls ::
    "(grid_field \<Rightarrow> bool) \<Rightarrow> grid_field list \<Rightarrow> control list \<Rightarrow> jsval \<Rightarrow> jsval" where
  "read_controls on (f # fs) (c # cs) item = read_controls on fs cs
     (if f_visible f \<and> on f then setItemFieldValue item f (control_value (f_type f) c) else item)"
| "read_controls on fs cs item = item"

definition getInsertItem :: "grid \<Rightarrow> jsval" where
  "getInsertItem g = read_controls f_inserting (g_fields g) (g_insertRow g) (JObj [])"

text \<open>The messages of all validated fields, in order; \<open>None\<close> when a validator throws.\<close>

fun validation_errors ::
    "(grid_field \<Rightarrow> bool) \<Rightarrow> jsval \<Rightarrow> grid_field list \<Rightarrow> string list option" where
  "validation_errors on item [] = Some []"
| "validation_errors on item (f # fs) =
     (if f_visible f \<and> f_validate f \<noteq> [] \<and> on f
      then (case getItemFieldValue item f of
          None \<Rightarrow> None
        | Some v \<Rightarrow> (case (validate (f_validate f) v) of
            None \<Rightarrow> None
          | Some es \<Rightarrow> map_option ((@) es) (validation_errors on item fs)))
      else validation_errors on item fs)"

definition invalidNotify :: "string list \<Rightarrow> grid \<Rightarrow> grid" where
  "invalidNotify es g = g_alert (join [CHR 0x0A] (''invalid data!'' # es)) g"

text \<open>\<open>_validateItem\<close>: the exception, or whether the item is valid, after the alert if it is not.\<close>

definition validateItem :: "(grid_field \<Rightarrow> bool) \<Rightarrow> jsval \<Rightarrow> grid \<Rightarrow> (js_error + bool) \<times> grid" where
  "validateItem on item g = (case validation_errors on item (g_fields g) of
     None \<Rightarrow> (Inl (TypeError ''length''), g)
   | Some es \<Rightarrow> if es = [] then (Inr True, g) else (Inr False, invalidNotify es g))"

text \<open>How a call of \<open>insertItem\<close> ends: with a promise, with \<open>false\<close>, or with an exception.\<close>

datatype outcome = Fulfilled | Rejected | ReturnsFalse | Throws js_error

definition finishInsert :: "jsval \<Rightarrow> gact" where
  "finishInsert item g = (case g_alloc [item] g of (as, h) \<Rightarrow> grid_refresh (h\<lparr>g_data := g_data h @ as\<rparr>))"

text \<open>The console's own addition: a guard against dynamic primary keys, before the insertion.\<close>

definition insertItem :: "grid \<Rightarrow> outcome \<times> grid" where
  "insertItem g = (let item = getInsertItem g in
     case validateItem f_inserting item g of
       (Inl e, h) \<Rightarrow> (Throws e, h)
     | (Inr False, h) \<Rightarrow> (Rejected, h)
     | (Inr True, h) \<Rightarrow>
         if truthy (prop_of item ''regxs'') \<and> truthy (prop_of item ''primarykey'')
         then (ReturnsFalse, g_alert ''insert failed: primary key or dynamic column, not both'' h)
         else (case finishInsert item h of
             (None, k) \<Rightarrow> (Fulfilled, k) | (Some e, k) \<Rightarrow> (Throws e, k)))"

text \<open>The insert button: \<open>grid.insertItem().done(...)\<close>.\<close>

definition insert_click :: gact where
  "insert_click g = (case insertItem g of
     (Fulfilled, h) \<Rightarrow> clearInsert h
   | (Rejected, h) \<Rightarrow> (None, h)
   | (ReturnsFalse, h) \<Rightarrow> (Some (TypeError ''done''), h)
   | (Throws e, h) \<Rightarrow> (Some e, h))"

section \<open>Editing\<close>

definition itemIndex :: "grid \<Rightarrow> nat \<Rightarrow> int" where
  "itemIndex g a = (case first_index ((=) a) (g_data g) of None \<Rightarrow> - 1 | Some i \<Rightarrow> int i)"

text \<open>\<open>_createEditRow\<close>: the controls, filled from the item.\<close>

fun createEditRow :: "jsval \<Rightarrow> grid_field list \<Rightarrow> control list option" where
  "createEditRow item [] = Some []"
| "createEditRow item (f # fs) =
     (if f_visible f
      then (case getItemFieldValue item f of
          None \<Rightarrow> None
        | Some v \<Rightarrow> map_option (Cons (editTemplate f v)) (createEditRow item fs))
      else map_option (Cons NoControl) (createEditRow item fs))"

text \<open>A click on row \<open>i\<close>: \<open>rowClick\<close>, \<open>editItem\<close> and \<open>_editRow\<close>.\<close>

definition row_click :: "nat \<Rightarrow> gact" where
  "row_click i g = (if \<not> g_editing g then (None, g) else
     let h = cancelEdit g in
     case createEditRow (g_heap g (r_item (g_rows g ! i))) (g_fields g) of
       None \<Rightarrow> (Some (TypeError ''item''), h)
     | Some cs \<Rightarrow> (None, h\<lparr>g_editRow := Some (i, cs)\<rparr>))"

definition getEditedItem :: "control list \<Rightarrow> grid \<Rightarrow> jsval" where
  "getEditedItem cs g = read_controls f_editing (g_fields g) cs (JObj [])"

text \<open>
  \<open>_updateRow\<close> with \<open>_finishUpdate\<close>: the item object is changed in place, stored at its index (an
  index of -1 only makes a property of the array object), and its row is drawn again.
\<close>

definition grid_updateRow :: "nat \<Rightarrow> jsval \<Rightarrow> gact" where
  "grid_updateRow i edited g =
     (let a = r_item (g_rows g ! i); n = itemIndex g a;
          h = cancelEdit (g\<lparr>g_heap := (g_heap g)(a := extend_item (g_heap g a) edited),
                g_data := (if n < 0 then g_data g else (g_data g)[nat n := a])\<rparr>)
      in case createRow h a of
           None \<Rightarrow> (Some (TypeError ''item''), h)
         | Some r \<Rightarrow> (None, h\<lparr>g_rows := (g_rows h)[i := r]\<rparr>))"

text \<open>The update button; without a row under edit \<open>updateItem\<close> reads \<open>null\<close>.\<close>

definition updateItem :: gact where
  "updateItem g = (case g_editRow g of
     None \<Rightarrow> (Some (TypeError ''null''), g)
   | Some (i, cs) \<Rightarrow> (let item = getEditedItem cs g in
       case validateItem f_editing item g of
         (Inl e, h) \<Rightarrow> (Some e, h)
       | (Inr False, h) \<Rightarrow> (None, h)
       | (Inr True, h) \<Rightarrow> grid_updateRow i item h))"

section \<open>Deleting\<close>

text \<open>\<open>xs.splice(i, 1)\<close>: a negative index counts from the end.\<close>

definition splice_at :: "int \<Rightarrow> 'a list \<Rightarrow> 'a list" where
  "splice_at i xs = (if i < 0 then splice1 (nat (max 0 (int (length xs) + i))) xs else splice1 (nat i) xs)"

definition finishDelete :: "int \<Rightarrow> gact" where
  "finishDelete i g = reset (g\<lparr>g_data := splice_at i (g_data g)\<rparr>)"

text \<open>
  The delete button of the row that shows item \<open>a\<close>; \<open>yes\<close> is the answer to \<open>window.confirm\<close>, where the
  grid asks. The console's own addition: a primary key is kept.
\<close>

definition deleteItem :: "nat \<Rightarrow> bool \<Rightarrow> gact" where
  "deleteItem a yes g =
     (if a \<notin> r_item ` set (g_rows g) then (None, g)
      else if g_confirmDeleting g \<and> \<not> yes then (None, g)
      else if js_eq (prop_of (g_heap g a) ''primary_key'') (JNum 1)
        then (None, g_alert ''a primary key cannot be deleted'' g)
      else finishDelete (itemIndex g a) g)"

section \<open>Options\<close>

text \<open>\<open>_handleOptionChange\<close> for the options that concern the data, the rows and the pager.\<close>

datatype grid_option =
    OData "jsval list"
  | OEditing bool
  | OInserting bool
  | OPaging bool
  | OPageIndex int
  | OPageSize int
  | OPageButtonCount int
  | OPagerFormat string
  | OFields "grid_field list"

fun handleOptionChange :: "grid_option \<Rightarrow> gact" where
  "handleOptionChange (OData vs) g = (case g_alloc vs g of (as, h) \<Rightarrow> grid_refresh (h\<lparr>g_data := as\<rparr>))"
| "handleOptionChange (OEditing b) g = grid_refresh (g\<lparr>g_editing := b\<rparr>)"
| "handleOptionChange (OInserting b) g = grid_refresh (g\<lparr>g_inserting := b\<rparr>)"
| "handleOptionChange (OPaging b) g = grid_refresh (g\<lparr>g_paging := b\<rparr>)"
| "handleOptionChange (OPageIndex p) g = openPage p (g\<lparr>g_pageIndex := p\<rparr>)"
| "handleOptionChange (OPageSize n) g = (case grid_refresh (g\<lparr>g_pageSize := n\<rparr>) of
     (None, h) \<Rightarrow> (None, search h) | (Some e, h) \<Rightarrow> (Some e, h))"
| "handleOptionChange (OPageButtonCount n) g = (None, refreshPager (g\<lparr>g_pageButtonCount := n\<rparr>))"
| "handleOptionChange (OPagerFormat s) g = (None, refreshPager (g\<lparr>g_pagerFormat := s\<rparr>))"
| "handleOptionChange (OFields fs) g = renderGrid (g\<lparr>g_fields := fs\<rparr>)"

end
