(* ===== verification/GridProps.thy ===== *)
theory GridProps
  imports JsGrid BootSpec
begin

text \<open>
  What the user can do to a grid, the invariant of the grid (no item twice, items are objects, the rows
  on the screen are the current items of the page, page number and page window within their bounds), and
  that every event the screen offers keeps it and raises no exception; the pager; single operations.
\<close>

section \<open>Events\<close>

datatype grid_event =
    TypeInsert nat control
  | TypeEdit nat control
  | PressInsert
  | ClickRow nat
  | PressUpdate
  | PressCancel
  | PressDelete nat bool
  | ClickHeader nat
  | ClickPager pager_part

fun grid_fire :: "env \<Rightarrow> grid_event \<Rightarrow> gact" where
  "grid_fire E (TypeInsert i c) g = (None, g\<lparr>g_insertRow := (g_insertRow g)[i := c]\<rparr>)"
| "grid_fire E (TypeEdit i c) g =
     (None, g\<lparr>g_editRow := map_option (\<lambda>(r, cs). (r, cs[i := c])) (g_editRow g)\<rparr>)"
| "grid_fire E PressInsert g = insert_click g"
| "grid_fire E (ClickRow i) g = row_click i g"
| "grid_fire E PressUpdate g = updateItem g"
| "grid_fire E PressCancel g = (None, cancelEdit g)"
| "grid_fire E (PressDelete i yes) g = deleteItem (r_item (g_rows g ! i)) yes g"
| "grid_fire E (ClickHeader i) g = sort_click E i g"
| "grid_fire E (ClickPager x) g = pager_click x g"

text \<open>The control takes input of this form.\<close>

fun fits :: "field_type \<Rightarrow> control \<Rightarrow> bool" where
  "fits TextField (TextBox s) = True"
| "fits (SelectField items) (SelectBox (Some i)) = (i < length items)"
| "fits CheckboxField (CheckBox b) = True"
| "fits t c = False"

text \<open>Row \<open>i\<close> is on the screen: the row under edit is hidden behind its edit row.\<close>

definition row_visible :: "grid \<Rightarrow> nat \<Rightarrow> bool" where
  "row_visible g i \<longleftrightarrow> i < length (g_rows g) \<and> map_option fst (g_editRow g) \<noteq> Some i"

fun offered :: "grid \<Rightarrow> grid_event \<Rightarrow> bool" where
  "offered g (TypeInsert i c) = (g_inserting g \<and> i < length (g_fields g) \<and> f_visible (g_fields g ! i) \<and>
     f_inserting (g_fields g ! i) \<and> fits (f_type (g_fields g ! i)) c)"
| "offered g (TypeEdit i c) = (g_editRow g \<noteq> None \<and> i < length (g_fields g) \<and>
     f_visible (g_fields g ! i) \<and> f_editing (g_fields g ! i) \<and> fits (f_type (g_fields g ! i)) c)"
| "offered g PressInsert = g_inserting g"
| "offered g (ClickRow i) = row_visible g i"
| "offered g PressUpdate = (g_editRow g \<noteq> None)"
| "offered g PressCancel = (g_editRow g \<noteq> None)"
| "offered g (PressDelete i yes) = row_visible g i"
| "offered g (ClickHeader i) = (g_sorting g \<and> i < length (g_fields g) \<and> f_visible (g_fields g ! i) \<and>
     f_sorting (g_fields g ! i))"
| "offered g (ClickPager x) = (g_pagerShown g \<and> x \<in> set (g_pager g))"

inductive grid_reach :: "env \<Rightarrow> grid \<Rightarrow> grid \<Rightarrow> bool" for E g0 where
  start: "grid_reach E g0 g0"
| event: "grid_reach E g0 g \<Longrightarrow> offered g e \<Longrightarrow> grid_reach E g0 (snd (grid_fire E e g))"

section \<open>Invariant\<close>

fun is_obj :: "jsval \<Rightarrow> bool" where
  "is_obj (JObj fs) = True"
| "is_obj v = False"

text \<open>
  Fields whose validators cannot throw, none of which is the property \<open>primarykey\<close> the insertion looks
  at.
\<close>

definition fields_ok :: "grid_field list \<Rightarrow> bool" where
  "fields_ok fs \<longleftrightarrow> list_all (\<lambda>f. set (f_validate f) \<subseteq> {Required} \<and> hd (path f) \<noteq> ''primarykey'') fs"

definition pages_ok :: "grid \<Rightarrow> bool" where
  "pages_ok g \<longleftrightarrow> 1 \<le> g_pageIndex g \<and> g_pageIndex g \<le> max 1 (pagesCount g) \<and>
     1 \<le> g_firstPage g \<and> g_firstPage g \<le> max 1 (pagesCount g)"

definition grid_core :: "grid \<Rightarrow> bool" where
  "grid_core g \<longleftrightarrow> fields_ok (g_fields g) \<and> 0 < g_pageSize g \<and> 0 < g_pageButtonCount g \<and>
     distinct (g_data g) \<and> list_all (\<lambda>a. a < g_next g \<and> is_obj (g_heap g a)) (g_data g) \<and>
     length (g_insertRow g) = length (g_fields g) \<and> pages_ok g"

definition draw :: "grid \<Rightarrow> nat \<Rightarrow> grid_row" where
  "draw g a = \<lparr>r_item = a, r_cells = the (renderCells (g_heap g a) (g_fields g))\<rparr>"

definition grid_ok :: "grid \<Rightarrow> bool" where
  "grid_ok g \<longleftrightarrow> grid_core g \<and> g_rows g = map (draw g) (displayed g) \<and>
     g_pager g = (if g_paging g then createPagerByFormat g else []) \<and>
     g_pagerShown g = (g_paging g \<and> pagesCount g > 1) \<and>
     pred_option (\<lambda>(i, cs). i < length (displayed g) \<and> length cs = length (g_fields g)) (g_editRow g)"

text \<open>What \<open>refresh\<close> leaves.\<close>

definition grid_refreshed :: "grid \<Rightarrow> grid" where
  "grid_refreshed g = g\<lparr>g_editRow := None, g_rows := map (draw g) (displayed g),
     g_pager := (if g_paging g then createPagerByFormat g else []),
     g_pagerShown := (g_paging g \<and> pagesCount g > 1)\<rparr>"

subsection \<open>Drawing\<close>

lemma is_obj_get_prop: "is_obj v \<Longrightarrow> get_prop v k = Some (prop_of v k)"
  by (cases v) (auto simp: prop_of_def)

lemma getItemFieldValue_obj: "is_obj item \<Longrightarrow> \<exists>v. getItemFieldValue item f = Some v"
  by (simp add: getItemFieldValue_def is_obj_get_prop)

lemma renderCells_obj: "is_obj item \<Longrightarrow> \<exists>cs. renderCells item fs = Some cs"
proof (induction fs)
  case (Cons f fs)
  with getItemFieldValue_obj [of item f] show ?case by auto
qed simp

lemma createRow_draw: "is_obj (g_heap g a) \<Longrightarrow> createRow g a = Some (draw g a)"
  using renderCells_obj [of "g_heap g a" "g_fields g"] by (auto simp: createRow_def draw_def)

lemma createRows_draw:
  "list_all (\<lambda>a. is_obj (g_heap g a)) as \<Longrightarrow> createRows g as = (True, map (draw g) as)"
  by (induction as) (auto simp: createRow_draw)

lemma createEditRow_obj:
  "is_obj item \<Longrightarrow> \<exists>cs. createEditRow item fs = Some cs \<and> length cs = length fs"
proof (induction fs)
  case (Cons f fs)
  with getItemFieldValue_obj [of item f] show ?case by auto
qed simp

lemma set_displayed: "set (displayed g) \<subseteq> set (g_data g)"
  by (auto simp: displayed_def dest: in_set_takeD in_set_dropD)

lemma distinct_displayed: "distinct (g_data g) \<Longrightarrow> distinct (displayed g)"
  by (simp add: displayed_def)

text \<open>Nothing the pager or the rows read depends on what is on the screen.\<close>

lemma counts_update [simp]:
  "pagesCount (g\<lparr>g_rows := r\<rparr>) = pagesCount g" "pagesCount (g\<lparr>g_editRow := e\<rparr>) = pagesCount g"
  "pagesCount (g\<lparr>g_pager := p\<rparr>) = pagesCount g" "pagesCount (g\<lparr>g_pagerShown := b\<rparr>) = pagesCount g"
  "pagesCount (g\<lparr>g_heap := hp\<rparr>) = pagesCount g" "pagesCount (g\<lparr>g_insertRow := ir\<rparr>) = pagesCount g"
  "pagesCount (g\<lparr>g_alerts := al\<rparr>) = pagesCount g" "pagesCount (g\<lparr>g_pageIndex := n\<rparr>) = pagesCount g"
  "pagesCount (g\<lparr>g_firstPage := n\<rparr>) = pagesCount g" "pagesCount (g\<lparr>g_next := k\<rparr>) = pagesCount g"
  "pagesCount (g\<lparr>g_sortField := sf\<rparr>) = pagesCount g" "pagesCount (g\<lparr>g_sortAsc := b\<rparr>) = pagesCount g"
  by (simp_all add: pagesCount_def itemsCount_def)

lemma displayed_update [simp]:
  "displayed (g\<lparr>g_rows := r\<rparr>) = displayed g" "displayed (g\<lparr>g_editRow := e\<rparr>) = displayed g"
  "displayed (g\<lparr>g_pager := p\<rparr>) = displayed g" "displayed (g\<lparr>g_pagerShown := b\<rparr>) = displayed g"
  "displayed (g\<lparr>g_heap := hp\<rparr>) = displayed g" "displayed (g\<lparr>g_insertRow := ir\<rparr>) = displayed g"
  "displayed (g\<lparr>g_alerts := al\<rparr>) = displayed g" "displayed (g\<lparr>g_firstPage := n\<rparr>) = displayed g"
  by (simp_all add: displayed_def lastDisplayIndex_def firstDisplayIndex_def itemsCount_def)

lemma createPager_update [simp]:
  "createPagerByFormat (g\<lparr>g_rows := r\<rparr>) = createPagerByFormat g"
  "createPagerByFormat (g\<lparr>g_editRow := e\<rparr>) = createPagerByFormat g"
  "createPagerByFormat (g\<lparr>g_pager := p\<rparr>) = createPagerByFormat g"
  "createPagerByFormat (g\<lparr>g_pagerShown := b\<rparr>) = createPagerByFormat g"
  "createPagerByFormat (g\<lparr>g_heap := hp\<rparr>) = createPagerByFormat g"
  "createPagerByFormat (g\<lparr>g_insertRow := ir\<rparr>) = createPagerByFormat g"
  "createPagerByFormat (g\<lparr>g_alerts := al\<rparr>) = createPagerByFormat g"
  by (simp_all add: createPagerByFormat_def format_part_def createPages_def itemsCount_def Let_def
      cong: if_cong)

lemma draw_update [simp]:
  "draw (g\<lparr>g_rows := r\<rparr>) = draw g" "draw (g\<lparr>g_editRow := e\<rparr>) = draw g"
  "draw (g\<lparr>g_pager := p\<rparr>) = draw g" "draw (g\<lparr>g_pagerShown := b\<rparr>) = draw g"
  "draw (g\<lparr>g_insertRow := ir\<rparr>) = draw g" "draw (g\<lparr>g_alerts := al\<rparr>) = draw g"
  "draw (g\<lparr>g_firstPage := n\<rparr>) = draw g"
  by (simp_all add: draw_def fun_eq_iff)

lemma draw_item [simp]: "r_item (draw g a) = a"
  by (simp add: draw_def)

lemma refresh_eq:
  assumes "list_all (\<lambda>a. is_obj (g_heap g a)) (displayed g)"
  shows "grid_refresh g = (None, grid_refreshed g)"
  using assms createRows_draw [of "cancelEdit g" "displayed g"]
  by (simp add: grid_refresh_def refreshContent_def cancelEdit_def refreshPager_def grid_refreshed_def)

lemma core_displayed: "grid_core g \<Longrightarrow> list_all (\<lambda>a. is_obj (g_heap g a)) (displayed g)"
  using set_displayed [of g] by (auto simp: grid_core_def list_all_iff)

lemma core_update [simp]:
  "grid_core (g\<lparr>g_rows := r\<rparr>) = grid_core g" "grid_core (g\<lparr>g_editRow := e\<rparr>) = grid_core g"
  "grid_core (g\<lparr>g_pager := p\<rparr>) = grid_core g" "grid_core (g\<lparr>g_pagerShown := b\<rparr>) = grid_core g"
  "grid_core (g\<lparr>g_alerts := al\<rparr>) = grid_core g" "grid_core (g\<lparr>g_sortField := sf\<rparr>) = grid_core g"
  "grid_core (g\<lparr>g_sortAsc := b\<rparr>) = grid_core g"
  by (simp_all add: grid_core_def pages_ok_def)

lemma refreshed_ok: "grid_core g \<Longrightarrow> grid_ok (grid_refreshed g)"
  by (simp add: grid_ok_def grid_refreshed_def)

lemma refresh_ok: "grid_core g \<Longrightarrow> fst (grid_refresh g) = None \<and> grid_ok (snd (grid_refresh g))"
  by (simp add: refresh_eq core_displayed refreshed_ok)

subsection \<open>Counting pages\<close>

lemma pagesCount_ceil:
  assumes "0 < g_pageSize g"
  shows "pagesCount g = (itemsCount g + g_pageSize g - 1) div g_pageSize g"
proof -
  let ?n = "itemsCount g" and ?k = "g_pageSize g"
  have n: "?n = ?k * (?n div ?k) + ?n mod ?k" by simp
  have r: "0 \<le> ?n mod ?k" "?n mod ?k < ?k" using assms by simp_all
  show ?thesis
  proof (cases "?n mod ?k = 0")
    case True
    with n have "?n + ?k - 1 = ?k * (?n div ?k) + (?k - 1)" by simp
    then have "(?n + ?k - 1) div ?k = ?n div ?k"
      using assms int_div_pos_eq [of "?n + ?k - 1" ?k "?n div ?k" "?k - 1"] by simp
    with True show ?thesis by (simp add: pagesCount_def)
  next
    case False
    with n have "?n + ?k - 1 = ?k * (?n div ?k + 1) + (?n mod ?k - 1)" by (simp add: algebra_simps)
    then have "(?n + ?k - 1) div ?k = ?n div ?k + 1"
      using r False int_div_pos_eq [of "?n + ?k - 1" ?k "?n div ?k + 1" "?n mod ?k - 1"] by simp
    with False show ?thesis by (simp add: pagesCount_def)
  qed
qed

lemma pagesCount_mono:
  assumes "0 < g_pageSize g" and "g_pageSize h = g_pageSize g" and "itemsCount g \<le> itemsCount h"
  shows "pagesCount g \<le> pagesCount h"
  using assms by (simp add: pagesCount_ceil zdiv_mono1)

lemma int_le_div_iff: "0 < k \<Longrightarrow> p \<le> a div k \<longleftrightarrow> p * k \<le> a" for a k p :: int
proof
  assume k: "0 < k" and "p \<le> a div k"
  then have "p * k \<le> a div k * k" by simp
  moreover have "a div k * k \<le> a" using k by (simp add: div_times_less_eq_dividend pos_mod_sign minus_mod_eq_div_mult [symmetric])
  ultimately show "p * k \<le> a" by linarith
next
  assume k: "0 < k" and "p * k \<le> a"
  then have "(p * k) div k \<le> a div k" by (intro zdiv_mono1)
  with k show "p \<le> a div k" by simp
qed

text \<open>Every page up to the last one starts within the items, and all items are on some page.\<close>

lemma le_pagesCount_iff:
  assumes "0 < g_pageSize g"
  shows "p \<le> pagesCount g \<longleftrightarrow> (p - 1) * g_pageSize g < itemsCount g"
proof -
  let ?n = "itemsCount g" and ?k = "g_pageSize g"
  have "p \<le> (?n + ?k - 1) div ?k \<longleftrightarrow> p * ?k \<le> ?n + ?k - 1" by (rule int_le_div_iff [OF assms])
  also have "\<dots> \<longleftrightarrow> (p - 1) * ?k < ?n" by (auto simp: algebra_simps)
  finally show ?thesis using assms by (simp add: pagesCount_ceil)
qed

subsection \<open>Items\<close>

lemma is_obj_set_prop [simp]: "is_obj (set_prop v k x) = is_obj v"
  by (cases v) auto

lemma is_obj_set_path [simp]: "is_obj (set_path v ks x) = is_obj v"
  by (cases "(v, ks, x)" rule: set_path.cases) (auto simp: Let_def)

lemma path_nonempty [simp]: "path f \<noteq> []"
proof -
  have "split_at c s \<noteq> []" for c s by (cases s) (auto split: list.split)
  then show ?thesis by (simp add: path_def)
qed

lemma prop_of_set_other: "k \<noteq> j \<Longrightarrow> prop_of (set_prop v j x) k = prop_of v k"
  by (cases v) (auto simp: prop_of_def map_of_put)

lemma prop_of_set_path: "ks \<noteq> [] \<Longrightarrow> k \<noteq> hd ks \<Longrightarrow> prop_of (set_path v ks x) k = prop_of v k"
  by (cases "(v, ks, x)" rule: set_path.cases) (auto simp: Let_def prop_of_set_other)

lemma is_obj_read_controls [simp]: "is_obj (read_controls on fs cs item) = is_obj item"
  by (induction on fs cs item rule: read_controls.induct) (auto simp: setItemFieldValue_def)

lemma prop_of_read_controls:
  "list_all (\<lambda>f. hd (path f) \<noteq> k) fs \<Longrightarrow> prop_of (read_controls on fs cs item) k = prop_of item k"
  by (induction on fs cs item rule: read_controls.induct)
     (auto simp: setItemFieldValue_def prop_of_set_path)

lemma is_obj_extend_item [simp]: "is_obj (extend_item v w) = is_obj v"
  by (cases "(v, w)" rule: extend_item.cases) auto

lemma validate_required: "set rs \<subseteq> {Required} \<Longrightarrow> \<exists>es. validate rs v = Some es"
  by (induction rs) auto

lemma validation_errors_total:
  "fields_ok fs \<Longrightarrow> is_obj item \<Longrightarrow> \<exists>es. validation_errors on item fs = Some es"
proof (induction fs)
  case (Cons f fs)
  then obtain es where "validation_errors on item fs = Some es" by (auto simp: fields_ok_def)
  moreover obtain v where "getItemFieldValue item f = Some v" using getItemFieldValue_obj Cons.prems by blast
  moreover obtain es' where "validate (f_validate f) v = Some es'"
    using validate_required [of "f_validate f"] Cons.prems by (auto simp: fields_ok_def)
  ultimately show ?case by simp
qed simp

lemma validateItem_total:
  assumes "fields_ok (g_fields g)" and "is_obj item"
  obtains "validateItem on item g = (Inr True, g)"
  | m where "validateItem on item g = (Inr False, g_alert m g)"
proof -
  obtain es where es: "validation_errors on item (g_fields g) = Some es"
    using validation_errors_total [OF assms] by blast
  show thesis
  proof (cases "es = []")
    case True
    with es show thesis by (intro that(1)) (simp add: validateItem_def)
  next
    case False
    with es show thesis by (intro that(2)) (simp add: validateItem_def invalidNotify_def)
  qed
qed

lemma first_index_in: "a \<in> set xs \<Longrightarrow> \<exists>i < length xs. first_index ((=) a) xs = Some i \<and> xs ! i = a"
  by (induction xs) auto

lemma first_index_notin: "a \<notin> set xs \<Longrightarrow> first_index ((=) a) xs = None"
  by (induction xs) auto

lemma itemIndex_in:
  assumes "a \<in> set (g_data g)"
  obtains i where "i < length (g_data g)" "itemIndex g a = int i" "g_data g ! i = a"
  using first_index_in [OF assms] by (auto simp: itemIndex_def)

lemma itemIndex_nth: "distinct (g_data g) \<Longrightarrow> i < length (g_data g) \<Longrightarrow> itemIndex g (g_data g ! i) = int i"
  by (metis itemIndex_in nth_eq_iff_index_eq nth_mem)

section \<open>Every event keeps the invariant\<close>

abbreviation safe_at :: "gact \<Rightarrow> grid \<Rightarrow> bool" where
  "safe_at act g \<equiv> fst (act g) = None \<and> grid_ok (snd (act g))"

lemma grid_okD: "grid_ok g \<Longrightarrow> grid_core g"
  by (simp add: grid_ok_def)

lemma grid_ok_alert [simp]: "grid_ok (g_alert m g) = grid_ok g"
  by (simp add: grid_ok_def g_alert_def split: option.split)

lemma cancelEdit_ok: "grid_ok g \<Longrightarrow> grid_ok (cancelEdit g)"
  by (simp add: grid_ok_def cancelEdit_def)

lemma core_insertRow:
  "grid_core g \<Longrightarrow> length ir = length (g_fields g) \<Longrightarrow> grid_core (g\<lparr>g_insertRow := ir\<rparr>)"
  by (simp add: grid_core_def pages_ok_def)

lemma type_insert_ok: "grid_ok g \<Longrightarrow> grid_ok (g\<lparr>g_insertRow := (g_insertRow g)[i := c]\<rparr>)"
  by (cases "g_editRow g") (auto simp: grid_ok_def grid_core_def pages_ok_def)

lemma type_edit_ok:
  "grid_ok g \<Longrightarrow> grid_ok (g\<lparr>g_editRow := map_option (\<lambda>(r, cs). (r, cs[i := c])) (g_editRow g)\<rparr>)"
  by (cases "g_editRow g") (auto simp: grid_ok_def)

lemma core_append:
  assumes "grid_core g" and "is_obj v"
  shows "grid_core ((snd (g_alloc [v] g))\<lparr>g_data := g_data g @ [g_next g]\<rparr>)" (is "grid_core ?h")
proof -
  have "pagesCount g \<le> pagesCount ?h"
    using assms by (intro pagesCount_mono) (auto simp: grid_core_def g_alloc_def itemsCount_def)
  moreover have "distinct (g_data g)" "list_all (\<lambda>a. a < g_next g \<and> is_obj (g_heap g a)) (g_data g)"
    using assms by (auto simp: grid_core_def)
  ultimately show ?thesis
    using assms by (auto simp: grid_core_def g_alloc_def pages_ok_def list_all_iff)
qed

lemma finishInsert_eq:
  assumes "grid_core g" and "is_obj v"
  shows "finishInsert v g =
    (None, grid_refreshed ((snd (g_alloc [v] g))\<lparr>g_data := g_data g @ [g_next g]\<rparr>))"
  using refresh_eq [OF core_displayed [OF core_append [OF assms]]]
  by (simp add: finishInsert_def g_alloc_def)

lemma finishInsert_ok: "grid_core g \<Longrightarrow> is_obj v \<Longrightarrow> safe_at (finishInsert v) g"
  by (simp add: finishInsert_eq refreshed_ok core_append)

lemma clearInsert_ok: "grid_core g \<Longrightarrow> safe_at clearInsert g"
  unfolding clearInsert_def
  by (intro refresh_ok core_insertRow) (simp_all add: createInsertRow_def)

lemma getInsertItem_obj [simp]: "is_obj (getInsertItem g)"
  by (simp add: getInsertItem_def)

lemma no_primarykey: "fields_ok (g_fields g) \<Longrightarrow> prop_of (getInsertItem g) ''primarykey'' = JUndef"
  unfolding getInsertItem_def
  by (subst prop_of_read_controls) (auto simp: fields_ok_def list_all_iff prop_of_def)

text \<open>The two ways an insertion can go.\<close>

lemma insert_click_cases [consumes 1]:
  assumes "grid_core g"
  obtains (valid) "validateItem f_inserting (getInsertItem g) g = (Inr True, g)"
      "insert_click g = clearInsert (snd (finishInsert (getInsertItem g) g))"
  | (invalid) m where "validateItem f_inserting (getInsertItem g) g = (Inr False, g_alert m g)"
      "insert_click g = (None, g_alert m g)"
proof -
  have fo: "fields_ok (g_fields g)" using assms by (simp add: grid_core_def)
  show thesis
  proof (rule validateItem_total [OF fo getInsertItem_obj [of g], where on = f_inserting])
    assume v: "validateItem f_inserting (getInsertItem g) g = (Inr True, g)"
    then have "insert_click g = clearInsert (snd (finishInsert (getInsertItem g) g))"
      by (simp add: insert_click_def insertItem_def no_primarykey [OF fo] finishInsert_eq [OF assms])
    with v show thesis by (rule valid)
  next
    fix m
    assume v: "validateItem f_inserting (getInsertItem g) g = (Inr False, g_alert m g)"
    then have "insert_click g = (None, g_alert m g)" by (simp add: insert_click_def insertItem_def)
    with v show thesis by (rule invalid)
  qed
qed

lemma insert_click_ok:
  assumes "grid_ok g"
  shows "safe_at insert_click g"
  using grid_okD [OF assms]
proof (cases rule: insert_click_cases)
  case valid
  then show ?thesis
    using clearInsert_ok finishInsert_ok [OF grid_okD [OF assms] getInsertItem_obj] by (auto simp: grid_okD)
next
  case (invalid m)
  then show ?thesis using assms by simp
qed

lemma row_item:
  assumes "grid_ok g" and "i < length (g_rows g)"
  shows "r_item (g_rows g ! i) = displayed g ! i" and "i < length (displayed g)"
    and "displayed g ! i \<in> set (g_data g)" and "is_obj (g_heap g (displayed g ! i))"
proof -
  have r: "g_rows g = map (draw g) (displayed g)" using assms(1) by (simp add: grid_ok_def)
  with assms(2) show i: "i < length (displayed g)" by simp
  with r show "r_item (g_rows g ! i) = displayed g ! i" by simp
  from i have "displayed g ! i \<in> set (displayed g)" by simp
  with set_displayed show d: "displayed g ! i \<in> set (g_data g)" by blast
  with assms(1) show "is_obj (g_heap g (displayed g ! i))"
    by (auto simp: grid_ok_def grid_core_def list_all_iff)
qed

lemma row_click_ok:
  assumes "grid_ok g" and "i < length (g_rows g)"
  shows "safe_at (row_click i) g"
proof -
  obtain cs where "createEditRow (g_heap g (r_item (g_rows g ! i))) (g_fields g) = Some cs"
      and "length cs = length (g_fields g)"
    using createEditRow_obj row_item [OF assms] by fastforce
  with assms show ?thesis by (simp add: row_click_def cancelEdit_def grid_ok_def Let_def)
qed

text \<open>What an update does to a grid that satisfies the invariant.\<close>

lemma updateRow_eq:
  fixes g :: grid and i :: nat and edited :: jsval
  assumes "grid_ok g" and "i < length (g_rows g)"
  defines "a \<equiv> displayed g ! i"
  defines "h \<equiv> g\<lparr>g_heap := (g_heap g)(a := extend_item (g_heap g a) edited), g_editRow := None\<rparr>"
  shows "grid_updateRow i edited g = (None, h\<lparr>g_rows := map (draw h) (displayed g)\<rparr>)"
proof -
  note r = row_item [OF assms(1,2), folded a_def]
  obtain n where n: "n < length (g_data g)" "itemIndex g a = int n" "g_data g ! n = a"
    by (rule itemIndex_in [OF r(3)])
  then have data: "(g_data g)[nat (itemIndex g a) := a] = g_data g" by (simp add: list_update_same_conv)
  have c: "createRow h a = Some (draw h a)" by (rule createRow_draw) (simp add: h_def r(4))
  have rows: "g_rows g = map (draw g) (displayed g)" using assms(1) by (simp add: grid_ok_def)
  have "distinct (displayed g)"
    using assms(1) distinct_displayed by (auto simp: grid_ok_def grid_core_def)
  then have other: "draw h (displayed g ! j) = draw g (displayed g ! j)"
    if "j < length (displayed g)" "j \<noteq> i" for j
    using that r(2) by (simp add: h_def draw_def a_def nth_eq_iff_index_eq)
  have "(g_rows g)[i := draw h a] = map (draw h) (displayed g)"
    using r(2) by (intro nth_equalityI) (auto simp: rows nth_list_update other a_def)
  then show ?thesis
    using n(2) data c by (simp add: grid_updateRow_def r(1) cancelEdit_def Let_def h_def)
qed

lemma updateRow_ok:
  assumes "grid_ok g" and "i < length (g_rows g)"
  shows "safe_at (grid_updateRow i edited) g"
  using assms row_item(4) [OF assms]
  by (simp add: updateRow_eq) (auto simp: grid_ok_def grid_core_def pages_ok_def list_all_iff)

lemma updateItem_ok:
  assumes "grid_ok g" and "g_editRow g \<noteq> None"
  shows "safe_at updateItem g"
proof -
  obtain i cs where e: "g_editRow g = Some (i, cs)" using assms(2) by auto
  with assms(1) have i: "i < length (g_rows g)" unfolding grid_ok_def by simp
  have f: "fields_ok (g_fields g)" using assms(1) by (simp add: grid_ok_def grid_core_def)
  have o: "is_obj (getEditedItem cs g)" by (simp add: getEditedItem_def)
  show ?thesis
    by (rule validateItem_total [OF f o, where on = f_editing])
       (use e i assms(1) updateRow_ok in \<open>simp_all add: updateItem_def\<close>)
qed

lemma core_first_page:
  assumes "grid_core g" and "set xs \<subseteq> set (g_data g)" and "distinct xs"
  shows "grid_core (resetPager (resetSorting (g\<lparr>g_data := xs\<rparr>)))"
  using assms
  by (auto simp: grid_core_def resetPager_def resetSorting_def setPage_def pages_ok_def Let_def list_all_iff)

lemma splice_at_subset: "set (splice_at i xs) \<subseteq> set xs"
  by (simp add: splice_at_def set_splice1)

lemma finishDelete_ok:
  assumes "grid_core g"
  shows "safe_at (finishDelete i) g"
proof -
  have "grid_core (resetPager (resetSorting (g\<lparr>g_data := splice_at i (g_data g)\<rparr>)))"
    using assms
    by (intro core_first_page splice_at_subset) (simp_all add: splice_at_def distinct_splice grid_core_def)
  then show ?thesis unfolding finishDelete_def reset_def by (rule refresh_ok)
qed

lemma deleteItem_ok: "grid_ok g \<Longrightarrow> safe_at (deleteItem a yes) g"
  by (auto simp: deleteItem_def finishDelete_ok grid_okD)

lemma core_permuted:
  assumes "grid_core g" and "mset xs = mset (g_data g)"
  shows "grid_core (g\<lparr>g_data := xs\<rparr>)"
proof -
  have "length xs = length (g_data g)" "set xs = set (g_data g)" "distinct xs = distinct (g_data g)"
    using assms(2) mset_eq_length mset_eq_setD mset_eq_imp_distinct_iff by blast+
  with assms(1) show ?thesis
    by (simp add: grid_core_def pages_ok_def pagesCount_def itemsCount_def list_all_iff)
qed

lemma sort_click_ok:
  assumes "sorts E" and "grid_ok g"
  shows "safe_at (sort_click E i) g"
proof -
  have c: "grid_core (setSortingParams i g)"
    using grid_okD [OF assms(2)] by (simp add: setSortingParams_def)
  have "\<not> list_ex nullish (g_items (setSortingParams i g))"
    using grid_okD [OF c [THEN refreshed_ok]] c
    by (fastforce simp: list_ex_iff g_items_def grid_core_def list_all_iff nullish_def)
  then obtain xs where "sortData E (setSortingParams i g) = (None, (setSortingParams i g)\<lparr>g_data := xs\<rparr>)"
      and "mset xs = mset (g_data (setSortingParams i g))"
    using assms(1) by (auto simp: sortData_def setSortingParams_def Let_def sorts_def)
  with core_permuted [OF c] show ?thesis by (simp add: sort_click_def refresh_ok)
qed

lemma openPage_ok:
  assumes "grid_ok g"
  shows "safe_at (openPage p) g"
proof (cases "p < 1 \<or> p > pagesCount g")
  case False
  moreover have "grid_core (setPage p g)"
    using False grid_okD [OF assms]
    by (auto simp: grid_core_def setPage_def pages_ok_def Let_def max_def split: if_splits)
  ultimately show ?thesis by (simp add: openPage_def refresh_ok)
qed (use assms in \<open>simp add: openPage_def\<close>)

lemma refreshPager_first_ok:
  assumes "grid_ok g" and "1 \<le> n" and "n \<le> max 1 (pagesCount g)"
  shows "grid_ok (refreshPager (g\<lparr>g_firstPage := n\<rparr>))"
  using assms by (cases "g_editRow g") (auto simp: grid_ok_def grid_core_def pages_ok_def refreshPager_def)

lemma showPrevPages_ok: "grid_ok g \<Longrightarrow> grid_ok (showPrevPages g)"
  unfolding showPrevPages_def
  by (rule refreshPager_first_ok) (auto simp: grid_ok_def grid_core_def pages_ok_def)

text \<open>Every part of the pager leads to an existing page; the two window links only where there is more.\<close>

fun part_ok :: "grid \<Rightarrow> pager_part \<Rightarrow> bool" where
  "part_ok g (Nav t p active) = (active \<longrightarrow> 1 \<le> p \<and> p \<le> pagesCount g)"
| "part_ok g (PageLink p) = (1 \<le> p \<and> p \<le> pagesCount g \<and> p \<noteq> g_pageIndex g)"
| "part_ok g (CurrentPage p) = (p = g_pageIndex g \<and> p \<le> pagesCount g)"
| "part_ok g PrevPages = (g_firstPage g > 1)"
| "part_ok g NextPages = (g_firstPage g + g_pageButtonCount g - 1 < pagesCount g)"
| "part_ok g x = True"

lemma list_all_if: "list_all P xs \<Longrightarrow> list_all P ys \<Longrightarrow> list_all P (if c then xs else ys)"
  by simp

lemma page_links_ok: "1 \<le> n \<Longrightarrow> list_all (part_ok g) (page_links k n (pagesCount g) (g_pageIndex g))"
  by (induction k n "pagesCount g" "g_pageIndex g" rule: page_links.induct) auto

lemma createPages_ok: "pages_ok g \<Longrightarrow> list_all (part_ok g) (createPages g)"
  by (simp add: createPages_def page_links_ok pages_ok_def)

lemma format_part_ok: "pages_ok g \<Longrightarrow> list_all (part_ok g) (format_part g p)"
  unfolding format_part_def Let_def
  by (intro list_all_if) (simp_all add: createPages_ok, auto simp: pages_ok_def)

lemma createPager_ok:
  assumes "pages_ok g" and "x \<in> set (createPagerByFormat g)"
  shows "part_ok g x"
proof -
  obtain p where "x \<in> set (format_part g p) \<or> x = Words '' ''"
    using assms(2) unfolding createPagerByFormat_def by (auto split: if_splits)
  with format_part_ok [OF assms(1)] show ?thesis by (auto simp: list_all_iff)
qed

lemma pager_parts_ok: "grid_ok g \<Longrightarrow> x \<in> set (g_pager g) \<Longrightarrow> part_ok g x"
  by (auto simp: grid_ok_def grid_core_def createPager_ok split: if_splits)

lemma showNextPages_ok:
  assumes "grid_ok g" and "g_firstPage g + g_pageButtonCount g - 1 < pagesCount g"
  shows "grid_ok (showNextPages g)"
proof -
  have "0 < g_pageButtonCount g" "1 \<le> g_firstPage g"
    using assms(1) by (auto simp: grid_ok_def grid_core_def pages_ok_def)
  with assms(2) show ?thesis
    unfolding showNextPages_def by (intro refreshPager_first_ok assms(1)) auto
qed

lemma pager_click_ok:
  assumes "grid_ok g" and "x \<in> set (g_pager g)"
  shows "safe_at (pager_click x) g"
proof (cases x)
  case NextPages
  with pager_parts_ok [OF assms] assms(1) show ?thesis by (simp add: showNextPages_ok)
qed (use assms(1) in \<open>auto simp: openPage_ok showPrevPages_ok\<close>)

lemma offered_safe:
  assumes "sorts E" and "grid_ok g" and "offered g e"
  shows "safe_at (grid_fire E e) g"
  using assms
  by (cases e) (auto simp: row_visible_def type_insert_ok type_edit_ok insert_click_ok row_click_ok
      updateItem_ok cancelEdit_ok deleteItem_ok sort_click_ok pager_click_ok)

lemma grid_reach_ok: "grid_reach E g0 g \<Longrightarrow> sorts E \<Longrightarrow> grid_ok g0 \<Longrightarrow> grid_ok g"
  by (induction rule: grid_reach.induct) (simp_all add: offered_safe)

section \<open>A grid from its first drawing on\<close>

text \<open>
  The options a script can give: editing, inserting, sorting, confirmation of deletions, paging with page
  size and number of page buttons, the fields and the items.
\<close>

definition configured ::
    "bool \<Rightarrow> bool \<Rightarrow> bool \<Rightarrow> bool \<Rightarrow> bool \<Rightarrow> int \<Rightarrow> int \<Rightarrow> grid_field list \<Rightarrow> jsval list \<Rightarrow> grid" where
  "configured ed ins srt cnf pag per buttons fs vs = (new_grid ed ins fs vs)
     \<lparr>g_sorting := srt, g_confirmDeleting := cnf, g_paging := pag, g_pageSize := per,
      g_pageButtonCount := buttons\<rparr>"

lemma renderGrid_ok:
  assumes "fields_ok fs" and "list_all is_obj vs" and "0 < per" and "0 < buttons"
  shows "safe_at renderGrid (configured ed ins srt cnf pag per buttons fs vs)"
  unfolding renderGrid_def
  by (rule refresh_ok)
     (use assms in \<open>auto simp: grid_core_def configured_def new_grid_def createInsertRow_def pages_ok_def
        list_all_iff\<close>)

definition live :: "env \<Rightarrow> grid \<Rightarrow> bool" where
  "live E g \<longleftrightarrow> (\<exists>ed ins srt cnf pag per buttons fs vs. sorts E \<and> fields_ok fs \<and> list_all is_obj vs \<and>
     0 < per \<and> 0 < buttons \<and>
     grid_reach E (snd (renderGrid (configured ed ins srt cnf pag per buttons fs vs))) g)"

lemma live_ok: "live E g \<Longrightarrow> grid_ok g"
  unfolding live_def using grid_reach_ok renderGrid_ok by blast

lemma live_sorts: "live E g \<Longrightarrow> sorts E"
  by (auto simp: live_def)

lemma live_event: "live E g \<Longrightarrow> offered g e \<Longrightarrow> live E (snd (grid_fire E e g))"
  unfolding live_def using grid_reach.event by blast

text \<open>No event changes the options or the fields.\<close>

definition options :: "grid \<Rightarrow> bool \<times> bool \<times> bool \<times> bool \<times> bool \<times> int \<times> int \<times> string \<times> grid_field list" where
  "options g = (g_editing g, g_inserting g, g_sorting g, g_confirmDeleting g, g_paging g, g_pageSize g,
     g_pageButtonCount g, g_pagerFormat g, g_fields g)"

lemma options_update [simp]:
  "options (g\<lparr>g_rows := r\<rparr>) = options g" "options (g\<lparr>g_editRow := e\<rparr>) = options g"
  "options (g\<lparr>g_pager := p\<rparr>) = options g" "options (g\<lparr>g_pagerShown := b\<rparr>) = options g"
  "options (g\<lparr>g_insertRow := ir\<rparr>) = options g" "options (g\<lparr>g_alerts := al\<rparr>) = options g"
  "options (g\<lparr>g_firstPage := n\<rparr>) = options g" "options (g\<lparr>g_pageIndex := n\<rparr>) = options g"
  "options (g\<lparr>g_heap := hp\<rparr>) = options g" "options (g\<lparr>g_next := k\<rparr>) = options g"
  "options (g\<lparr>g_data := ds\<rparr>) = options g" "options (g\<lparr>g_sortField := sf\<rparr>) = options g"
  "options (g\<lparr>g_sortAsc := b\<rparr>) = options g"
  by (simp_all add: options_def)

lemma options_refresh [simp]: "options (snd (grid_refresh g)) = options g"
  by (simp add: grid_refresh_def refreshContent_def refreshPager_def cancelEdit_def split: prod.split option.split)

lemma options_validateItem: "validateItem on item g = (r, h) \<Longrightarrow> options h = options g"
  by (auto simp: validateItem_def invalidNotify_def g_alert_def split: option.splits if_splits)

lemma options_insert_click [simp]: "options (snd (insert_click g)) = options g"
proof -
  have "options (snd (finishInsert v h)) = options h" for v h
    by (simp add: finishInsert_def g_alloc_def)
  then have "options (snd (insertItem g)) = options g"
    by (auto simp: insertItem_def g_alert_def Let_def dest: options_validateItem
        split: prod.split sum.split bool.split option.split) (metis options_validateItem snd_conv)+
  then show ?thesis
    by (auto simp: insert_click_def clearInsert_def split: prod.split outcome.split)
qed

lemma options_updateItem [simp]: "options (snd (updateItem g)) = options g"
proof -
  have "options (snd (grid_updateRow i v h)) = options h" for i v h
    by (simp add: grid_updateRow_def cancelEdit_def Let_def split: option.split)
  then show ?thesis
    by (auto simp: updateItem_def Let_def dest: options_validateItem
        split: prod.split sum.split bool.split option.split)
qed

lemma options_setPage [simp]: "options (setPage p g) = options g"
  by (simp add: setPage_def Let_def)

lemma options_pager_click [simp]: "options (snd (pager_click x g)) = options g"
  by (cases x) (auto simp: openPage_def showPrevPages_def showNextPages_def refreshPager_def)

lemma options_fire [simp]: "options (snd (grid_fire E e g)) = options g"
proof (cases e)
  case (ClickHeader i)
  then show ?thesis
    by (auto simp: sort_click_def sortData_def setSortingParams_def Let_def split: prod.split option.split)
qed (auto simp: row_click_def cancelEdit_def deleteItem_def finishDelete_def reset_def resetPager_def
      resetSorting_def g_alert_def Let_def split: option.split)

lemma options_reach: "grid_reach E g0 g \<Longrightarrow> options g = options g0"
  by (induction rule: grid_reach.induct) simp_all

lemma live_format: "live E g \<Longrightarrow> g_pagerFormat g = default_pagerFormat"
proof -
  assume "live E g"
  then obtain ed ins srt cnf pag per buttons fs vs where
    "grid_reach E (snd (renderGrid (configured ed ins srt cnf pag per buttons fs vs))) g"
    by (auto simp: live_def)
  then have "options g = options (configured ed ins srt cnf pag per buttons fs vs)"
    by (simp add: options_reach renderGrid_def)
  then show ?thesis by (simp add: options_def configured_def new_grid_def)
qed

section \<open>The pager\<close>

lemma pagerFormat_parts:
  "split_at (CHR '' '') default_pagerFormat =
     [''Pages:'', ''{first}'', ''{prev}'', ''{pages}'', ''{next}'', ''{last}'', ''&nbsp;&nbsp;'',
      ''{pageIndex}'', ''of'', ''{pageCount}'']"
  by (simp add: default_pagerFormat_def)

lemma nav_drawn:
  assumes "grid_ok g" and "g_pagerFormat g = default_pagerFormat" and "g_paging g"
  shows "Nav ''First'' 1 (g_pageIndex g > 1) \<in> set (g_pager g)"
    and "Nav ''Next'' (g_pageIndex g + 1) (g_pageIndex g < pagesCount g) \<in> set (g_pager g)"
  using assms
  by (simp_all add: grid_ok_def createPagerByFormat_def pagerFormat_parts format_part_def Let_def)

lemma openPage_eq:
  assumes "grid_ok g" and "1 \<le> p" and "p \<le> pagesCount g"
  shows "openPage p g = (None, grid_refreshed (setPage p g))"
proof -
  have "grid_core (setPage p g)"
    using assms grid_okD [OF assms(1)]
    by (auto simp: grid_core_def setPage_def pages_ok_def Let_def max_def split: if_splits)
  with assms show ?thesis by (simp add: openPage_def refresh_eq core_displayed)
qed

lemma refreshed_fields [simp]:
  "g_pageIndex (grid_refreshed g) = g_pageIndex g" "g_data (grid_refreshed g) = g_data g"
  "g_heap (grid_refreshed g) = g_heap g" "g_next (grid_refreshed g) = g_next g"
  "g_insertRow (grid_refreshed g) = g_insertRow g" "g_editRow (grid_refreshed g) = None"
  "g_alerts (grid_refreshed g) = g_alerts g" "g_fields (grid_refreshed g) = g_fields g"
  "g_rows (grid_refreshed g) = map (draw g) (displayed g)" "pagesCount (grid_refreshed g) = pagesCount g"
  "displayed (grid_refreshed g) = displayed g"
  by (simp_all add: grid_refreshed_def)

lemma setPage_fields [simp]:
  "g_pageIndex (setPage p g) = p" "g_data (setPage p g) = g_data g" "g_heap (setPage p g) = g_heap g"
  "pagesCount (setPage p g) = pagesCount g"
  by (simp_all add: setPage_def Let_def)

text \<open>The items shown on a page of a paged grid.\<close>

lemma displayed_page:
  assumes "g_paging g" and "1 \<le> g_pageIndex g" and "0 < g_pageSize g"
  shows "displayed g =
    take (nat (g_pageSize g)) (drop (nat ((g_pageIndex g - 1) * g_pageSize g)) (g_data g))"
proof -
  let ?k = "g_pageSize g" and ?d = "drop (nat ((g_pageIndex g - 1) * g_pageSize g)) (g_data g)"
  have "0 \<le> (g_pageIndex g - 1) * ?k" using assms by simp
  then have len: "int (length ?d) = max 0 (itemsCount g - (g_pageIndex g - 1) * ?k)"
    by (simp add: itemsCount_def)
  have "g_pageIndex g * ?k - (g_pageIndex g - 1) * ?k = ?k" by (simp add: algebra_simps)
  then have "nat (lastDisplayIndex g - firstDisplayIndex g) = min (nat ?k) (length ?d)"
    using assms len by (auto simp: lastDisplayIndex_def firstDisplayIndex_def min_def)
  then show ?thesis
    using assms(1) by (simp add: displayed_def firstDisplayIndex_def min_def)
qed

lemma page_link_count: "length (page_links k n c i) \<le> k"
  by (induction k n c i rule: page_links.induct) auto

lemma createPages_count: "length (createPages g) \<le> nat (g_pageButtonCount g) + 2"
  using page_link_count [of "nat (g_pageButtonCount g)" "g_firstPage g" "pagesCount g" "g_pageIndex g"]
  by (simp add: createPages_def)

lemma options_paging:
  "options g = options h \<Longrightarrow> g_paging g = g_paging h \<and> g_pageSize g = g_pageSize h"
  by (simp add: options_def)

text \<open>Opening a page shows that page, and it has rows.\<close>

lemma open_page_shows:
  assumes "grid_ok g" and "g_paging g" and "1 \<le> p" and "p \<le> pagesCount g"
  shows "g_pageIndex (snd (openPage p g)) = p" and "g_data (snd (openPage p g)) = g_data g"
    and "map r_item (g_rows (snd (openPage p g))) =
      take (nat (g_pageSize g)) (drop (nat ((p - 1) * g_pageSize g)) (g_data g))"
    and "g_rows (snd (openPage p g)) \<noteq> []"
proof -
  let ?k = "g_pageSize g"
  have k: "0 < ?k" using assms(1) by (simp add: grid_ok_def grid_core_def)
  note op = openPage_eq [OF assms(1,3,4)]
  show "g_pageIndex (snd (openPage p g)) = p" "g_data (snd (openPage p g)) = g_data g"
    by (simp_all add: op)
  have "displayed (setPage p g) = take (nat ?k) (drop (nat ((p - 1) * ?k)) (g_data g))"
    using displayed_page [of "setPage p g"] options_paging [OF options_setPage, of p g] assms(2,3) k by simp
  then show r: "map r_item (g_rows (snd (openPage p g))) =
      take (nat ?k) (drop (nat ((p - 1) * ?k)) (g_data g))"
    by (simp add: op map_idI)
  have "(p - 1) * ?k < itemsCount g" using assms(4) le_pagesCount_iff [OF k] by blast
  then have "nat ((p - 1) * ?k) < length (g_data g)" using assms(3) k by (simp add: itemsCount_def nat_less_iff)
  with k have "map r_item (g_rows (snd (openPage p g))) \<noteq> []" unfolding r by simp
  then show "g_rows (snd (openPage p g)) \<noteq> []" by auto
qed

lemma grid_reach_trans: "grid_reach E h k \<Longrightarrow> grid_reach E g h \<Longrightarrow> grid_reach E g k"
  by (induction rule: grid_reach.induct) (auto intro: grid_reach.event)

text \<open>The window of page links moves along, so that the current page is among them.\<close>

lemma current_page_link:
  "n \<le> i \<Longrightarrow> i < n + int k \<Longrightarrow> i \<le> c \<Longrightarrow> CurrentPage i \<in> set (page_links k n c i)"
  by (induction k n c i rule: page_links.induct) auto

lemma open_page_current:
  assumes "grid_ok g" and "g_paging g" and "g_pagerFormat g = default_pagerFormat"
    and "1 \<le> p" and "p \<le> pagesCount g"
  shows "CurrentPage p \<in> set (g_pager (snd (openPage p g)))"
proof -
  let ?h = "setPage p g"
  have k: "0 < g_pageButtonCount g" using assms(1) by (simp add: grid_ok_def grid_core_def)
  then have w: "g_firstPage ?h \<le> p" "p < g_firstPage ?h + g_pageButtonCount ?h" "g_pageButtonCount ?h = g_pageButtonCount g"
    by (auto simp: setPage_def Let_def)
  have "CurrentPage p \<in> set (createPages ?h)"
    using current_page_link [of "g_firstPage ?h" p "nat (g_pageButtonCount g)" "pagesCount g"] w k assms(5)
    by (simp add: createPages_def)
  moreover have "g_pagerFormat ?h = default_pagerFormat" "g_paging ?h"
    using assms(2,3) by (simp_all add: setPage_def Let_def)
  ultimately show ?thesis
    by (simp add: openPage_eq [OF assms(1,4,5)] grid_refreshed_def createPagerByFormat_def pagerFormat_parts
        format_part_def Let_def)
qed

text \<open>From any page one can get to any other with the links First and Next.\<close>

lemma walk_to_page:
  assumes "live E g" and "g_paging g" and "g_pageIndex g \<le> p" and "p \<le> pagesCount g"
  shows "\<exists>h. grid_reach E g h \<and> live E h \<and> g_paging h \<and> g_pageIndex h = p \<and> g_data h = g_data g"
  using assms
proof (induction "nat (p - g_pageIndex g)" arbitrary: g)
  case 0
  then show ?case using grid_reach.start by (intro exI [of _ g]) auto
next
  case (Suc k)
  let ?i = "g_pageIndex g" and ?e = "ClickPager (Nav ''Next'' (g_pageIndex g + 1) True)"
  have ok: "grid_ok g" by (rule live_ok [OF Suc.prems(1)])
  have i: "?i < pagesCount g" "1 \<le> ?i"
    using Suc ok by (auto simp: grid_ok_def grid_core_def pages_ok_def)
  then have shown: "g_pagerShown g" using ok Suc.prems(2) by (simp add: grid_ok_def)
  have off: "offered g ?e"
    using nav_drawn(2) [OF ok live_format [OF Suc.prems(1)] Suc.prems(2)] i shown by simp
  let ?h = "snd (grid_fire E ?e g)"
  have h: "g_pageIndex ?h = ?i + 1" "g_data ?h = g_data g"
    using open_page_shows(1,2) [OF ok Suc.prems(2), of "?i + 1"] i by simp_all
  have k: "k = nat (p - g_pageIndex ?h)" "g_pageIndex ?h \<le> p" using Suc.hyps(2) unfolding h(1) by linarith+
  have "g_paging ?h" "g_pageSize ?h = g_pageSize g"
    using options_paging [OF options_fire [of E ?e g]] Suc.prems(2) by simp_all
  moreover from this(2) h(2) have "pagesCount ?h = pagesCount g" by (simp add: pagesCount_def itemsCount_def)
  ultimately obtain h' where h': "grid_reach E ?h h'" "live E h'" "g_paging h'" "g_pageIndex h' = p"
      "g_data h' = g_data ?h"
    using Suc.hyps(1) [of ?h] k Suc.prems(4) live_event [OF Suc.prems(1) off] by auto
  have "grid_reach E g h'" by (rule grid_reach_trans [OF h'(1) grid_reach.event [OF grid_reach.start off]])
  with h' h(2) show ?case by auto
qed

lemma go_to_page:
  assumes "live E g" and "g_paging g" and "1 \<le> p" and "p \<le> pagesCount g"
  shows "\<exists>h. grid_reach E g h \<and> live E h \<and> g_paging h \<and> g_pageIndex h = p \<and> g_data h = g_data g"
proof (cases "g_pageIndex g \<le> p")
  case False
  let ?e = "ClickPager (Nav ''First'' 1 True)"
  have ok: "grid_ok g" by (rule live_ok [OF assms(1)])
  have n: "1 < pagesCount g" "1 < g_pageIndex g"
    using False assms(3) ok by (auto simp: grid_ok_def grid_core_def pages_ok_def)
  then have off: "offered g ?e"
    using nav_drawn(1) [OF ok live_format [OF assms(1)] assms(2)] ok assms(2) by (simp add: grid_ok_def)
  let ?h = "snd (grid_fire E ?e g)"
  have h: "g_pageIndex ?h = 1" "g_data ?h = g_data g"
    using open_page_shows(1,2) [OF ok assms(2), of 1] n by simp_all
  have o: "g_paging ?h" "g_pageSize ?h = g_pageSize g"
    using options_paging [OF options_fire [of E ?e g]] assms(2) by simp_all
  with h(2) have "pagesCount ?h = pagesCount g" by (simp add: pagesCount_def itemsCount_def)
  then obtain h' where h': "grid_reach E ?h h'" "live E h'" "g_paging h'" "g_pageIndex h' = p"
      "g_data h' = g_data ?h"
    using walk_to_page [OF live_event [OF assms(1) off] o(1), of p] h(1) assms(3,4) by auto
  have "grid_reach E g h'" by (rule grid_reach_trans [OF h'(1) grid_reach.event [OF grid_reach.start off]])
  with h'(2-) h(2) show ?thesis by (intro exI [of _ h']) simp
qed (use walk_to_page [OF assms(1,2)] assms(4) in blast)

text \<open>
  C6. Whatever the user does to a grid from its first drawing on, with any fields whose validators are
  \<open>required\<close> and any items that are objects, no handler of an event the screen offers throws; no item is
  in the data twice; and the rows on the screen are drawn from the present values of the items on the
  present page, in their order.
\<close>

theorem grid_events_safe:
  assumes "sorts E" and "fields_ok fs" and "list_all is_obj vs" and "0 < per" and "0 < buttons"
    and "grid_reach E (snd (renderGrid (configured ed ins srt cnf pag per buttons fs vs))) g"
  shows "(offered g e \<longrightarrow> fst (grid_fire E e g) = None) \<and> distinct (g_data g) \<and>
    map Some (g_rows g) = map (createRow g) (displayed g)"
proof -
  have "live E g" unfolding live_def using assms by blast
  then have ok: "grid_ok g" by (rule live_ok)
  then have "createRow g a = Some (draw g a)" if "a \<in> set (displayed g)" for a
    using that core_displayed [OF grid_okD [OF ok]] by (simp add: list_all_iff createRow_draw)
  with ok offered_safe [OF assms(1) ok] show ?thesis
    by (simp add: grid_ok_def grid_core_def)
qed

text \<open>
  C14. The page number of a grid stays within the pages there are, the pager has at most as many page
  links as configured, every link of a page and every active link of the navigation leads to an existing
  page; following it shows exactly the items of that page, of which there is at least one, and the page
  is then among the page links.
\<close>

theorem grid_pager_bounds:
  assumes "live E g"
  shows "1 \<le> g_pageIndex g \<and> g_pageIndex g \<le> max 1 (pagesCount g) \<and>
    length (createPages g) \<le> nat (g_pageButtonCount g) + 2 \<and>
    (g_paging g \<and> (PageLink p \<in> set (g_pager g) \<or> Nav t p True \<in> set (g_pager g)) \<longrightarrow>
      1 \<le> p \<and> p \<le> pagesCount g \<and> g_pageIndex (snd (grid_fire E (ClickPager (PageLink p)) g)) = p \<and>
      CurrentPage p \<in> set (g_pager (snd (grid_fire E (ClickPager (PageLink p)) g))) \<and>
      g_rows (snd (grid_fire E (ClickPager (PageLink p)) g)) \<noteq> [] \<and>
      map r_item (g_rows (snd (grid_fire E (ClickPager (PageLink p)) g))) =
        take (nat (g_pageSize g)) (drop (nat ((p - 1) * g_pageSize g)) (g_data g)))"
proof -
  have ok: "grid_ok g" by (rule live_ok [OF assms])
  have b: "1 \<le> p \<and> p \<le> pagesCount g" if "PageLink p \<in> set (g_pager g) \<or> Nav t p True \<in> set (g_pager g)"
    using that pager_parts_ok [OF ok, of "PageLink p"] pager_parts_ok [OF ok, of "Nav t p True"] by auto
  have "1 \<le> g_pageIndex g \<and> g_pageIndex g \<le> max 1 (pagesCount g)"
    using ok by (simp add: grid_ok_def grid_core_def pages_ok_def)
  with b open_page_shows [OF ok] open_page_current [OF ok _ live_format [OF assms]] createPages_count
  show ?thesis by simp
qed

text \<open>
  C15. Every item of a grid can be brought to the screen: from any state the user can get to, clicks on
  links the pager offers lead to a state whose rows include it, with the data unchanged.
\<close>

theorem grid_item_reachable:
  assumes "live E g" and "a \<in> set (g_data g)"
  shows "\<exists>h. grid_reach E g h \<and> g_data h = g_data g \<and> a \<in> r_item ` set (g_rows h)"
proof (cases "g_paging g")
  case False
  have "displayed g = g_data g"
    using False by (simp add: displayed_def lastDisplayIndex_def firstDisplayIndex_def itemsCount_def)
  with assms(2) live_ok [OF assms(1)] have "a \<in> r_item ` set (g_rows g)"
    by (simp add: grid_ok_def image_image)
  then show ?thesis using grid_reach.start by blast
next
  case True
  let ?k = "nat (g_pageSize g)"
  have k: "0 < g_pageSize g" using live_ok [OF assms(1)] by (simp add: grid_ok_def grid_core_def)
  obtain j where j: "j < length (g_data g)" "g_data g ! j = a" using assms(2) by (auto simp: in_set_conv_nth)
  define q where "q = j div ?k"
  have "q * ?k \<le> j" by (simp add: q_def)
  then have kq: "int (q * ?k) \<le> int j" by (rule of_nat_mono)
  define p where "p = int q + 1"
  have e: "(p - 1) * g_pageSize g = int (q * ?k)" using k by (simp add: p_def)
  have pq: "nat ((p - 1) * g_pageSize g) = q * ?k" unfolding e by (rule nat_int)
  have "(p - 1) * g_pageSize g < itemsCount g" using kq j(1) unfolding e itemsCount_def by linarith
  then have "1 \<le> p" "p \<le> pagesCount g" using le_pagesCount_iff [OF k] by (auto simp: p_def)
  then obtain h where h: "grid_reach E g h" "live E h" "g_paging h" "g_pageIndex h = p" "g_data h = g_data g"
    using go_to_page [OF assms(1) True] by blast
  have sz: "g_pageSize h = g_pageSize g" using options_reach [OF h(1)] by (simp add: options_def)
  have d: "displayed h = take ?k (drop (q * ?k) (g_data g))"
    using displayed_page [OF h(3)] h(4,5) sz k pq by (simp add: p_def)
  have m: "j - q * ?k < ?k" "q * ?k \<le> j"
    using k by (simp_all add: q_def minus_div_mult_eq_mod)
  then have "displayed h ! (j - q * ?k) = a" "j - q * ?k < length (displayed h)"
    using j unfolding d by simp_all
  then have "a \<in> set (displayed h)" using nth_mem by blast
  with live_ok [OF h(2)] have "a \<in> r_item ` set (g_rows h)" by (simp add: grid_ok_def image_image)
  with h show ?thesis by blast
qed

section \<open>A concrete grid\<close>

definition demo_field :: grid_field where
  "demo_field = \<lparr>f_name = ''name'', f_type = TextField, f_visible = True, f_inserting = True,
     f_editing = True, f_sorting = True, f_sorter = ByString, f_validate = [Required]\<rparr>"

definition demo_items :: "jsval list" where
  "demo_items = [JObj [(''name'', JStr ''a'')], JObj [(''name'', JStr ''b'')]]"

definition demo_grid :: grid where
  "demo_grid = snd (renderGrid (configured True True True False True 1 1 [demo_field] demo_items))"

lemma demo_grid_config: "fields_ok [demo_field]" "list_all is_obj demo_items"
  by (simp_all add: fields_ok_def demo_field_def path_def demo_items_def)

lemma demo_grid_live: "live demo_env demo_grid"
  unfolding live_def demo_grid_def using demo_sorts demo_grid_config grid_reach.start zero_less_one by blast

lemma demo_grid_facts: "g_data demo_grid = [0, 1]" "g_paging demo_grid" "g_pageIndex demo_grid = 1"
    "g_pageSize demo_grid = 1" "pagesCount demo_grid = 2"
  by (simp_all add: demo_grid_def renderGrid_def configured_def new_grid_def demo_items_def
      grid_refresh_def refreshContent_def refreshPager_def cancelEdit_def displayed_def lastDisplayIndex_def
      firstDisplayIndex_def itemsCount_def createRow_def getItemFieldValue_def demo_field_def path_def
      pagesCount_def upt_rec)

lemma demo_grid_next: "Nav ''Next'' 2 True \<in> set (g_pager demo_grid)" "g_pagerShown demo_grid"
  using nav_drawn(2) [OF live_ok live_format, OF demo_grid_live demo_grid_live demo_grid_facts(2)]
    live_ok [OF demo_grid_live]
  by (simp_all add: demo_grid_facts grid_ok_def)

theorem grid_events_safe_witness:
  "offered demo_grid (ClickPager (Nav ''Next'' 2 True)) \<and>
   fst (grid_fire demo_env (ClickPager (Nav ''Next'' 2 True)) demo_grid) = None"
proof -
  have o: "offered demo_grid (ClickPager (Nav ''Next'' 2 True))" using demo_grid_next by simp
  have "offered demo_grid (ClickPager (Nav ''Next'' 2 True)) \<longrightarrow>
      fst (grid_fire demo_env (ClickPager (Nav ''Next'' 2 True)) demo_grid) = None"
    using grid_events_safe [OF demo_sorts demo_grid_config zero_less_one zero_less_one,
        of True True True False True demo_grid "ClickPager (Nav ''Next'' 2 True)"]
    by (simp add: demo_grid_def grid_reach.start)
  with o show ?thesis by blast
qed

theorem grid_pager_bounds_witness:
  "g_pageIndex (snd (grid_fire demo_env (ClickPager (PageLink 2)) demo_grid)) = 2 \<and>
   map r_item (g_rows (snd (grid_fire demo_env (ClickPager (PageLink 2)) demo_grid))) = [1]"
  using grid_pager_bounds [OF demo_grid_live, of 2 "''Next''"] demo_grid_next demo_grid_facts by simp

theorem grid_item_reachable_witness:
  "\<exists>h. grid_reach demo_env demo_grid h \<and> g_data h = [0, 1] \<and> 1 \<in> r_item ` set (g_rows h)"
  using grid_item_reachable [OF demo_grid_live, of 1] by (simp add: demo_grid_facts)

end
