(* ===== verification/SchemaGrid.thy ===== *)
theory SchemaGrid
  imports TableSchema GridProps
begin

text \<open>
  The grids of the two schema forms and the submit handler at work on one array: the fields the forms
  give their grid, the columns a user can build, what the submit handler does to the objects the grid
  still shows, and that this is what the page's handler of \<open>TableSchema\<close> does to the array.
\<close>

section \<open>The grids of the forms\<close>

definition text_field :: "string \<Rightarrow> validator list \<Rightarrow> grid_field" where
  "text_field n rules = \<lparr>f_name = n, f_type = TextField, f_visible = True, f_inserting = True,
     f_editing = True, f_sorting = True, f_sorter = ByString, f_validate = rules\<rparr>"

definition select_field :: "string \<Rightarrow> (string \<times> int) list \<Rightarrow> bool \<Rightarrow> grid_field" where
  "select_field n items ed = \<lparr>f_name = n, f_type = SelectField items, f_visible = True,
     f_inserting = True, f_editing = ed, f_sorting = True, f_sorter = ByNumber, f_validate = []\<rparr>"

definition checkbox_field :: "string \<Rightarrow> bool \<Rightarrow> bool \<Rightarrow> grid_field" where
  "checkbox_field n ed srt = \<lparr>f_name = n, f_type = CheckboxField, f_visible = True, f_inserting = True,
     f_editing = ed, f_sorting = srt, f_sorter = ByNumber, f_validate = []\<rparr>"

definition control_field :: grid_field where
  "control_field = \<lparr>f_name = [], f_type = ControlField, f_visible = True, f_inserting = False,
     f_editing = False, f_sorting = False, f_sorter = ByString, f_validate = []\<rparr>"

definition create_fields :: "grid_field list" where
  "create_fields = [text_field ''name'' [Required], select_field ''data_type'' dataTypes True,
     checkbox_field ''unsigned'' True False, checkbox_field ''primary_key'' True False,
     checkbox_field ''auto_increment'' True False, checkbox_field ''regxs'' True False, control_field]"

definition edit_fields :: "grid_field list" where
  "edit_fields = [text_field ''name'' [Required], select_field ''data_type'' dataTypes False,
     checkbox_field ''unsigned'' False False, checkbox_field ''primary_key'' False True,
     checkbox_field ''auto_increment'' False True, checkbox_field ''regxs'' False False, control_field]"

definition create_grid :: "js_error option \<times> grid" where
  "create_grid = jsGrid True True create_fields []"

definition edit_grid :: "jsval list \<Rightarrow> js_error option \<times> grid" where
  "edit_grid columns = jsGrid True True edit_fields columns"

lemmas field_defs = text_field_def select_field_def checkbox_field_def control_field_def

lemma field_types [simp]:
  "f_type (text_field n rs) = TextField" "f_type (select_field n xs ed) = SelectField xs"
  "f_type (checkbox_field n ed srt) = CheckboxField" "f_type control_field = ControlField"
  by (simp_all add: field_defs)

lemma field_visible [simp]:
  "f_visible (text_field n rs)" "f_visible (select_field n xs ed)" "f_visible (checkbox_field n ed srt)"
  "f_visible control_field"
  by (simp_all add: field_defs)

lemma field_inserting [simp]:
  "f_inserting (text_field n rs)" "f_inserting (select_field n xs ed)" "f_inserting (checkbox_field n ed srt)"
  "\<not> f_inserting control_field"
  by (simp_all add: field_defs)

lemma field_editing [simp]:
  "f_editing (text_field n rs)" "f_editing (select_field n xs ed) = ed"
  "f_editing (checkbox_field n ed srt) = ed" "\<not> f_editing control_field"
  by (simp_all add: field_defs)

lemma field_validate [simp]:
  "f_validate (text_field n rs) = rs" "f_validate (select_field n xs ed) = []"
  "f_validate (checkbox_field n ed srt) = []" "f_validate control_field = []"
  by (simp_all add: field_defs)

lemma form_paths [simp]:
  "path (text_field ''name'' rs) = [''name'']" "path (select_field ''data_type'' xs ed) = [''data_type'']"
  "path (checkbox_field ''unsigned'' ed srt) = [''unsigned'']"
  "path (checkbox_field ''primary_key'' ed srt) = [''primary_key'']"
  "path (checkbox_field ''auto_increment'' ed srt) = [''auto_increment'']"
  "path (checkbox_field ''regxs'' ed srt) = [''regxs'']" "path control_field = [[]]"
  by (simp_all add: path_def field_defs)

lemma form_fields_ok [simp]: "fields_ok create_fields" "fields_ok edit_fields"
  by (simp_all add: fields_ok_def create_fields_def edit_fields_def)

lemma jsGrid_configured:
  "jsGrid ed ins fs vs = renderGrid (configured ed ins False False False 20 15 fs vs)"
  by (simp add: jsGrid_def configured_def new_grid_def)

section \<open>Columns\<close>

fun is_flag :: "jsval \<Rightarrow> bool" where
  "is_flag (JBool b) = True"
| "is_flag v = False"

text \<open>The mark of a primary key: a check box, or 0 or 1 once the form was submitted.\<close>

fun is_key :: "jsval \<Rightarrow> bool" where
  "is_key (JBool b) = True"
| "is_key (JNum n) = (n = 0 \<or> n = 1)"
| "is_key v = False"

text \<open>
  A column as the forms mean it, with \<open>K\<close> for the mark of a primary key: a name, one of the type codes
  and four marks.
\<close>

definition schema_column :: "(jsval \<Rightarrow> bool) \<Rightarrow> jsval \<Rightarrow> bool" where
  "schema_column K v \<longleftrightarrow> is_obj v \<and>
     (case prop_of v ''name'' of JStr s \<Rightarrow> s \<noteq> [] | _ \<Rightarrow> False) \<and>
     (case prop_of v ''data_type'' of JNum t \<Rightarrow> t \<in> set (map snd dataTypes) | _ \<Rightarrow> False) \<and>
     is_flag (prop_of v ''unsigned'') \<and> K (prop_of v ''primary_key'') \<and>
     is_flag (prop_of v ''auto_increment'') \<and> is_flag (prop_of v ''regxs'')"

text \<open>The object the grid builds from the six controls.\<close>

definition form_item :: "string \<Rightarrow> int \<Rightarrow> bool \<Rightarrow> bool \<Rightarrow> bool \<Rightarrow> bool \<Rightarrow> (string \<times> jsval) list" where
  "form_item n t u p a r = [(''name'', JStr n), (''data_type'', JNum t), (''unsigned'', JBool u),
     (''primary_key'', JBool p), (''auto_increment'', JBool a), (''regxs'', JBool r)]"

definition form_controls :: "string \<Rightarrow> nat \<Rightarrow> bool \<Rightarrow> bool \<Rightarrow> bool \<Rightarrow> bool \<Rightarrow> control list" where
  "form_controls n i u p a r = [TextBox n, SelectBox (Some i), CheckBox u, CheckBox p, CheckBox a,
     CheckBox r, NoControl]"

text \<open>Every control holds input of its kind.\<close>

definition filled :: "control list \<Rightarrow> bool" where
  "filled cs \<longleftrightarrow> list_all2 (\<lambda>f c. if f_type f = ControlField then c = NoControl else fits (f_type f) c)
     create_fields cs"

lemma filled_update:
  assumes "filled cs" and "fits (f_type (create_fields ! j)) c"
  shows "filled (cs[j := c])"
proof -
  have "f_type (create_fields ! j) \<noteq> ControlField" using assms(2) by (cases c) auto
  with list_all2_update_cong [OF assms(1) [unfolded filled_def], of "create_fields ! j" c j] assms(2)
  show ?thesis by (simp add: filled_def)
qed

lemma fits_cases:
  "fits TextField c \<Longrightarrow> \<exists>s. c = TextBox s" "fits CheckboxField c \<Longrightarrow> \<exists>b. c = CheckBox b"
  "fits (SelectField xs) c \<Longrightarrow> \<exists>i < length xs. c = SelectBox (Some i)"
  by (erule fits.elims(2); simp)+

lemma filledE:
  assumes "filled cs"
  obtains n i u p a r where "cs = form_controls n i u p a r" "i < length dataTypes"
  using assms
  by (auto simp: filled_def create_fields_def list_all2_Cons1 form_controls_def dest!: fits_cases)

lemma filled_form: "i < length dataTypes \<Longrightarrow> filled (form_controls n i u p a r)"
  by (simp add: filled_def form_controls_def create_fields_def)

lemma parseInt_nonneg: "0 \<le> t \<Longrightarrow> js_parseInt (show_int t) = JNum t"
  by (metis nonneg_int_cases parseInt_show_nat show_int_def of_nat_0_le_iff nat_int linorder_not_less)

lemma type_code_nonneg: "t \<in> set (map snd dataTypes) \<Longrightarrow> 0 \<le> t"
  by (auto simp: dataTypes_def)

lemma type_code_nth: "i < length dataTypes \<Longrightarrow> snd (dataTypes ! i) \<in> set (map snd dataTypes)"
  by (metis length_map nth_map nth_mem)

lemma type_codes_parse: "i < length dataTypes \<Longrightarrow>
    js_parseInt (show_int (snd (dataTypes ! i))) = JNum (snd (dataTypes ! i))"
  by (simp only: parseInt_nonneg type_code_nonneg type_code_nth)

lemma read_form_controls:
  assumes "i < length dataTypes" and "on = f_inserting \<or> on = f_editing"
  shows "read_controls on create_fields (form_controls n i u p a r) (JObj []) =
    JObj (form_item n (snd (dataTypes ! i)) u p a r)"
proof -
  have "on (text_field n rs)" "on (select_field n xs True)" "on (checkbox_field n True srt)"
    "\<not> on control_field" for n rs xs srt
    using assms(2) by auto
  then show ?thesis
    by (simp add: create_fields_def form_controls_def setItemFieldValue_def form_item_def assms(1)
        type_codes_parse)
qed

lemma validation_form:
  assumes "on = f_inserting \<or> on = f_editing"
  shows "validation_errors on (JObj (form_item n t u p a r)) create_fields =
    Some (if n = [] then [message Required] else [])"
proof -
  have "on (text_field m rs)" for m rs using assms by auto
  then show ?thesis by (simp add: create_fields_def form_item_def getItemFieldValue_def)
qed

lemma prop_of_form_item:
  "prop_of (JObj (form_item n t u p a r)) ''name'' = JStr n"
  "prop_of (JObj (form_item n t u p a r)) ''data_type'' = JNum t"
  "prop_of (JObj (form_item n t u p a r)) ''unsigned'' = JBool u"
  "prop_of (JObj (form_item n t u p a r)) ''primary_key'' = JBool p"
  "prop_of (JObj (form_item n t u p a r)) ''auto_increment'' = JBool a"
  "prop_of (JObj (form_item n t u p a r)) ''regxs'' = JBool r"
  by (simp_all add: prop_of_def form_item_def)

lemma schema_column_form_item:
  "n \<noteq> [] \<Longrightarrow> t \<in> set (map snd dataTypes) \<Longrightarrow> K (JBool p) \<Longrightarrow>
     schema_column K (JObj (form_item n t u p a r))"
  by (simp add: schema_column_def prop_of_form_item)

text \<open>What an update makes of a column.\<close>

lemma extend_form_item:
  "extend_deep fs (form_item n t u p a r) = put ''regxs'' (JBool r) (put ''auto_increment'' (JBool a)
     (put ''primary_key'' (JBool p) (put ''unsigned'' (JBool u) (put ''data_type'' (JNum t)
       (put ''name'' (JStr n) fs)))))"
  by (simp add: form_item_def)

lemma prop_of_put: "prop_of (JObj (put k x fs)) j = (if j = k then x else prop_of (JObj fs) j)"
  by (simp add: prop_of_def map_of_put)

lemma schema_column_extend:
  assumes "is_obj v" and "n \<noteq> []" and "t \<in> set (map snd dataTypes)" and "K (JBool p)"
  shows "schema_column K (extend_item v (JObj (form_item n t u p a r)))"
proof -
  obtain fs where "v = JObj fs" using assms(1) by (cases v) auto
  with assms show ?thesis by (simp add: schema_column_def extend_form_item prop_of_put)
qed

lemma put_same: "map_of fs k = Some x \<Longrightarrow> put k x fs = fs"
  by (induction fs) (auto split: if_splits)

lemma prop_of_SomeD: "prop_of (JObj fs) k = x \<Longrightarrow> x \<noteq> JUndef \<Longrightarrow> map_of fs k = Some x"
  by (simp add: prop_of_def split: option.splits)

lemma schema_columnE:
  assumes "schema_column K v"
  obtains fs n t u a r where "v = JObj fs" "prop_of v ''name'' = JStr n" "n \<noteq> []"
    "prop_of v ''data_type'' = JNum t" "t \<in> set (map snd dataTypes)" "prop_of v ''unsigned'' = JBool u"
    "K (prop_of v ''primary_key'')" "prop_of v ''auto_increment'' = JBool a" "prop_of v ''regxs'' = JBool r"
proof -
  note c = assms [unfolded schema_column_def]
  have flag: "\<exists>b. prop_of v k = JBool b" if "is_flag (prop_of v k)" for k
    using that by (cases "prop_of v k") simp_all
  have "K (prop_of v ''primary_key'')" using c by simp
  moreover have "\<exists>fs. v = JObj fs" using c by (cases v) simp_all
  moreover have "\<exists>n. prop_of v ''name'' = JStr n \<and> n \<noteq> []"
    using c by (cases "prop_of v ''name''") simp_all
  moreover have "\<exists>t. prop_of v ''data_type'' = JNum t \<and> t \<in> set (map snd dataTypes)"
    using c by (cases "prop_of v ''data_type''") simp_all
  moreover have "\<exists>u. prop_of v ''unsigned'' = JBool u" "\<exists>a. prop_of v ''auto_increment'' = JBool a"
      "\<exists>r. prop_of v ''regxs'' = JBool r"
    using c by (simp_all add: flag)
  ultimately show thesis by (elim exE conjE) (rule that)
qed

text \<open>The option of a type code.\<close>

lemma first_index_Some:
  "x \<in> set xs \<Longrightarrow> P x \<Longrightarrow> \<exists>i < length xs. first_index P xs = Some i \<and> P (xs ! i)"
  by (induction xs) auto

lemma show_int_nonneg_inj: "0 \<le> s \<Longrightarrow> 0 \<le> t \<Longrightarrow> show_int s = show_int t \<Longrightarrow> s = t"
  by (metis parseInt_nonneg jsval.inject(2))

lemma select_type_code:
  assumes "t \<in> set (map snd dataTypes)"
  shows "\<exists>i < length dataTypes. select_option dataTypes (JNum t) = Some i \<and> snd (dataTypes ! i) = t"
proof -
  obtain x where x: "x \<in> set dataTypes" "snd x = t" using assms by auto
  define P where "P = (\<lambda>it :: string \<times> int. show_int (snd it) = show_int t)"
  have "P x" using x(2) by (simp add: P_def)
  then obtain i where i: "i < length dataTypes" "first_index P dataTypes = Some i" "P (dataTypes ! i)"
    using first_index_Some [OF x(1)] by blast
  from i(3) have "show_int (snd (dataTypes ! i)) = show_int t" by (simp add: P_def)
  then have "snd (dataTypes ! i) = t"
    using show_int_nonneg_inj type_code_nonneg [OF type_code_nth [OF i(1)]] type_code_nonneg [OF assms] by blast
  with i(1,2) show ?thesis by (intro exI [of _ i]) (simp add: select_option_def P_def)
qed

text \<open>The edit row of a column: its values in the controls.\<close>

lemma edit_row_of_column:
  assumes "schema_column K v"
  obtains n i u a r where "createEditRow v create_fields =
      Some (form_controls n i u (truthy (prop_of v ''primary_key'')) a r)" "i < length dataTypes"
    "prop_of v ''name'' = JStr n" "prop_of v ''data_type'' = JNum (snd (dataTypes ! i))"
    "prop_of v ''unsigned'' = JBool u" "prop_of v ''auto_increment'' = JBool a" "prop_of v ''regxs'' = JBool r"
    "n \<noteq> []"
proof -
  obtain fs n t u a r where v: "v = JObj fs" and n: "prop_of v ''name'' = JStr n" "n \<noteq> []"
      and t: "prop_of v ''data_type'' = JNum t" "t \<in> set (map snd dataTypes)"
      and u: "prop_of v ''unsigned'' = JBool u" and a: "prop_of v ''auto_increment'' = JBool a"
      and r: "prop_of v ''regxs'' = JBool r"
    by (rule schema_columnE [OF assms])
  obtain i where i: "i < length dataTypes" "select_option dataTypes (JNum t) = Some i" "snd (dataTypes ! i) = t"
    using select_type_code [OF t(2)] by blast
  have o: "is_obj v" using v by simp
  have p: "getItemFieldValue v f = Some (prop_of v k)" if "path f = [k]" for f k
    using that o by (simp add: getItemFieldValue_def is_obj_get_prop)
  have "createEditRow v create_fields = Some (form_controls n i u (truthy (prop_of v ''primary_key'')) a r)"
    by (simp add: create_fields_def p n(1) t(1) u a r editTemplate_def i(2) form_controls_def nullish_def)
  with i n t u a r show thesis by (intro that [of n i u a r]) auto
qed

section \<open>The form and its columns\<close>

text \<open>
  A state of the create form's grid in which every object is a column, also those the grid only shows.
  It does not say that the rows on the screen are those of the array.
\<close>

definition typed_form :: "(jsval \<Rightarrow> bool) \<Rightarrow> grid \<Rightarrow> bool" where
  "typed_form K g \<longleftrightarrow> g_fields g = create_fields \<and> \<not> g_paging g \<and> \<not> g_sorting g \<and> \<not> g_pagerShown g \<and>
     (\<forall>a < g_next g. schema_column K (g_heap g a)) \<and> distinct (g_data g) \<and> (\<forall>a \<in> set (g_data g). a < g_next g) \<and>
     (\<forall>r \<in> set (g_rows g). r_item r < g_next g) \<and> filled (g_insertRow g) \<and>
     pred_option (\<lambda>(i, cs). i < length (g_rows g) \<and> filled cs) (g_editRow g)"

lemma schema_column_obj: "schema_column K v \<Longrightarrow> is_obj v"
  by (simp add: schema_column_def)

lemma typed_displayed: "typed_form K g \<Longrightarrow> list_all (\<lambda>a. is_obj (g_heap g a)) (displayed g)"
  using set_displayed [of g] by (auto simp: typed_form_def list_all_iff intro: schema_column_obj)

lemma typed_refresh:
  assumes "typed_form K g"
  shows "grid_refresh g = (None, grid_refreshed g)" and "typed_form K (grid_refreshed g)"
proof -
  show "grid_refresh g = (None, grid_refreshed g)" by (rule refresh_eq [OF typed_displayed [OF assms]])
  show "typed_form K (grid_refreshed g)"
    using assms set_displayed [of g] unfolding grid_refreshed_def typed_form_def by auto
qed

lemma typed_update [simp]:
  "typed_form K (g\<lparr>g_alerts := al\<rparr>) = typed_form K g" "typed_form K (g\<lparr>g_pageIndex := n\<rparr>) = typed_form K g"
  "typed_form K (g\<lparr>g_firstPage := n\<rparr>) = typed_form K g" "typed_form K (g\<lparr>g_sortField := sf\<rparr>) = typed_form K g"
  "typed_form K (g\<lparr>g_sortAsc := b\<rparr>) = typed_form K g" "typed_form K (g\<lparr>g_pager := pg\<rparr>) = typed_form K g"
  by (simp_all add: typed_form_def)

lemma typed_alert [simp]: "typed_form K (g_alert m g) = typed_form K g"
  by (simp add: g_alert_def)

lemma typed_cancelEdit: "typed_form K g \<Longrightarrow> typed_form K (cancelEdit g)"
  by (simp add: typed_form_def cancelEdit_def)

lemma typed_insertRow: "typed_form K g \<Longrightarrow> filled ir \<Longrightarrow> typed_form K (g\<lparr>g_insertRow := ir\<rparr>)"
  by (simp add: typed_form_def)

lemma typed_data:
  "typed_form K g \<Longrightarrow> set xs \<subseteq> set (g_data g) \<Longrightarrow> distinct xs \<Longrightarrow> typed_form K (g\<lparr>g_data := xs\<rparr>)"
  by (auto simp: typed_form_def)

lemma typed_append:
  assumes "typed_form K g" and "schema_column K v"
  shows "typed_form K ((snd (g_alloc [v] g))\<lparr>g_data := g_data g @ [g_next g]\<rparr>)"
  using assms unfolding typed_form_def g_alloc_def by (fastforce simp: less_Suc_eq)

lemma createInsertRow_form: "g_fields g = create_fields \<Longrightarrow>
    createInsertRow g = form_controls [] 0 False False False False"
  by (simp add: createInsertRow_def create_fields_def insertTemplate_def form_controls_def first_option_def
      dataTypes_def)

lemma filled_empty: "filled (form_controls [] 0 False False False False)"
  by (rule filled_form) (simp add: dataTypes_def)

text \<open>What the insert button does in the form.\<close>

lemma insert_click_form:
  assumes "typed_form K g" and "g_insertRow g = form_controls n i u p a r" and "i < length dataTypes"
    and "\<And>b. K (JBool b)"
  defines "v \<equiv> JObj (form_item n (snd (dataTypes ! i)) u p a r)"
  defines "h \<equiv> (snd (g_alloc [v] g))\<lparr>g_data := g_data g @ [g_next g]\<rparr>"
  shows "insert_click g = (if n = [] then (None, invalidNotify [message Required] g)
     else (None, grid_refreshed ((grid_refreshed h)\<lparr>g_insertRow := form_controls [] 0 False False False False\<rparr>)))"
proof -
  have f: "g_fields g = create_fields" using assms(1) by (simp add: typed_form_def)
  have it: "getInsertItem g = v"
    by (simp add: getInsertItem_def f assms(2) read_form_controls assms(3) v_def)
  have val: "validateItem f_inserting v g =
      (if n = [] then (Inr False, invalidNotify [message Required] g) else (Inr True, g))"
    by (simp add: validateItem_def f v_def validation_form)
  show ?thesis
  proof (cases "n = []")
    case True
    then show ?thesis by (simp add: insert_click_def insertItem_def it val)
  next
    case False
    have "prop_of v ''primarykey'' = JUndef" by (simp add: v_def prop_of_def form_item_def)
    moreover have "schema_column K v"
      unfolding v_def by (intro schema_column_form_item False type_code_nth assms(3,4))
    then have t: "typed_form K h" unfolding h_def by (rule typed_append [OF assms(1)])
    moreover have "finishInsert v g = (None, grid_refreshed h)"
      using typed_refresh(1) [OF t] by (simp add: finishInsert_def g_alloc_def h_def)
    moreover have "clearInsert (grid_refreshed h) =
        (None, grid_refreshed ((grid_refreshed h)\<lparr>g_insertRow := form_controls [] 0 False False False False\<rparr>))"
      unfolding clearInsert_def
      using typed_refresh(1) [OF typed_insertRow [OF typed_refresh(2) [OF t] filled_empty]]
        createInsertRow_form [of "grid_refreshed h"] typed_refresh(2) [OF t]
      by (simp add: typed_form_def)
    ultimately show ?thesis using False by (simp add: insert_click_def insertItem_def it val)
  qed
qed

abbreviation typed_at :: "(jsval \<Rightarrow> bool) \<Rightarrow> gact \<Rightarrow> grid \<Rightarrow> bool" where
  "typed_at K act g \<equiv> fst (act g) = None \<and> typed_form K (snd (act g))"

lemma insert_click_typed:
  assumes "typed_form K g" and "\<And>b. K (JBool b)"
  shows "typed_at K insert_click g"
proof -
  have "filled (g_insertRow g)" using assms(1) by (simp add: typed_form_def)
  then obtain n i u p a r where c: "g_insertRow g = form_controls n i u p a r" "i < length dataTypes"
    by (rule filledE)
  let ?v = "JObj (form_item n (snd (dataTypes ! i)) u p a r)"
  have "typed_form K ((snd (g_alloc [?v] g))\<lparr>g_data := g_data g @ [g_next g]\<rparr>)" if "n \<noteq> []"
    by (intro typed_append assms(1) schema_column_form_item that type_code_nth c(2) assms(2))
  with assms(1) show ?thesis
    unfolding insert_click_form [OF assms(1) c assms(2)]
    by (auto simp: invalidNotify_def intro!: typed_refresh(2) typed_insertRow filled_empty)
qed

lemma typed_row:
  assumes "typed_form K g" and "i < length (g_rows g)"
  shows "r_item (g_rows g ! i) < g_next g" and "schema_column K (g_heap g (r_item (g_rows g ! i)))"
  using assms nth_mem [OF assms(2)] by (auto simp: typed_form_def)

lemma row_click_typed:
  assumes "typed_form K g" and "i < length (g_rows g)"
  shows "typed_at K (row_click i) g"
proof -
  have f: "g_fields g = create_fields" using assms(1) by (simp add: typed_form_def)
  obtain n j u a r where "createEditRow (g_heap g (r_item (g_rows g ! i))) create_fields = Some
      (form_controls n j u (truthy (prop_of (g_heap g (r_item (g_rows g ! i))) ''primary_key'')) a r)"
      and "j < length dataTypes"
    by (rule edit_row_of_column [OF typed_row(2) [OF assms]])
  with assms f show ?thesis
    by (simp add: row_click_def cancelEdit_def Let_def) (simp add: typed_form_def filled_form)
qed

lemma typed_heap_row:
  assumes "typed_form K g" and "a < g_next g" and "schema_column K v" and "r_item row = a"
  shows "typed_form K (g\<lparr>g_heap := (g_heap g)(a := v), g_editRow := None, g_rows := (g_rows g)[i := row]\<rparr>)"
  using assms by (auto simp: typed_form_def dest!: set_update_subset_insert [THEN subsetD])

lemma updateRow_typed:
  assumes "typed_form K g" and "i < length (g_rows g)" and "n \<noteq> []" and "t \<in> set (map snd dataTypes)"
    and "K (JBool p)"
  shows "typed_at K (grid_updateRow i (JObj (form_item n t u p a r))) g"
proof -
  let ?a = "r_item (g_rows g ! i)"
  let ?v = "extend_item (g_heap g ?a) (JObj (form_item n t u p a r))"
  let ?h = "g\<lparr>g_heap := (g_heap g)(?a := ?v), g_editRow := None\<rparr>"
  note row = typed_row [OF assms(1,2)]
  have v: "schema_column K ?v" by (intro schema_column_extend schema_column_obj [OF row(2)] assms(3-5))
  have "(if itemIndex g ?a < 0 then g_data g else (g_data g)[nat (itemIndex g ?a) := ?a]) = g_data g"
  proof (cases "?a \<in> set (g_data g)")
    case True
    then obtain k where "k < length (g_data g)" "itemIndex g ?a = int k" "g_data g ! k = ?a"
      by (rule itemIndex_in)
    then show ?thesis by (simp add: list_update_same_conv)
  qed (simp add: itemIndex_def first_index_notin)
  moreover have "createRow ?h ?a = Some (draw ?h ?a)"
    by (rule createRow_draw) (simp add: schema_column_obj [OF row(2)])
  moreover have "typed_form K (?h\<lparr>g_rows := (g_rows g)[i := draw ?h ?a]\<rparr>)"
    using typed_heap_row [OF assms(1) row(1) v draw_item] by simp
  ultimately show ?thesis by (simp add: grid_updateRow_def cancelEdit_def Let_def)
qed

lemma updateItem_typed:
  assumes "typed_form K g" and "g_editRow g \<noteq> None" and "\<And>b. K (JBool b)"
  shows "typed_at K updateItem g"
proof -
  obtain i cs where e: "g_editRow g = Some (i, cs)" using assms(2) by auto
  then have i: "i < length (g_rows g)" and "filled cs" using assms(1) by (simp_all add: typed_form_def)
  then obtain n j u p a r where c: "cs = form_controls n j u p a r" "j < length dataTypes" by (rule_tac filledE)
  have f: "g_fields g = create_fields" using assms(1) by (simp add: typed_form_def)
  show ?thesis
    using updateRow_typed [OF assms(1) i _ type_code_nth [OF c(2)] assms(3)] assms(1)
    by (simp add: updateItem_def e getEditedItem_def f c read_form_controls validateItem_def validation_form
        invalidNotify_def)
qed

lemma deleteItem_typed:
  assumes "typed_form K g"
  shows "typed_at K (deleteItem a yes) g"
proof -
  have "distinct (splice_at k (g_data g))" for k
    using assms by (simp add: splice_at_def distinct_splice typed_form_def)
  then have "typed_form K (resetPager (resetSorting (g\<lparr>g_data := splice_at k (g_data g)\<rparr>)))" for k
    using typed_data [OF assms splice_at_subset]
    by (simp add: resetPager_def resetSorting_def setPage_def Let_def)
  then have "typed_at K (finishDelete k) g" for k
    using typed_refresh unfolding finishDelete_def reset_def by fastforce
  with assms show ?thesis by (simp add: deleteItem_def)
qed

lemma event_typed:
  assumes "typed_form K g" and "\<And>b. K (JBool b)" and "offered g e"
  shows "typed_at K (grid_fire E e) g"
proof (cases e)
  case (TypeInsert i c)
  then show ?thesis
    using assms by (auto intro!: typed_insertRow filled_update simp: typed_form_def)
next
  case (TypeEdit i c)
  then show ?thesis
    using assms by (auto simp: typed_form_def filled_update split: option.splits)
next
  case (ClickHeader i)
  with assms show ?thesis by (simp add: typed_form_def)
next
  case (ClickPager x)
  with assms show ?thesis by (simp add: typed_form_def)
qed (use assms in \<open>simp_all add: insert_click_typed row_click_typed updateItem_typed deleteItem_typed
      typed_cancelEdit row_visible_def\<close>)

section \<open>Submitting\<close>

text \<open>
  The second loop of the submit handler on the array of references: the objects are changed in place, and
  the dynamic ones are taken out of the array the grid uses.
\<close>

function split_refs :: "(nat \<Rightarrow> jsval) \<Rightarrow> nat list \<Rightarrow> nat list \<Rightarrow> nat \<Rightarrow>
    loop_end \<times> (nat \<Rightarrow> jsval) \<times> nat list \<times> nat list" where
  "split_refs hp data regxsList i =
     (if i < length data
      then (case get_prop (hp (data ! i)) ''name'' of
          None \<Rightarrow> (Failed (TypeError ''name''), hp, data, regxsList)
        | Some (JStr columnName) \<Rightarrow>
            if index_of ''-'' columnName \<noteq> None then (HasDash, hp, data, regxsList)
            else let a = data ! i; c = normalise (hp a); hp' = hp(a := c) in
              if is_dynamic c then split_refs hp' (splice1 i data) (regxsList @ [a]) (i + 1)
              else split_refs hp' data regxsList (i + 1)
        | Some _ \<Rightarrow> (Failed (TypeError ''indexOf''), hp, data, regxsList))
      else (Finished, hp, data, regxsList))"
  by pat_completeness auto
termination by (relation "measure (\<lambda>(hp, d, r, i). length d - i)") auto

declare split_refs.simps [simp del]

text \<open>The submit handler up to the second loop, as far as it concerns the array.\<close>

definition submit :: gact where
  "submit g = (if g_items g = [] then (None, g)
     else case check_columns (Some isIntType) (g_items g) False 0 of
         Inl e \<Rightarrow> (Some e, g)
       | Inr (pkFlg, incFlg, incCount) \<Rightarrow>
           if \<not> pkFlg \<or> \<not> incFlg \<or> incCount > 1 then (None, g)
           else (case split_refs (g_heap g) (g_data g) [] 0 of (e, hp, data, regxsList) \<Rightarrow>
             (case e of Failed er \<Rightarrow> Some er | _ \<Rightarrow> None, g\<lparr>g_heap := hp, g_data := data\<rparr>)))"

text \<open>On distinct references the loop does to the values what the loop on values does.\<close>

lemma map_heap_update:
  assumes "distinct data" and "i < length data"
  shows "map (hp(data ! i := c)) data = (map hp data)[i := c]"
  using assms by (intro nth_equalityI) (auto simp: nth_list_update nth_eq_iff_index_eq)

lemma splice1_set: "distinct xs \<Longrightarrow> i < length xs \<Longrightarrow> set (splice1 i xs) = set xs - {xs ! i}"
proof -
  assume d: "distinct xs" and i: "i < length xs"
  have "xs = take i xs @ xs ! i # drop (Suc i) xs" by (rule id_take_nth_drop [OF i])
  with d show ?thesis unfolding splice1_def
    by (metis (no_types, lifting) Diff_insert_absorb Un_insert_right distinct.simps(2) distinct_append
        insert_disjoint(2) list.simps(15) set_append inf_commute Un_iff)
qed

text \<open>One round of each loop on a column with an accepted name.\<close>

definition good_name :: "jsval \<Rightarrow> bool" where
  "good_name v \<longleftrightarrow> (\<exists>n. get_prop v ''name'' = Some (JStr n) \<and> index_of ''-'' n = None)"

lemma split_refs_round:
  assumes "i < length data" and "good_name (hp (data ! i))"
  defines "c \<equiv> normalise (hp (data ! i))"
  shows "split_refs hp data rx i = (if is_dynamic c
     then split_refs (hp(data ! i := c)) (splice1 i data) (rx @ [data ! i]) (i + 1)
     else split_refs (hp(data ! i := c)) data rx (i + 1))"
  using assms by (auto simp: good_name_def split_refs.simps [of hp data] Let_def)

lemma split_columns_round:
  assumes "i < length cs" and "good_name (cs ! i)"
  defines "c \<equiv> normalise (cs ! i)"
  shows "split_columns cs rx i = (if is_dynamic c
     then split_columns (splice1 i (cs[i := c])) (rx @ [c]) (i + 1)
     else split_columns (cs[i := c]) rx (i + 1))"
  using assms by (auto simp: good_name_def split_columns.simps [of cs] Let_def)

lemma split_stop:
  assumes "\<not> (i < length data \<and> good_name (hp (data ! i)))"
  shows "\<exists>e. split_refs hp data rx i = (e, hp, data, rx) \<and>
    split_columns (map hp data) (map hp rx) i = (e, map hp data, map hp rx) \<and>
    ((i < length data \<longrightarrow> (\<exists>n. get_prop (hp (data ! i)) ''name'' = Some (JStr n))) \<longrightarrow> (\<forall>er. e \<noteq> Failed er))"
proof (cases "i < length data")
  case True
  with assms show ?thesis
    by (auto simp: good_name_def split_refs.simps [of hp data] split_columns.simps [of "map hp data"]
        split: option.split jsval.split)
qed (simp add: split_refs.simps [of hp data] split_columns.simps [of "map hp data"])

text \<open>Induction over the rounds of the loop.\<close>

lemma split_induct [case_names stop dynamic plain]:
  assumes "\<And>hp data rx i. \<not> (i < length data \<and> good_name (hp (data ! i))) \<Longrightarrow> P hp data rx i"
    and "\<And>hp data rx i. i < length data \<Longrightarrow> good_name (hp (data ! i)) \<Longrightarrow>
      is_dynamic (normalise (hp (data ! i))) \<Longrightarrow>
      P (hp(data ! i := normalise (hp (data ! i)))) (splice1 i data) (rx @ [data ! i]) (i + 1) \<Longrightarrow>
      P hp data rx i"
    and "\<And>hp data rx i. i < length data \<Longrightarrow> good_name (hp (data ! i)) \<Longrightarrow>
      \<not> is_dynamic (normalise (hp (data ! i))) \<Longrightarrow>
      P (hp(data ! i := normalise (hp (data ! i)))) data rx (i + 1) \<Longrightarrow> P hp data rx i"
  shows "P hp data rx i"
proof (induction "length data - i" arbitrary: hp data rx i rule: less_induct)
  case less
  show ?case
  proof (cases "i < length data \<and> good_name (hp (data ! i))")
    case True
    then have i: "i < length data" "good_name (hp (data ! i))" by simp_all
    show ?thesis
    proof (cases "is_dynamic (normalise (hp (data ! i)))")
      case dyn: True
      show ?thesis
        by (rule assms(2) [where hp = hp and data = data and rx = rx and i = i, OF i dyn less]) (use i in simp)
    next
      case False
      show ?thesis
        by (rule assms(3) [where hp = hp and data = data and rx = rx and i = i, OF i False less]) (use i in simp)
    qed
  qed (rule assms(1))
qed

lemma split_refs_values:
  assumes "distinct (data @ rx)"
  shows "(case split_refs hp data rx i of (e, hp', data', rx') \<Rightarrow> (e, map hp' data', map hp' rx')) =
    split_columns (map hp data) (map hp rx) i"
  using assms
proof (induction hp data rx i rule: split_induct)
  case (stop hp data rx i)
  with split_stop [of i data hp rx] show ?case by auto
next
  case (dynamic hp data rx i)
  let ?hp = "hp(data ! i := normalise (hp (data ! i)))"
  have nr: "data ! i \<notin> set rx" using dynamic.prems dynamic.hyps(1) nth_mem by fastforce
  have sp: "splice1 i ((map hp data)[i := normalise (hp (data ! i))]) = map ?hp (splice1 i data)"
    using dynamic map_heap_update [of data i hp] by (metis distinct_append splice1_map)
  have rx: "map hp rx @ [normalise (hp (data ! i))] = map ?hp (rx @ [data ! i])" using nr by simp
  have "distinct (splice1 i data @ rx @ [data ! i])"
    using dynamic.prems dynamic.hyps(1) nr by (auto simp: distinct_splice splice1_set)
  note ih = dynamic.IH [OF this]
  have "split_columns (map hp data) (map hp rx) i =
      split_columns (map ?hp (splice1 i data)) (map ?hp (rx @ [data ! i])) (i + 1)"
    unfolding sp [symmetric] rx [symmetric] using dynamic.hyps by (simp add: split_columns_round)
  moreover have "split_refs hp data rx i = split_refs ?hp (splice1 i data) (rx @ [data ! i]) (i + 1)"
    using dynamic.hyps by (simp only: split_refs_round if_True)
  ultimately show ?case by (simp only: ih)
next
  case (plain hp data rx i)
  let ?hp = "hp(data ! i := normalise (hp (data ! i)))"
  have rx: "map hp rx = map ?hp rx" using plain.prems plain.hyps(1) nth_mem by fastforce
  have up: "(map hp data)[i := normalise (hp (data ! i))] = map ?hp data"
    using plain map_heap_update [of data i hp] by simp
  have "split_columns (map hp data) (map hp rx) i = split_columns (map ?hp data) (map ?hp rx) (i + 1)"
    unfolding up [symmetric] rx [symmetric] using plain.hyps by (simp add: split_columns_round)
  moreover have "split_refs hp data rx i = split_refs ?hp data rx (i + 1)"
    using plain.hyps by (simp only: split_refs_round if_False)
  ultimately show ?case by (simp only: plain.IH [OF plain.prems])
qed

lemma normalise_typed: "schema_column is_key v \<Longrightarrow> schema_column is_key (normalise v)"
proof -
  assume v: "schema_column is_key v"
  obtain fs where fs: "v = JObj fs" by (rule schema_columnE [OF v])
  obtain b where "normalise v = JObj (put ''primary_key'' (JNum b) (put ''index'' (JBool True) fs))" "b = 0 \<or> b = 1"
    by (cases "truthy (prop_of v ''primary_key'')")
       (auto simp: normalise_def fs map_of_put prop_of_def split: option.splits)
  with v fs show ?thesis by (auto simp: schema_column_def prop_of_put)
qed

lemma column_name: "schema_column K v \<Longrightarrow> \<exists>n. get_prop v ''name'' = Some (JStr n)"
  by (erule schema_columnE) (auto simp: prop_of_def)

text \<open>What the loop keeps, when all objects are columns.\<close>

lemma split_refs_typed:
  assumes "\<forall>a < N. schema_column is_key (hp a)" and "distinct data" and "\<forall>a \<in> set data. a < N"
  shows "case split_refs hp data rx i of (e, hp', data', rx') \<Rightarrow> (\<forall>er. e \<noteq> Failed er) \<and>
    (\<forall>a < N. schema_column is_key (hp' a)) \<and> distinct data' \<and> set data' \<subseteq> set data"
  using assms
proof (induction hp data rx i rule: split_induct)
  case (stop hp data rx i)
  have "i < length data \<longrightarrow> (\<exists>n. get_prop (hp (data ! i)) ''name'' = Some (JStr n))"
    using stop.prems column_name by (metis nth_mem)
  with split_stop [of i data hp rx] stop show ?case by auto
next
  case (dynamic hp data rx i)
  let ?hp = "hp(data ! i := normalise (hp (data ! i)))"
  have "\<forall>a < N. schema_column is_key (?hp a)"
    using dynamic.prems dynamic.hyps by (simp add: normalise_typed)
  then have ih: "case split_refs ?hp (splice1 i data) (rx @ [data ! i]) (i + 1) of (e, hp', data', rx') \<Rightarrow>
      (\<forall>er. e \<noteq> Failed er) \<and> (\<forall>a < N. schema_column is_key (hp' a)) \<and> distinct data' \<and>
      set data' \<subseteq> set (splice1 i data)"
    by (rule dynamic.IH) (use dynamic.prems set_splice1 [of i data] in \<open>auto simp: distinct_splice\<close>)
  have r: "split_refs hp data rx i = split_refs ?hp (splice1 i data) (rx @ [data ! i]) (i + 1)"
    using dynamic.hyps by (simp only: split_refs_round if_True)
  show ?case unfolding r using ih set_splice1 [of i data] by (auto split: prod.splits)
next
  case (plain hp data rx i)
  let ?hp = "hp(data ! i := normalise (hp (data ! i)))"
  have "\<forall>a < N. schema_column is_key (?hp a)"
    using plain.prems plain.hyps by (simp add: normalise_typed)
  from plain.IH [OF this plain.prems(2,3)] plain.hyps(3) show ?case
    by (simp only: split_refs_round [of i data hp, OF plain.hyps(1,2)] if_False)
qed

lemma check_columns_total:
  "\<forall>c \<in> set cs. \<not> nullish c \<Longrightarrow> \<exists>r. check_columns (Some f) cs pk n = Inr r"
  by (induction cs arbitrary: pk n) (auto simp: get_prop_col Let_def)

lemma is_obj_not_nullish: "is_obj v \<Longrightarrow> \<not> nullish v"
  by (cases v) (auto simp: nullish_def)

lemma submit_typed:
  assumes "typed_form is_key g"
  shows "typed_at is_key submit g"
proof -
  have c: "\<forall>c \<in> set (g_items g). \<not> nullish c"
    using assms schema_column_obj is_obj_not_nullish by (fastforce simp: g_items_def typed_form_def)
  obtain p b k where r: "check_columns (Some isIntType) (g_items g) False 0 = Inr (p, b, k)"
    using check_columns_total [OF c] by (metis prod_cases3)
  obtain e hp data rx where s: "split_refs (g_heap g) (g_data g) [] 0 = (e, hp, data, rx)"
    by (metis prod_cases4)
  have "(\<forall>er. e \<noteq> Failed er) \<and> (\<forall>a < g_next g. schema_column is_key (hp a)) \<and> distinct data \<and>
      set data \<subseteq> set (g_data g)"
    using split_refs_typed [of "g_next g" "g_heap g" "g_data g" "[]" 0] assms
    by (simp add: s typed_form_def)
  with assms r s show ?thesis
    by (cases e) (auto simp: submit_def typed_form_def)
qed

section \<open>The form from its first drawing on\<close>

lemma create_grid_ok: "grid_ok (snd create_grid)"
  unfolding create_grid_def jsGrid_configured using renderGrid_ok [of create_fields "[]"] by simp

lemma create_grid_typed: "typed_form K (snd create_grid)" "fst create_grid = None"
proof -
  let ?g = "(new_grid True True create_fields [])
    \<lparr>g_editRow := None, g_rows := [], g_pager := [], g_insertRow := form_controls [] 0 False False False False\<rparr>"
  have "typed_form K ?g" by (simp add: typed_form_def new_grid_def filled_empty)
  from typed_refresh [OF this] show "typed_form K (snd create_grid)" "fst create_grid = None"
    by (simp_all add: create_grid_def jsGrid_def renderGrid_def createInsertRow_form new_grid_def)
qed

lemma reach_typed: "grid_reach E (snd create_grid) g \<Longrightarrow> typed_form is_flag g"
  by (induction rule: grid_reach.induct) (simp_all add: create_grid_typed event_typed)

lemma reach_ok: "sorts E \<Longrightarrow> grid_reach E (snd create_grid) g \<Longrightarrow> grid_ok g"
  using grid_reach_ok create_grid_ok by blast

lemma reach_options:
  assumes "grid_reach E (snd create_grid) g"
  shows "g_editing g" "g_inserting g" "\<not> g_confirmDeleting g" "\<not> g_paging g" "g_fields g = create_fields"
proof -
  have "options g = options (new_grid True True create_fields [])"
    using options_reach [OF assms] by (simp add: create_grid_def jsGrid_def renderGrid_def)
  then show "g_editing g" "g_inserting g" "\<not> g_confirmDeleting g" "\<not> g_paging g" "g_fields g = create_fields"
    by (simp_all add: options_def new_grid_def)
qed

lemma displayed_all: "\<not> g_paging g \<Longrightarrow> displayed g = g_data g"
  by (simp add: displayed_def lastDisplayIndex_def firstDisplayIndex_def itemsCount_def)

lemma g_items_refreshed [simp]: "g_items (grid_refreshed g) = g_items g"
  by (simp add: g_items_def)

lemma g_items_append:
  assumes "typed_form K g"
  shows "g_items ((snd (g_alloc [v] g))\<lparr>g_data := g_data g @ [g_next g]\<rparr>) = g_items g @ [v]"
  using assms by (auto simp: g_items_def g_alloc_def typed_form_def)

text \<open>The pages of the create form: what the user does to the grid, and submissions in between.\<close>

inductive form_reach :: "env \<Rightarrow> grid \<Rightarrow> bool" for E where
  fresh: "form_reach E (snd create_grid)"
| on_grid: "form_reach E g \<Longrightarrow> offered g e \<Longrightarrow> form_reach E (snd (grid_fire E e g))"
| submitted: "form_reach E g \<Longrightarrow> form_reach E (snd (submit g))"

lemma form_reach_typed: "form_reach E g \<Longrightarrow> typed_form is_key g"
  by (induction rule: form_reach.induct) (simp_all add: create_grid_typed event_typed submit_typed)

section \<open>Properties\<close>

text \<open>
  C4. Whatever the user does on the create form, with submissions in between, every column in the array
  has a name that is not empty, one of the ten type codes, and marks that are true or false (0 or 1 for
  the key once submitted); no event the grid offers and no submission ends in an exception.
\<close>

theorem form_columns_typed:
  assumes "form_reach E g"
  shows "list_all (schema_column is_key) (g_items g) \<and> (offered g e \<longrightarrow> fst (grid_fire E e g) = None) \<and>
    fst (submit g) = None"
  using form_reach_typed [OF assms] event_typed [of is_key g e E] submit_typed
  by (auto simp: typed_form_def g_items_def list_all_iff)

lemma split_columns_items:
  assumes "distinct (g_data g)" and "split_refs (g_heap g) (g_data g) [] 0 = (e, hp, data, rx)"
  shows "split_columns (g_items g) [] 0 = (e, map hp data, map hp rx)"
  using split_refs_values [of "g_data g" "[]" "g_heap g" 0] assms by (simp add: g_items_def)

text \<open>
  C5. The submit handler of the create page, run on the array of the grid, leaves in the array exactly
  the columns that the loop on the shared objects leaves there, and raises no exception, for every array
  the user can build.
\<close>

theorem submit_refines_page:
  assumes "form_reach E g" and "blocked s = None" and "scope s ''data'' = JArr (g_items g)"
    and "vals s ''rangeKeys'' = Some (JStr k)"
  shows "scope (run s [Click createDataBaseTable]) ''data'' = JArr (g_items (snd (submit g))) \<and>
    errs (run s [Click createDataBaseTable]) = errs s"
proof -
  have d: "distinct (g_data g)" using form_reach_typed [OF assms(1)] by (simp add: typed_form_def)
  have ex: "fst (submit g) = None" using submit_typed form_reach_typed [OF assms(1)] by blast
  obtain e hp data rx where sr: "split_refs (g_heap g) (g_data g) [] 0 = (e, hp, data, rx)"
    by (metis prod_cases4)
  note sc = split_columns_items [OF d sr]
  obtain p b n where c: "check_columns (Some isIntType) (g_items g) False 0 = Inr (p, b, n) \<or> g_items g = []"
    using ex by (auto simp: submit_def split: sum.splits if_splits prod.splits)
  consider (stop) "g_items g = [] \<or> \<not> p \<or> \<not> b \<or> n > 1"
    | (loop) "g_items g \<noteq> []" "p" "b" "n \<le> 1" by linarith
  then show ?thesis
  proof cases
    case stop
    then show ?thesis
      using assms(2,3) c
      by (auto simp: submit_def createDataBaseTable_def validate_columns_def swal1_def do_effect_def)
  next
    case loop
    have it: "g_items (snd (submit g)) = map hp data"
      using loop c by (simp add: submit_def sr g_items_def)
    have ne: "e \<noteq> Failed er" for er using ex loop c by (auto simp: submit_def sr split: loop_end.splits)
    show ?thesis
      using loop c assms(2-4) ne sc it
      by (cases e) (auto simp: createDataBaseTable_def validate_columns_def swal1_def do_effect_def
          trimmed_keys_def ask_confirm_def)
  qed
qed

text \<open>
  C18. The insert button of the create form appends the column the insert row describes to the array and
  clears the row when a name is given, and refuses otherwise. The marks are never compared: a column
  marked both as a primary key and as a dynamic column is accepted, although the insertion has a guard
  against it.
\<close>

theorem insert_column:
  assumes "form_reach E g"
  shows "\<exists>n i u p a r. i < length dataTypes \<and> g_insertRow g = form_controls n i u p a r \<and>
    g_items (snd (grid_fire E PressInsert g)) = (if n = [] then g_items g
      else g_items g @ [JObj (form_item n (snd (dataTypes ! i)) u p a r)]) \<and>
    g_insertRow (snd (grid_fire E PressInsert g)) =
      (if n = [] then g_insertRow g else form_controls [] 0 False False False False)"
proof -
  have t: "typed_form is_key g" by (rule form_reach_typed [OF assms])
  then obtain n i u p a r where c: "g_insertRow g = form_controls n i u p a r" "i < length dataTypes"
    by (auto simp: typed_form_def elim: filledE)
  have "insert_click g = (if n = [] then (None, invalidNotify [message Required] g)
     else (None, grid_refreshed ((grid_refreshed ((snd (g_alloc [JObj (form_item n (snd (dataTypes ! i)) u p a r)] g))
        \<lparr>g_data := g_data g @ [g_next g]\<rparr>))\<lparr>g_insertRow := form_controls [] 0 False False False False\<rparr>)))"
    by (rule insert_click_form [OF t c]) simp
  then show ?thesis
    using c g_items_append [OF t]
    by (intro exI [of _ n] exI [of _ i] exI [of _ u] exI [of _ p] exI [of _ a] exI [of _ r])
       (simp add: invalidNotify_def g_alert_def g_items_def)
qed

text \<open>Clicking a row of the create form that is in step with its array.\<close>

lemma row_click_form:
  assumes "sorts E" and "grid_reach E (snd create_grid) g" and "row_visible g i"
  defines "v \<equiv> g_heap g (g_data g ! i)"
  obtains cs n j u p a r where "cs = form_controls n j u p a r" "j < length dataTypes"
    "row_click i g = (None, g\<lparr>g_editRow := Some (i, cs)\<rparr>)" "n \<noteq> []"
    "extend_item v (JObj (form_item n (snd (dataTypes ! j)) u p a r)) = v"
proof -
  have ok: "grid_ok g" and t: "typed_form is_flag g" using reach_ok reach_typed assms by blast+
  have i: "i < length (g_rows g)" using assms(3) by (simp add: row_visible_def)
  have a: "r_item (g_rows g ! i) = g_data g ! i"
    using row_item(1) [OF ok i] displayed_all [OF reach_options(4) [OF assms(2)]] by simp
  have sc: "schema_column is_flag v" using typed_row(2) [OF t i] by (simp add: a v_def)
  obtain n j u b r where e: "createEditRow v create_fields =
      Some (form_controls n j u (truthy (prop_of v ''primary_key'')) b r)" "j < length dataTypes"
    and pr: "prop_of v ''name'' = JStr n" "prop_of v ''data_type'' = JNum (snd (dataTypes ! j))"
      "prop_of v ''unsigned'' = JBool u" "prop_of v ''auto_increment'' = JBool b" "prop_of v ''regxs'' = JBool r"
    and n: "n \<noteq> []"
    by (rule edit_row_of_column [OF sc])
  obtain fs where fs: "v = JObj fs" by (rule schema_columnE [OF sc])
  obtain p where p: "prop_of v ''primary_key'' = JBool p"
    using sc by (auto simp: schema_column_def elim: is_flag.elims)
  have "extend_item v (JObj (form_item n (snd (dataTypes ! j)) u p b r)) = v"
    using pr p unfolding fs by (simp add: extend_form_item put_same prop_of_SomeD)
  moreover have "row_click i g = (None, g\<lparr>g_editRow := Some (i, form_controls n j u p b r)\<rparr>)"
    using e(1) p reach_options [OF assms(2)] by (simp add: row_click_def a v_def cancelEdit_def)
  ultimately show thesis using that e(2) n by blast
qed



lemma splice_at_last: "splice_at (- 1) xs = butlast xs"
  by (cases "xs = []") (auto simp: splice_at_def splice1_def butlast_conv_take nat_diff_distrib')

text \<open>
  C34. A submission takes the dynamic columns out of the array but not off the screen. When the user then
  deletes the row of such a column, the grid does not find it in the array and deletes the last column of
  the array instead.
\<close>

theorem stale_row_deletes_last:
  assumes "sorts E" and "grid_reach E (snd create_grid) g" and "row_visible g i"
    and "g' = snd (submit g)" and "g_data g ! i \<notin> set (g_data g')"
    and "\<not> truthy (prop_of (g_heap g' (g_data g ! i)) ''primary_key'')"
  shows "offered g' (PressDelete i yes) \<and>
    g_items (snd (grid_fire E (PressDelete i yes) g')) = butlast (g_items g')"
proof -
  have ok: "grid_ok g" using reach_ok assms(1,2) by blast
  have t: "typed_form is_key g" using assms(2)
    by (induction rule: grid_reach.induct) (simp_all add: create_grid_typed event_typed)
  have t': "typed_form is_key g'" using submit_typed [OF t] assms(4) by simp
  have i: "i < length (g_rows g)" using assms(3) by (simp add: row_visible_def)
  have dd: "displayed g = g_data g" by (rule displayed_all [OF reach_options(4) [OF assms(2)]])
  have same: "g_rows g' = g_rows g" "g_editRow g' = g_editRow g" "g_confirmDeleting g' = g_confirmDeleting g"
    unfolding assms(4) submit_def by (auto split: sum.split prod.split)
  let ?a = "g_data g ! i"
  have a: "r_item (g_rows g ! i) = ?a" using row_item(1) [OF ok i] dd by simp
  then have shown: "?a \<in> r_item ` set (g_rows g')" using nth_mem [OF i] same by force
  have ix: "itemIndex g' ?a = - 1" using assms(5) by (simp add: itemIndex_def first_index_notin)
  have "is_key (prop_of (g_heap g' ?a) ''primary_key'')"
    using typed_row(2) [OF t', of i] i by (simp add: same a schema_column_def)
  with assms(6) have key: "\<not> js_eq (prop_of (g_heap g' ?a) ''primary_key'') (JNum 1)"
    by (cases "prop_of (g_heap g' ?a) ''primary_key''") (auto simp: js_eq.simps nullish_def num_eq_def)
  have "typed_form is_key (resetPager (resetSorting (g'\<lparr>g_data := butlast (g_data g')\<rparr>)))"
    using typed_data [OF t', of "butlast (g_data g')"] t'
    by (auto simp: resetPager_def resetSorting_def setPage_def Let_def distinct_butlast typed_form_def
        dest: in_set_butlastD)
  from typed_refresh(1) [OF this] have "g_items (snd (finishDelete (- 1) g')) = butlast (g_items g')"
    by (simp add: finishDelete_def reset_def splice_at_last g_items_def resetPager_def resetSorting_def
        setPage_def Let_def map_butlast)
  then show ?thesis
    using assms(3) key shown reach_options(3) [OF assms(2)]
    by (simp add: row_visible_def same a deleteItem_def ix)
qed

section \<open>Concrete columns\<close>

lemma type_step:
  assumes "grid_reach E g0 (g\<lparr>g_insertRow := cs\<rparr>)" and "g_fields g = create_fields" and "g_inserting g"
    and "j < 6" and "fits (f_type (create_fields ! j)) c"
  shows "grid_reach E g0 (g\<lparr>g_insertRow := cs[j := c]\<rparr>)"
proof -
  from assms(4) have "j = 0 \<or> j = 1 \<or> j = 2 \<or> j = 3 \<or> j = 4 \<or> j = 5" by linarith
  then have "j < length create_fields" "f_visible (create_fields ! j)" "f_inserting (create_fields ! j)"
    by (auto simp: create_fields_def numeral_nat)
  then have "offered (g\<lparr>g_insertRow := cs\<rparr>) (TypeInsert j c)" using assms by simp
  from grid_reach.event [OF assms(1) this] show ?thesis by simp
qed

text \<open>Every column can be entered: the controls one after the other, then the insert button.\<close>

lemma enter_column:
  assumes "grid_reach E (snd create_grid) g" and "g_insertRow g = form_controls [] 0 False False False False"
    and "n \<noteq> []" and "i < length dataTypes"
  shows "\<exists>h. grid_reach E (snd create_grid) h \<and> g_insertRow h = form_controls [] 0 False False False False \<and>
    g_items h = g_items g @ [JObj (form_item n (snd (dataTypes ! i)) u p a r)] \<and> g_editRow h = None"
proof -
  note f = reach_options(5,2) [OF assms(1)]
  have "grid_reach E (snd create_grid) (g\<lparr>g_insertRow := form_controls [] 0 False False False False\<rparr>)"
    using assms(1,2) by (metis grid.surjective grid.update_convs(18))
  from type_step [OF this f, of 0 "TextBox n"]
  have "grid_reach E (snd create_grid) (g\<lparr>g_insertRow := form_controls n 0 False False False False\<rparr>)"
    by (simp add: form_controls_def create_fields_def)
  from type_step [OF this f, of 1 "SelectBox (Some i)"] assms(4)
  have "grid_reach E (snd create_grid) (g\<lparr>g_insertRow := form_controls n i False False False False\<rparr>)"
    by (simp add: form_controls_def create_fields_def)
  from type_step [OF this f, of 2 "CheckBox u"]
  have "grid_reach E (snd create_grid) (g\<lparr>g_insertRow := form_controls n i u False False False\<rparr>)"
    by (simp add: form_controls_def create_fields_def)
  from type_step [OF this f, of 3 "CheckBox p"]
  have "grid_reach E (snd create_grid) (g\<lparr>g_insertRow := form_controls n i u p False False\<rparr>)"
    by (simp add: form_controls_def create_fields_def numeral_nat)
  from type_step [OF this f, of 4 "CheckBox a"]
  have "grid_reach E (snd create_grid) (g\<lparr>g_insertRow := form_controls n i u p a False\<rparr>)"
    by (simp add: form_controls_def create_fields_def numeral_nat)
  from type_step [OF this f, of 5 "CheckBox r"]
  have full: "grid_reach E (snd create_grid) (g\<lparr>g_insertRow := form_controls n i u p a r\<rparr>)" (is "grid_reach _ _ ?g")
    by (simp add: form_controls_def create_fields_def numeral_nat)
  have t: "typed_form is_flag ?g" by (rule reach_typed [OF full])
  let ?h = "snd (grid_fire E PressInsert ?g)"
  have "grid_reach E (snd create_grid) ?h" using f(2) by (intro grid_reach.event [OF full]) simp
  moreover have "insert_click ?g = (None, grid_refreshed ((grid_refreshed
      ((snd (g_alloc [JObj (form_item n (snd (dataTypes ! i)) u p a r)] ?g))\<lparr>g_data := g_data ?g @ [g_next ?g]\<rparr>))
        \<lparr>g_insertRow := form_controls [] 0 False False False False\<rparr>))"
    using insert_click_form [OF t _ assms(4), of n u p a r] assms(3) by simp
  ultimately show ?thesis
    using g_items_append [OF t, of "JObj (form_item n (snd (dataTypes ! i)) u p a r)"]
    by (intro exI [of _ ?h]) (simp add: g_items_def)
qed

text \<open>A form with a key, a dynamic column and a plain column.\<close>

definition demo_columns :: "jsval list" where
  "demo_columns = [JObj (form_item ''id'' 4 False True False False), JObj (form_item ''d'' 7 False False False True),
     JObj (form_item ''v'' 7 False False False False)]"

lemma demo_form_grid:
  obtains g where "grid_reach demo_env (snd create_grid) g" "g_items g = demo_columns" "g_editRow g = None"
    "g_insertRow g = form_controls [] 0 False False False False"
proof -
  let ?blank = "form_controls [] 0 False False False False"
  have blank: "g_insertRow (snd create_grid) = ?blank" "g_items (snd create_grid) = []"
    by (simp_all add: create_grid_def jsGrid_def renderGrid_def createInsertRow_form new_grid_def grid_refresh_def
        refreshContent_def cancelEdit_def displayed_def refreshPager_def g_items_def)
  have codes: "3 < length dataTypes" "6 < length dataTypes" "snd (dataTypes ! 3) = 4" "snd (dataTypes ! 6) = 7"
    by (simp_all add: dataTypes_def)
  obtain g1 where g1: "grid_reach demo_env (snd create_grid) g1" "g_insertRow g1 = ?blank"
      "g_items g1 = [JObj (form_item ''id'' 4 False True False False)]"
    using enter_column [OF grid_reach.start blank(1) _ codes(1), where n = "''id''" and u = False and p = True
        and a = False and r = False and E = demo_env]
    by (auto simp: blank codes)
  obtain g2 where g2: "grid_reach demo_env (snd create_grid) g2" "g_insertRow g2 = ?blank"
      "g_items g2 = g_items g1 @ [JObj (form_item ''d'' 7 False False False True)]"
    using enter_column [OF g1(1,2) _ codes(2), of "''d''" False False False True] by (auto simp: codes)
  obtain g3 where "grid_reach demo_env (snd create_grid) g3" "g_insertRow g3 = ?blank"
      "g_items g3 = g_items g2 @ [JObj (form_item ''v'' 7 False False False False)]" "g_editRow g3 = None"
    using enter_column [OF g2(1,2) _ codes(2), of "''v''" False False False False] by (auto simp: codes)
  then show thesis by (intro that [of g3]) (simp_all add: demo_columns_def g1 g2)
qed

lemma reach_form: "grid_reach E (snd create_grid) g \<Longrightarrow> form_reach E g"
  by (induction rule: grid_reach.induct) (auto intro: form_reach.intros)

text \<open>The references of the three columns, and what a submission leaves.\<close>

lemma demo_submit:
  assumes "grid_reach demo_env (snd create_grid) g" and "g_items g = demo_columns"
  obtains a b c where "g_data g = [a, b, c]" "distinct [a, b, c]" "g_data (snd (submit g)) = [a, c]"
    "g_heap (snd (submit g)) b = normalise (demo_columns ! 1)"
    "g_items (snd (submit g)) = [normalise (demo_columns ! 0), demo_columns ! 2]"
proof -
  have "length (g_data g) = 3" using assms(2) by (metis demo_columns_def g_items_def length_map length_Cons list.size(3) numeral_3_eq_3)
  then obtain a b c where d: "g_data g = [a, b, c]" by (auto simp: length_Suc_conv numeral_3_eq_3)
  have dist: "distinct [a, b, c]" using reach_typed [OF assms(1)] d by (simp add: typed_form_def)
  have hp: "g_heap g a = demo_columns ! 0" "g_heap g b = demo_columns ! 1" "g_heap g c = demo_columns ! 2"
    using assms(2) by (simp_all add: g_items_def d demo_columns_def)
  have names: "good_name (demo_columns ! 0)" "good_name (demo_columns ! 1)" "good_name (demo_columns ! 2)"
    by (simp_all add: good_name_def demo_columns_def form_item_def)
  have dyn: "\<not> is_dynamic (normalise (demo_columns ! 0))" "is_dynamic (normalise (demo_columns ! 1))"
    by (simp_all add: is_dynamic_def normalise_def demo_columns_def form_item_def js_eq.simps nullish_def num_eq_def)
  have chk: "check_columns (Some isIntType) demo_columns False 0 = Inr (True, True, 0)"
    by (simp add: demo_columns_def form_item_def)
  let ?h1 = "(g_heap g)(a := normalise (demo_columns ! 0))"
  let ?h2 = "?h1(b := normalise (demo_columns ! 1))"
  have "split_refs (g_heap g) [a, b, c] [] 0 = split_refs ?h1 [a, b, c] [] 1"
    using split_refs_round [of 0 "[a, b, c]" "g_heap g" "[]"] names(1) dyn(1) by (simp add: hp)
  also have "\<dots> = split_refs ?h2 [a, c] [b] (Suc (Suc 0))"
    using split_refs_round [of 1 "[a, b, c]" ?h1 "[]"] names(2) dyn(2) dist by (simp add: hp)
  also have "\<dots> = (Finished, ?h2, [a, c], [b])" by (simp add: split_refs.simps)
  finally have "snd (submit g) = g\<lparr>g_heap := ?h2, g_data := [a, c]\<rparr>"
    using assms(2) chk by (simp add: submit_def d) (simp add: demo_columns_def)
  with d dist hp(3) show thesis by (intro that [of a b c]) (simp_all add: g_items_def)
qed

theorem form_columns_typed_witness:
  "\<exists>g. form_reach demo_env g \<and> g_items g = demo_columns \<and> list_all (schema_column is_key) (g_items g) \<and>
     offered g PressInsert \<and> fst (grid_fire demo_env PressInsert g) = None \<and> fst (submit g) = None"
proof (rule demo_form_grid)
  fix g
  assume g: "grid_reach demo_env (snd create_grid) g" "g_items g = demo_columns"
  have "offered g PressInsert" using reach_options(2) [OF g(1)] by simp
  with form_columns_typed [OF reach_form [OF g(1)], of PressInsert] reach_form [OF g(1)] g(2)
  show ?thesis by (intro exI [of _ g]) simp
qed

theorem submit_refines_page_witness:
  "scope (run (demo_form demo_columns) [Click createDataBaseTable]) ''data'' =
     JArr [normalise (demo_columns ! 0), demo_columns ! 2]"
proof (rule demo_form_grid)
  fix g
  assume g: "grid_reach demo_env (snd create_grid) g" "g_items g = demo_columns"
  have "g_items (snd (submit g)) = [normalise (demo_columns ! 0), demo_columns ! 2]"
    by (rule demo_submit [OF g])
  with submit_refines_page [OF reach_form [OF g(1)], of "demo_form demo_columns" "'' a ''"] g(2)
  show ?thesis by (simp add: demo_form_def empty_sys_def)
qed

theorem insert_column_witness:
  "\<exists>g. form_reach demo_env g \<and> g_insertRow g = form_controls ''k'' 0 False True False True \<and>
     g_items (snd (grid_fire demo_env PressInsert g)) =
       g_items g @ [JObj (form_item ''k'' 1 False True False True)]"
proof (rule demo_form_grid)
  fix g
  assume g: "grid_reach demo_env (snd create_grid) g"
      and b: "g_insertRow g = form_controls [] 0 False False False False"
  note f = reach_options(5,2) [OF g]
  have "g\<lparr>g_insertRow := form_controls [] 0 False False False False\<rparr> = g" using b by simp
  then have r: "grid_reach demo_env (snd create_grid) (g\<lparr>g_insertRow := form_controls [] 0 False False False False\<rparr>)"
    using g by simp
  let ?h = "g\<lparr>g_insertRow := form_controls ''k'' 0 False True False True\<rparr>"
  have "grid_reach demo_env (snd create_grid) ?h"
    using type_step [OF type_step [OF type_step [OF r f, of 0 "TextBox ''k''"] f, of 3 "CheckBox True"] f,
        of 5 "CheckBox True"]
    by (simp add: form_controls_def create_fields_def numeral_nat)
  note h = reach_form [OF this]
  have "snd (dataTypes ! 0) = 1" by (simp add: dataTypes_def)
  with insert_column [OF h] h show ?thesis
    by (intro exI [of _ ?h]) (auto simp: form_controls_def)
qed

lemma demo_row_visible:
  assumes "grid_reach demo_env (snd create_grid) g" and "g_items g = demo_columns" and "g_editRow g = None"
    and "i < 3"
  shows "row_visible g i"
proof -
  have "g_rows g = map (draw g) (g_data g)"
    using reach_ok [OF demo_sorts assms(1)] displayed_all [OF reach_options(4) [OF assms(1)]]
    by (simp add: grid_ok_def)
  moreover have "length (g_data g) = length demo_columns" using assms(2) by (metis g_items_def length_map)
  ultimately show ?thesis using assms(3,4) by (simp add: row_visible_def demo_columns_def)
qed



theorem stale_row_deletes_last_witness:
  "\<exists>g. grid_reach demo_env (snd create_grid) g \<and> g_items g = demo_columns \<and>
     g_items (snd (grid_fire demo_env (PressDelete 1 True) (snd (submit g)))) = [normalise (demo_columns ! 0)]"
proof (rule demo_form_grid)
  fix g
  assume g: "grid_reach demo_env (snd create_grid) g" "g_items g = demo_columns" "g_editRow g = None"
  obtain a b c where d: "g_data g = [a, b, c]" "distinct [a, b, c]" "g_data (snd (submit g)) = [a, c]"
      "g_heap (snd (submit g)) b = normalise (demo_columns ! 1)"
      "g_items (snd (submit g)) = [normalise (demo_columns ! 0), demo_columns ! 2]"
    by (rule demo_submit [OF g(1,2)])
  have "\<not> truthy (prop_of (normalise (demo_columns ! 1)) ''primary_key'')"
    by (simp add: demo_columns_def form_item_def normalise_def prop_of_def)
  with stale_row_deletes_last [OF demo_sorts g(1) demo_row_visible [OF g, of 1] refl, of True] d g(1,2)
  show ?thesis by (intro exI [of _ g]) simp
qed

section \<open>The edit form\<close>

text \<open>What an event does to the objects: nothing, or a new one, or the edited item merged into one.\<close>

lemma heap_refresh [simp]: "g_heap (snd (grid_refresh g)) = g_heap g" "g_next (snd (grid_refresh g)) = g_next g"
    "g_data (snd (grid_refresh g)) = g_data g" "g_editRow (snd (grid_refresh g)) = None"
    "g_paging (snd (grid_refresh g)) = g_paging g"
  by (simp_all add: grid_refresh_def refreshContent_def refreshPager_def cancelEdit_def
      split: prod.split option.split)

lemma heap_openPage [simp]: "g_heap (snd (openPage p g)) = g_heap g" "g_next (snd (openPage p g)) = g_next g"
  by (simp_all add: openPage_def setPage_def Let_def)

lemma heap_pager_click [simp]:
  "g_heap (snd (pager_click x g)) = g_heap g" "g_next (snd (pager_click x g)) = g_next g"
  by (cases x; simp add: showPrevPages_def showNextPages_def refreshPager_def)+

lemma heap_quiet:
  assumes "e \<noteq> PressInsert" and "e \<noteq> PressUpdate"
  shows "g_heap (snd (grid_fire E e g)) = g_heap g \<and> g_next (snd (grid_fire E e g)) = g_next g"
proof (cases e)
  case (ClickHeader i)
  then show ?thesis
    by (auto simp: sort_click_def sortData_def setSortingParams_def Let_def split: option.split)
qed (use assms in \<open>auto simp: row_click_def cancelEdit_def deleteItem_def finishDelete_def reset_def
      resetPager_def resetSorting_def setPage_def g_alert_def Let_def split: option.split\<close>)

lemma heap_insert:
  assumes "grid_ok g" and "a < g_next g"
  shows "g_heap (snd (insert_click g)) a = g_heap g a" and "g_next g \<le> g_next (snd (insert_click g))"
proof -
  have "g_heap (snd (insert_click g)) a = g_heap g a \<and> g_next g \<le> g_next (snd (insert_click g))"
    using grid_okD [OF assms(1)]
  proof (cases rule: insert_click_cases)
    case valid
    then show ?thesis
      using finishInsert_eq [OF grid_okD [OF assms(1)] getInsertItem_obj [of g]] assms(2)
      by (simp add: clearInsert_def g_alloc_def)
  qed (simp add: g_alert_def)
  then show "g_heap (snd (insert_click g)) a = g_heap g a" "g_next g \<le> g_next (snd (insert_click g))" by simp_all
qed

lemma read_controls_off: "list_all (\<lambda>f. \<not> on f) fs \<Longrightarrow> read_controls on fs cs item = item"
  by (induction on fs cs item rule: read_controls.induct) auto

lemma edited_item_edit_form:
  assumes "length cs = length edit_fields"
  shows "\<exists>s. read_controls f_editing edit_fields cs (JObj []) = JObj [(''name'', JStr s)]"
proof -
  obtain c cs' where cs: "cs = c # cs'" using assms by (cases cs) (auto simp: edit_fields_def)
  have "read_controls f_editing edit_fields cs (JObj []) = JObj [(''name'', control_value TextField c)]"
    by (simp add: edit_fields_def cs setItemFieldValue_def read_controls_off)
  moreover have "\<exists>s. control_value TextField c = JStr s" by (cases c) auto
  ultimately show ?thesis by auto
qed

lemma heap_update_name:
  assumes "grid_ok g" and "g_fields g = edit_fields" and "g_editRow g \<noteq> None" and "k \<noteq> ''name''"
  shows "prop_of (g_heap (snd (updateItem g)) a) k = prop_of (g_heap g a) k"
    and "g_next (snd (updateItem g)) = g_next g"
proof -
  obtain i cs where e: "g_editRow g = Some (i, cs)" using assms(3) by auto
  then have i: "i < length (g_rows g)" and l: "length cs = length edit_fields"
    using assms(1,2) unfolding grid_ok_def by simp_all
  obtain s where s: "read_controls f_editing edit_fields cs (JObj []) = JObj [(''name'', JStr s)]"
    using edited_item_edit_form [OF l] by blast
  have ext: "prop_of (extend_item v (JObj [(''name'', JStr s)])) k = prop_of v k" for v
    using assms(4) by (cases v) (simp_all add: prop_of_put)
  have "prop_of (g_heap (snd (updateItem g)) a) k = prop_of (g_heap g a) k \<and>
      g_next (snd (updateItem g)) = g_next g"
    by (rule validateItem_total [of g "JObj [(''name'', JStr s)]" f_editing])
       (use assms(2) e s ext updateRow_eq [OF assms(1) i] in
         \<open>simp_all add: updateItem_def getEditedItem_def g_alert_def Let_def\<close>)
  then show "prop_of (g_heap (snd (updateItem g)) a) k = prop_of (g_heap g a) k"
      "g_next (snd (updateItem g)) = g_next g" by simp_all
qed

lemma edit_grid_ok: "list_all is_obj columns \<Longrightarrow> grid_ok (snd (edit_grid columns))"
  unfolding edit_grid_def jsGrid_configured using renderGrid_ok [of edit_fields] by simp

lemma edit_grid_heap:
  "i < length columns \<Longrightarrow> g_heap (snd (edit_grid columns)) i = columns ! i"
  "g_next (snd (edit_grid columns)) = length columns"
  by (simp_all add: edit_grid_def jsGrid_def renderGrid_def new_grid_def)

lemma edit_grid_fields:
  assumes "grid_reach E (snd (edit_grid columns)) g"
  shows "g_fields g = edit_fields"
proof -
  have "options g = options (new_grid True True edit_fields columns)"
    using options_reach [OF assms] by (simp add: edit_grid_def jsGrid_def renderGrid_def)
  then show ?thesis by (simp add: options_def new_grid_def)
qed



end
