(* ===== verification/UserPages.thy ===== *)
theory UserPages
  imports Utils
begin

text \<open>
  The pages of the console's users: roles (\<open>user/roleinfo.js\<close>), privileges
  (\<open>user/userprivilege.js\<close>) and user accounts (\<open>user/userinfo.js\<close>).
\<close>

section \<open>roleinfo.js\<close>

definition role_table :: prog where
  "role_table = Do (TableInit ''exampleTableEvents'' \<lparr>t_data = JUndef, t_url = ''/userInfo/getRoleList'',
     t_columns = []\<rparr>) Done"

definition showAddUserModal :: prog where
  "showAddUserModal = Do (ModalShow ''userAddDetail'') Done"

definition addRole :: prog where
  "addRole = Ask (QVal ''roleId'') (\<lambda>roleId. Ask (QVal ''roleName'') (\<lambda>roleName.
     Ajax (form_post ''/userInfo/addRole'' [(''roleId'', roleId), (''roleName'', roleName)])
       (\<lambda>data. if_code0 data
          (Do (ModalHide ''userAddDetail'') (Do (TableRefresh ''exampleTableEvents'' ''/userInfo/getRoleList'') Done))
          (read_prop data ''msg'' (\<lambda>m. Do (Alert m) Done)))
       (\<lambda>_. Done) Done))"

text \<open>The reply to a role deletion is tested with \<open>==\<close>, and a refusal of the server is not shown.\<close>

definition delRoles :: prog where
  "delRoles = Ask (QSelections ''exampleTableEvents'') (\<lambda>sel. push_props ''role_id'' (elems sel) (\<lambda>ids.
     ask_confirm ''delete roles'' [] ''warning''
       (Ajax (form_post_sync ''/userInfo/delRole'' [(''roleIds'', JStr (json_str (JArr ids)))])
          (\<lambda>data. read_prop data ''code'' (\<lambda>c. if js_eq c (JNum 0)
             then swal3 ''deleted'' (JStr ''deleted'') ''success''
               (Do (TableRefresh ''exampleTableEvents'' ''/userInfo/getRoleList'') Done)
             else Done))
          (show_failure ''operation failed'') Done)
       Done))"

section \<open>userprivilege.js\<close>

text \<open>The cell text of a role code, \<open>undefined\<close> for any other value.\<close>

definition role_text :: "jsval \<Rightarrow> jsval" where
  "role_text cellValue =
     (if js_eq cellValue (JNum 1) then JStr ''system administrator''
      else if js_eq cellValue (JNum 2) then JStr ''cluster administrator''
      else if js_eq cellValue (JNum 3) then JStr ''ordinary user''
      else JUndef)"

definition privilege_table :: prog where
  "privilege_table = Do (TableInit ''exampleTableEvents'' \<lparr>t_data = JUndef,
     t_url = ''/userInfo/getPrivilegeList'',
     t_columns = [(''state'', ''checkbox''), (''user_name'', ''user''), (''cluster_id'', ''cluster''),
       (''privilege'', ''role'')]\<rparr>) Done"

definition first_row :: "jsval \<Rightarrow> jsval" where
  "first_row sel = (case elems sel of [] \<Rightarrow> JUndef | r # _ \<Rightarrow> r)"

definition privilege_showUserModal :: "string \<Rightarrow> prog" where
  "privilege_showUserModal type =
     (if type = ''add'' then
        Do (SetVal ''erp'' (JStr [])) (Do (SetVal ''clusterName'' (JStr []))
        (Do (RemoveAttr ''erp'' ''readonly'') (Do (ModalShow ''userEditDetail'') Done)))
      else if type = ''edit'' then
        Do (SetAttr ''erp'' ''readonly'' (JStr ''readonly''))
        (Ask (QSelections ''exampleTableEvents'') (\<lambda>sel. let row = first_row sel in
          if row \<noteq> JUndef then
            Do (ModalShow ''userEditDetail'')
            (read_prop row ''user_name'' (\<lambda>u. Do (SetVal ''erp'' u)
            (read_prop row ''cluster_id'' (\<lambda>c. Do (SetVal ''clusterId'' c)
            (read_prop row ''privilege'' (\<lambda>p. Do (SetVal ''roleName'' p) Done))))))
          else Do (Alert (JStr ''please choose a record'')) Done))
      else Done)"

definition privilege_roleChange :: prog where
  "privilege_roleChange = Ask (QVal ''roleName'') (\<lambda>roleId.
     if js_eq roleId (JNum 1) then Do (SetVal ''clusterId'' (JStr ''0'')) Done else Done)"

definition saveUserPrivilege :: prog where
  "saveUserPrivilege = Ask (QVal ''erp'') (\<lambda>erp. Ask (QVal ''clusterId'') (\<lambda>clusterId.
     Ask (QVal ''roleName'') (\<lambda>roleId.
     Ajax (form_post_sync ''/userInfo/updatePrivilege''
         [(''userName'', erp), (''roleId'', roleId), (''clusterId'', clusterId)])
       (\<lambda>data. if_code0 data
          (swal3 ''set'' (JStr ''set'') ''success'' (Do (ModalHide ''userEditDetail'')
            (Do (TableRefresh ''exampleTableEvents'' ''/userInfo/getPrivilegeList'') Done)))
          Done)
       (show_failure ''set failed'') Done)))"

text \<open>The loop that builds one object of user and cluster per selected row.\<close>

fun push_privileges :: "jsval list \<Rightarrow> (jsval list \<Rightarrow> prog) \<Rightarrow> prog" where
  "push_privileges [] k = k []"
| "push_privileges (r # rs) k =
     read_prop r ''user_name'' (\<lambda>u. read_prop r ''cluster_id'' (\<lambda>c.
       push_privileges rs (\<lambda>ps. k (JObj [(''user_name'', u), (''cluster_id'', c)] # ps))))"

definition delPrivileges :: prog where
  "delPrivileges = Ask (QSelections ''exampleTableEvents'') (\<lambda>sel. push_privileges (elems sel) (\<lambda>privileges.
     ask_confirm ''delete users'' [] ''warning''
       (Ajax (form_post_sync ''/userInfo/delPrivileges''
            [(''privileges'', JStr (json_str (JArr privileges)))])
          (\<lambda>data. if_code0 data
             (swal3 ''deleted'' (JStr ''deleted'') ''success''
               (Do (TableRefresh ''exampleTableEvents'' ''/userInfo/getPrivilegeList'') Done))
             Done)
          (show_failure ''operation failed'') Done)
       Done))"

section \<open>userinfo.js\<close>

definition showFormatDate :: "int \<Rightarrow> int \<Rightarrow> string" where
  "showFormatDate tz cellValue = utils_formatDate (date_of tz cellValue) ''yyyy-MM-dd hh:mm:ss''"

definition user_table :: prog where
  "user_table = Do (TableInit ''exampleTableEvents'' \<lparr>t_data = JUndef, t_url = ''/userInfo/getUserList'',
     t_columns = [(''state'', ''checkbox''), (''id'', ''ID''), (''userName'', ''user''), (''erp'', ''ERP''),
       (''mail'', ''mail''), (''createTime'', ''created''), (''userAuthority.rid'', ''role''),
       (''userAuthority.cid'', ''cluster'')]\<rparr>) Done"

definition user_showUserModal :: "string \<Rightarrow> prog" where
  "user_showUserModal type =
     (if type = ''add'' then Do (ModalShow ''userAddDetail'') Done
      else if type = ''edit'' then
        Ask (QSelections ''exampleTableEvents'') (\<lambda>sel. let row = first_row sel in
          if row \<noteq> JUndef then
            Do (ModalShow ''userEditDetail'')
            (read_prop row ''erp'' (\<lambda>e. Do (SetVal ''erp'' e)
            (Do (SetVal ''clusterName'' (JStr ''1,2,3''))
            (Ask (QFirstOption ''roleName'') (\<lambda>v.
               if nullish v then Throw (TypeError ''selected'') else Do (SetVal ''roleName'' v) Done)))))
          else Do (Alert (JStr ''please choose a user'')) Done)
      else Done)"

definition user_roleChange :: prog where
  "user_roleChange = Ask (QVal ''roleName'') (\<lambda>roleId.
     if js_eq roleId (JNum 1) then Do (SetVal ''clusterName'' (JStr ''all'')) Done else Done)"

text \<open>The test of the account page's callbacks: \<open>data.code === 200\<close>.\<close>

definition if_code200 :: "jsval \<Rightarrow> prog \<Rightarrow> prog \<Rightarrow> prog" where
  "if_code200 v p q = read_prop v ''code'' (\<lambda>c. if js_seq c (JNum 200) then p else q)"

definition saveUserAuthority :: prog where
  "saveUserAuthority = Ask (QSelections ''exampleTableEvents'') (\<lambda>sel. let row = first_row sel in
     if row \<noteq> JUndef then
       Ask (QVal ''clusterName'') (\<lambda>clusterIds. Ask (QVal ''roleName'') (\<lambda>roleId. read_prop row ''id'' (\<lambda>i.
       Ajax (form_post_sync ''/userInfo/addUserAuthority''
           [(''userId'', i), (''roleId'', roleId), (''clusterIds'', clusterIds)])
         (\<lambda>data. if_code200 data
            (swal3 ''set'' (JStr ''set'') ''success'' (Do (ModalHide ''userEditDetail'')
              (Do (TableRefresh ''exampleTableEvents'' ''/userInfo/getUserList'') Done)))
            Done)
         (show_failure ''set failed'') Done)))
     else Done)"

text \<open>\<open>alert(JSON.stringify(v))\<close>, which shows \<open>undefined\<close> for \<open>undefined\<close>.\<close>

definition alert_json :: "jsval \<Rightarrow> prog" where
  "alert_json v = Do (Alert (if v = JUndef then JUndef else JStr (json_str v))) Done"

definition saveUserErps :: prog where
  "saveUserErps = Ask (QVal ''userErpList'') (\<lambda>erps.
     Ajax (form_post ''/userInfo/saveUserErp'' [(''erps'', erps)])
       (\<lambda>data. if_code200 data
          (Do (ModalHide ''userAddDetail'') (Do (TableRefresh ''exampleTableEvents'' ''/userInfo/getUserList'') Done))
          (read_prop data ''attach'' alert_json))
       (\<lambda>_. Done) Done)"

definition delUserErps :: prog where
  "delUserErps = Ask (QSelections ''exampleTableEvents'') (\<lambda>sel. push_ids (elems sel) (\<lambda>ids.
     ask_confirm ''delete users'' [] ''warning''
       (Ajax (form_post_sync ''/userInfo/delUserInfoById'' [(''userIds'', JStr (json_str (JArr ids)))])
          (\<lambda>data. if_code200 data
             (swal3 ''deleted'' (JStr ''deleted'') ''success''
               (Do (TableRemove ''exampleTableEvents'' ''id'' (JArr ids)) Done))
             Done)
          (show_failure ''operation failed'') Done)
       Done))"

section \<open>Confirmation\<close>

definition user_handlers :: "prog set" where
  "user_handlers = set ([role_table, showAddUserModal, addRole, delRoles, privilege_table,
     privilege_roleChange, saveUserPrivilege, delPrivileges, user_table, user_roleChange,
     saveUserAuthority, saveUserErps, delUserErps] @
     map privilege_showUserModal [''add'', ''edit''] @ map user_showUserModal [''add'', ''edit''])"

definition user_changes :: "string list" where
  "user_changes = [''/userInfo/delRole'', ''/userInfo/delPrivileges'', ''/userInfo/delUserInfoById'']"

lemma disciplined_push_privileges [disc_simps]:
  "(\<And>ps. disciplined M (k ps) n) \<Longrightarrow> disciplined M (push_privileges rs k) n"
  by (induction rs arbitrary: k) (auto simp: disc_simps)

lemma disciplined_if_code200 [disc_simps]:
  "disciplined M p n \<Longrightarrow> disciplined M q n \<Longrightarrow> disciplined M (if_code200 v p q) n"
  by (simp add: if_code200_def disciplined_read_prop)

lemmas user_defs = role_table_def showAddUserModal_def addRole_def delRoles_def privilege_table_def
  privilege_roleChange_def saveUserPrivilege_def delPrivileges_def user_table_def user_roleChange_def
  saveUserAuthority_def saveUserErps_def delUserErps_def privilege_showUserModal_def
  user_showUserModal_def alert_json_def

interpretation user_page: confirmed_page user_handlers "to_paths user_changes"
  by unfold_locales (auto simp: user_handlers_def user_defs user_changes_def disc_simps Let_def)

section \<open>Requests and replies\<close>

abbreviation user_rows :: "sys \<Rightarrow> (jsval \<times> bool) list" where
  "user_rows s \<equiv> rows s ''exampleTableEvents''"

definition objects_only :: "(jsval \<times> bool) list \<Rightarrow> bool" where
  "objects_only rs \<longleftrightarrow> list_all (\<lambda>r. \<not> nullish (fst r)) rs"

lemma objects_selected:
  assumes "objects_only rs"
  shows "push_props f (map fst (filter snd rs)) k = k (map (prop_or_undef f) (map fst (filter snd rs)))"
proof -
  have "\<forall>r \<in> set (map fst (filter snd rs)). \<not> nullish r"
    using assms by (auto simp: objects_only_def list_all_iff)
  then show ?thesis by (rule push_props_total)
qed

lemma push_ids_push_props: "push_ids rs k = push_props ''id'' rs k"
  by (induction rs arbitrary: k) simp_all

definition privilege_of :: "jsval \<Rightarrow> jsval" where
  "privilege_of r = JObj [(''user_name'', prop_or_undef ''user_name'' r), (''cluster_id'', prop_or_undef ''cluster_id'' r)]"

lemma push_privileges_total:
  "\<forall>r \<in> set rs. \<not> nullish r \<Longrightarrow> push_privileges rs k = k (map privilege_of rs)"
proof (induction rs arbitrary: k)
  case (Cons r rs)
  then obtain u c where "get_prop r ''user_name'' = Some u" "get_prop r ''cluster_id'' = Some c"
    using get_prop_None_iff [of r] by fastforce
  then show ?case using Cons by (simp add: read_prop_def privilege_of_def prop_or_undef_def)
qed simp

lemma objects_privileges:
  assumes "objects_only rs"
  shows "push_privileges (map fst (filter snd rs)) k = k (map privilege_of (map fst (filter snd rs)))"
proof -
  have "\<forall>r \<in> set (map fst (filter snd rs)). \<not> nullish r"
    using assms by (auto simp: objects_only_def list_all_iff)
  then show ?thesis by (rule push_privileges_total)
qed

text \<open>
  C25. The deletions of roles, privileges and accounts send, once confirmed, one request with what
  identifies the selected rows, in their order, as JSON text: the role ids, the pairs of user and
  cluster, the account ids. Cancelling sends nothing.
\<close>

theorem user_deletions_sent:
  assumes "blocked s = None" and "objects_only (user_rows s)"
    and "(handler, path, key, item) \<in> set
      [(delRoles, ''/userInfo/delRole'', ''roleIds'', prop_or_undef ''role_id''),
       (delPrivileges, ''/userInfo/delPrivileges'', ''privileges'', privilege_of),
       (delUserErps, ''/userInfo/delUserInfoById'', ''userIds'', prop_or_undef ''id'')]"
  shows "sent (run s [Click handler, Confirm x]) = sent s @ [form_post_sync path
      [(key, JStr (json_str (JArr (map item (map fst (filter snd (user_rows s)))))))]] \<and>
    sent (run s [Click handler, Cancel]) = sent s"
proof -
  from assms(3) consider
      "handler = delRoles" "path = ''/userInfo/delRole''" "key = ''roleIds''" "item = prop_or_undef ''role_id''"
    | "handler = delPrivileges" "path = ''/userInfo/delPrivileges''" "key = ''privileges''" "item = privilege_of"
    | "handler = delUserErps" "path = ''/userInfo/delUserInfoById''" "key = ''userIds''" "item = prop_or_undef ''id''"
    by auto
  then show ?thesis
    by cases (use assms(1) in \<open>simp_all add: delRoles_def delPrivileges_def delUserErps_def push_ids_push_props
        objects_selected [OF assms(2)] objects_privileges [OF assms(2)] ask_confirm_def\<close>)
qed

text \<open>
  The callbacks of the account page wait for code 200, but the console server reports success
  with code 0: after a deletion it has carried out, the rows stay listed and the dialog stays open;
  after a change of authority nothing happens; after adding accounts the page alerts \<open>undefined\<close>.
\<close>

theorem account_success_ignored:
  assumes "blocked s = None" and "objects_only (user_rows s)" and "filter snd (user_rows s) \<noteq> []"
    and "t = run s [Click delUserErps, Confirm x]" and "u = run s [Click saveUserAuthority]"
  shows "run t [SyncReply True (ok_reply d)] = t\<lparr>blocked := None\<rparr> \<and> dlg t \<noteq> None \<and> log t = log s \<and>
    run u [SyncReply True (ok_reply d)] = u\<lparr>blocked := None\<rparr> \<and> log u = log s \<and> sent u \<noteq> sent s \<and>
    log (run s [Click saveUserErps, Reply (length (pend s)) True (ok_reply d)]) = log s @ [Alert JUndef]"
proof -
  obtain r rs where sel: "map fst (filter snd (user_rows s)) = r # rs"
    using assms(3) by (cases "map fst (filter snd (user_rows s))") auto
  then have "r \<in> set (map fst (filter snd (user_rows s)))" by simp
  then have r: "\<not> nullish r" using assms(2) by (auto simp: objects_only_def list_all_iff)
  then obtain i where i: "get_prop r ''id'' = Some i" using get_prop_None_iff [of r] by fastforce
  have "r \<noteq> JUndef" using r by (auto simp: nullish_def)
  then have u: "u = s\<lparr>blocked := blocked u, sent := sent u\<rparr>" "sent u \<noteq> sent s"
      "run u [SyncReply True (ok_reply d)] = u\<lparr>blocked := None\<rparr>"
    using assms(1) i by (simp_all add: assms(5) saveUserAuthority_def sel first_row_def read_prop_def
        ok_reply_def if_code200_def js_seq_def)
  have "log u = log s" using arg_cong [OF u(1), of log] by simp
  moreover have "run t [SyncReply True (ok_reply d)] = t\<lparr>blocked := None\<rparr> \<and> dlg t \<noteq> None \<and> log t = log s"
    using assms(1) by (simp add: assms(4) delUserErps_def push_ids_push_props objects_selected [OF assms(2)]
        ask_confirm_def ok_reply_def if_code200_def js_seq_def read_prop_def)
  moreover have "log (run s [Click saveUserErps, Reply (length (pend s)) True (ok_reply d)]) = log s @ [Alert JUndef]"
    using assms(1) by (simp add: saveUserErps_def ok_reply_def if_code200_def js_seq_def read_prop_def
        alert_json_def do_effect_def)
  ultimately show ?thesis using u(2,3) by blast
qed

definition demo_users :: sys where
  "demo_users = empty_sys\<lparr>rows := (\<lambda>_. [(JObj [(''id'', JNum 7), (''user_name'', JStr ''ann''),
     (''cluster_id'', JNum 2)], True), (JObj [(''id'', JNum 8)], False)])\<rparr>"

lemma demo_users_facts: "blocked demo_users = None" "objects_only (user_rows demo_users)"
    "map fst (filter snd (user_rows demo_users)) = [JObj [(''id'', JNum 7), (''user_name'', JStr ''ann''),
       (''cluster_id'', JNum 2)]]" "sent demo_users = []" "log demo_users = []" "pend demo_users = []"
  by (simp_all add: demo_users_def empty_sys_def objects_only_def nullish_def)

theorem user_deletions_sent_witness:
  "sent (run demo_users [Click delPrivileges, Confirm []]) = [form_post_sync ''/userInfo/delPrivileges''
     [(''privileges'', JStr (json_str (JArr [JObj [(''user_name'', JStr ''ann''), (''cluster_id'', JNum 2)]])))]]"
  using user_deletions_sent [OF demo_users_facts(1,2), of delPrivileges "''/userInfo/delPrivileges''"
      "''privileges''" privilege_of "[]"] demo_users_facts(3,4)
  by (simp add: privilege_of_def prop_or_undef_def del: run_simps)

theorem account_success_ignored_witness:
  "log (run demo_users [Click saveUserErps, Reply 0 True (ok_reply JNull)]) = [Alert JUndef] \<and>
   dlg (run demo_users [Click delUserErps, Confirm []]) \<noteq> None"
proof -
  have "filter snd (user_rows demo_users) \<noteq> []" using demo_users_facts(3) by auto
  from account_success_ignored [OF demo_users_facts(1,2) this refl refl, of "[]" JNull] demo_users_facts(5,6)
  show ?thesis by (simp del: run_simps)
qed

end
