(* ===== verification/SystemPages.thy ===== *)
theory SystemPages
  imports Utils
begin

text \<open>
  The pages of the system's administration: schedulers (\<open>system/scheduleadjust.js\<close>,
  \<open>system/schedulemanage.js\<close>), the masters of a cluster (\<open>master/masterinfo.js\<close>) and the metric
  servers (\<open>metric/metricmanage.js\<close>, \<open>metric/metricserver.js\<close>).
\<close>

section \<open>scheduleadjust.js\<close>

definition load_list :: "string \<Rightarrow> string \<Rightarrow> prog \<Rightarrow> prog" where
  "load_list url var p = Ajax (http_get url)
     (\<lambda>data. on_reply (read_prop data ''data'' (\<lambda>d. Do (ScopeSet var d) Done)) ''fetch failed'' data)
     (\<lambda>_. Done) p"

definition scheduler_ready :: prog where
  "scheduler_ready = Ask (QVal ''clusterId'') (\<lambda>clusterId.
     load_list (''/scheduler/getAll?clusterId='' @ js_str clusterId) ''schedulerList'' Done)"

definition addScheduler :: "jsval \<Rightarrow> prog" where
  "addScheduler schedulerName =
     ask_confirm ''add scheduler'' [] ''warning''
       (if \<not> hasText schedulerName then swal1 ''unknown kind of scheduler'' Done
        else Ask (QVal ''clusterId'') (\<lambda>clusterId.
          Ajax (form_post ''/scheduler/adjust''
              [(''clusterId'', clusterId), (''optType'', JNum 1), (''scheduler'', schedulerName)])
            (on_reply (swal3 ''scheduler added'' (JStr ''scheduler added'') ''success'' (Do Reload Done))
               ''scheduler failed'')
            (call_admin ''scheduler failed'') Done))
       Done"

definition removeScheduler :: "jsval \<Rightarrow> prog" where
  "removeScheduler schedulerName =
     ask_confirm ''remove scheduler'' [] ''warning''
       (Ask (QVal ''clusterId'') (\<lambda>clusterId.
          Ajax (form_post ''/scheduler/adjust''
              [(''clusterId'', clusterId), (''optType'', JNum 2), (''scheduler'', schedulerName)])
            (on_reply (swal3 ''scheduler removed'' (JStr ''scheduler removed'') ''success'' (Do Reload Done))
               ''removing the scheduler failed'')
            (call_admin ''removing the scheduler failed'') Done))
       Done"

definition detailScheduler :: "jsval \<Rightarrow> prog" where
  "detailScheduler schedulerName = Ask (QVal ''clusterId'') (\<lambda>clusterId.
     Ajax (http_get (''/scheduler/getDetail?clusterId='' @ js_str clusterId @ ''&name='' @ js_str schedulerName))
       (\<lambda>data. on_reply (read_prop data ''data'' (\<lambda>d. swal3 ''worker'' d ''success'' Done)) ''fetch failed'' data)
       (\<lambda>_. Done) Done)"

section \<open>schedulemanage.js\<close>

definition sysCluster_ready :: prog where
  "sysCluster_ready = load_list ''/cluster/queryClusters'' ''clusterList'' Done"

definition goto_cluster :: "string \<Rightarrow> jsval \<Rightarrow> prog" where
  "goto_cluster page space = read_prop space ''id'' (\<lambda>i. Do (Goto (page @ ''?clusterId='' @ js_str i)) Done)"

definition scheduleAdjust :: "jsval \<Rightarrow> prog" where
  "scheduleAdjust = goto_cluster ''/page/system/scheduleAdjust''"

definition topologyView :: "jsval \<Rightarrow> prog" where
  "topologyView = goto_cluster ''/page/cluster/topology''"

definition viewRangeTopoByRngId :: "jsval \<Rightarrow> prog" where
  "viewRangeTopoByRngId space =
     ask_input ''range topology'' ''enter a range id''
       (\<lambda>inputValue.
        if js_seq inputValue (JBool False) then Done
        else if js_seq inputValue (JStr []) then Do (InputError (JStr ''a range id is needed'')) Done
        else if js_eq inputValue (JStr []) \<or> js_eq inputValue JNull then swal1 ''enter a range id'' Done
        else read_prop space ''id'' (\<lambda>i. Do (Goto (''/range/getRangeTopo?clusterId='' @ js_str i @
          ''&rangeId='' @ js_str inputValue)) Done))
       Done"

definition viewRangeOpsTopN :: "jsval \<Rightarrow> prog" where
  "viewRangeOpsTopN space =
     ask_input ''how many entries, 10 by default'' ''enter the number of entries''
       (\<lambda>inputValue.
        if js_seq inputValue (JBool False) then Done
        else let topN = (if js_seq inputValue (JStr []) then JNum 10 else inputValue) in
          read_prop space ''id'' (\<lambda>i. Do (Goto (''/page/cluster/viewRangeOpsTopN?clusterId='' @ js_str i @
            ''&topN='' @ js_str topN)) Done))
       Done"

section \<open>masterinfo.js\<close>

text \<open>
  The controller's local variable \<open>bt_data\<close> is kept in \<open>scope\<close>; after a failed request it is still
  \<open>undefined\<close> when its property \<open>node\<close> is read.
\<close>

definition masterNodeCtrl :: prog where
  "masterNodeCtrl = Do (ScopeSet ''bt_data'' JUndef) (Ask (QVal ''clusterId'') (\<lambda>clusterId.
     Ajax (form_post_sync ''/master/queryAll'' [(''clusterId'', clusterId)])
       (\<lambda>data. on_reply (read_prop data ''data'' (\<lambda>d. Do (ScopeSet ''bt_data'' d) Done)) ''list of masters'' data)
       (show_failure ''list of masters'')
     (Ask (QScope ''bt_data'') (\<lambda>bt_data. read_prop bt_data ''node'' (\<lambda>node.
       Do (TableInit ''viewnodeList'' \<lparr>t_data = node, t_url = [],
         t_columns = [(''id'', ''ID''), (''web_addr'', ''web_address''), (''rpc_addr'', ''rpc_address''),
           (''raft_hb_addr'', ''raft_hb_addr''), (''raft_rp_addr'', ''raft_replicate_addr''),
           (''id'', ''operation'')]\<rparr>) Done)))))"

text \<open>Only the leader's row has a button.\<close>

definition master_buttons :: "jsval \<Rightarrow> jsval \<Rightarrow> jsval \<Rightarrow> string list" where
  "master_buttons bt_data v row =
     (case get_prop bt_data ''leader_id'' of
        Some l \<Rightarrow> if js_eq l v then [onclick ''updateLogLevel'' [prop_text row ''id'']] else []
      | None \<Rightarrow> [])"

definition updateLogLevel :: prog where
  "updateLogLevel =
     ask_select ''log level'' ''selectLogLevel''
       [(''trace'', ''trace''), (''debug'', ''debug''), (''info'', ''info''), (''warn'', ''warn''), (''error'', ''error'')]
       (Ask (QVal ''selectLogLevel'') (\<lambda>logLevel.
          if \<not> hasText logLevel then swal1 ''please choose a log level'' Done
          else Ask (QVal ''clusterId'') (\<lambda>clusterId.
            Ajax (form_post ''/master/logLevelUpdate'' [(''clusterId'', clusterId), (''logLevel'', logLevel)])
              (on_reply (swal3 ''log level changed'' (JStr ''log level changed'') ''success'' Done)
                 ''changing the log level failed'')
              (call_admin ''changing the log level failed'') Done)))
       Done"

section \<open>metricmanage.js\<close>

definition metric_ready :: prog where
  "metric_ready = load_list ''/cluster/queryClusters'' ''clusterList''
     (Ajax (http_get ''/metric/server/getAll'')
       (\<lambda>data. on_reply
          (Do (EmptyOptions ''msAddr'') (read_prop data ''data'' (\<lambda>d. read_prop d ''length'' (\<lambda>_.
             for_each (\<lambda>x p. read_prop x ''addr'' (\<lambda>a. Do (AppendOption ''msAddr'' (JStr (js_str a)) (JStr (js_str a))) p))
               (elems d) Done))))
          ''fetching the metric servers failed'' data)
       (\<lambda>_. Done) Done)"

definition show_config :: "jsval \<Rightarrow> jsval \<Rightarrow> prog" where
  "show_config space data = on_reply
     (read_prop space ''id'' (\<lambda>i. Do (SetVal ''clusterId'' i)
      (read_prop data ''data'' (\<lambda>d. read_prop d ''ms'' (\<lambda>ms. read_prop ms ''address'' (\<lambda>a.
       Do (SetVal ''msAddr'' a) (read_prop ms ''interval'' (\<lambda>n. Do (SetVal ''msInterval'' n)
       (read_prop d ''gs'' (\<lambda>gs. read_prop gs ''address'' (\<lambda>g. Do (SetVal ''gsAddr'' g)
       (Do (ModalShow ''metricConfigDetail'') Done))))))))))))
     ''fetching the metric configuration failed'' data"

definition adjustConfig :: "jsval \<Rightarrow> prog" where
  "adjustConfig space = read_prop space ''id'' (\<lambda>i.
     Ajax (form_post ''/metric/config/get'' [(''clusterId'', i)]) (show_config space)
       (call_admin ''fetching the metric configuration failed'') Done)"

definition metric_update :: prog where
  "metric_update = Ask (QVal ''clusterId'') (\<lambda>clusterId. Ask (QVal ''msAddr'') (\<lambda>msAddr.
     Ask (QVal ''msInterval'') (\<lambda>msInterval. Ask (QVal ''gsAddr'') (\<lambda>gsAddr.
     if \<not> js_eq msAddr gsAddr
     then swal3 ''the addresses of ms and gw must agree'' (JStr ''please set them again'') ''error'' Done
     else Ajax (form_post_sync ''/metric/config/set''
         [(''clusterId'', clusterId), (''metricAddr'', msAddr), (''metricInterval'', msInterval)])
       (on_reply (swal3 ''set'' (JStr ''set'') ''success'' (Do (ModalHide ''metricConfigDetail'') Done)) ''set failed'')
       (show_failure ''set failed'') Done))))"

definition msAddr_change :: prog where
  "msAddr_change = Ask (QVal ''msAddr'') (\<lambda>msAddr. Do (SetVal ''gsAddr'' msAddr) Done)"

section \<open>metricserver.js\<close>

definition metric_table :: prog where
  "metric_table = Do (TableInit ''metricTableEvents'' \<lparr>t_data = JUndef, t_url = ''/metric/server/getAll'',
     t_columns = [([], ''checkbox''), (''addr'', ''address'')]\<rparr>) Done"

definition showServerModal :: "string \<Rightarrow> prog" where
  "showServerModal type = (if type = ''add''
     then Do (SetVal ''addr'' (JStr [])) (Do (ModalShow ''serverEditDetail'') Done) else Done)"

definition metric_save :: prog where
  "metric_save = Ask (QVal ''addr'') (\<lambda>addr.
     Ajax (form_post_sync ''/metric/server/add'' [(''addr'', addr)])
       (\<lambda>data. if_code0 data
          (swal3 ''set'' (JStr ''set'') ''success'' (Do (ModalHide ''serverEditDetail'')
            (Do (TableRefresh ''metricTableEvents'' ''/metric/server/getAll'') Done)))
          Done)
       (show_failure ''set failed'') Done)"

definition delMetricServer :: prog where
  "delMetricServer = Ask (QSelections ''metricTableEvents'') (\<lambda>sel.
     if elems sel = [] then swal3 ''delete servers'' (JStr ''please choose the servers to delete'') ''error'' Done
     else push_props ''addr'' (elems sel) (\<lambda>serverAddrs.
       ask_confirm ''delete metric servers'' [] ''warning''
         (Ajax (form_post_sync ''/metric/server/del'' [(''addrs'', JStr (json_str (JArr serverAddrs)))])
            (\<lambda>data. if_code0 data (swal3 ''deleted'' (JStr ''deleted'') ''success'' (Do Reload Done)) Done)
            (show_failure ''operation failed'') Done)
         Done))"

section \<open>Confirmation\<close>

definition system_handlers :: "prog set" where
  "system_handlers = {scheduler_ready, sysCluster_ready, masterNodeCtrl, updateLogLevel, metric_ready,
     metric_update, msAddr_change, metric_table, metric_save, delMetricServer} \<union>
     {p. \<exists>v. p \<in> {addScheduler v, removeScheduler v, detailScheduler v, scheduleAdjust v, topologyView v,
        viewRangeTopoByRngId v, viewRangeOpsTopN v, adjustConfig v}} \<union> range showServerModal"

definition system_changes :: "string list" where
  "system_changes = [''/scheduler/adjust'', ''/master/logLevelUpdate'', ''/metric/server/del'']"

lemmas system_defs = scheduler_ready_def sysCluster_ready_def masterNodeCtrl_def updateLogLevel_def
  metric_ready_def metric_update_def msAddr_change_def metric_table_def metric_save_def delMetricServer_def
  addScheduler_def removeScheduler_def detailScheduler_def scheduleAdjust_def topologyView_def
  viewRangeTopoByRngId_def viewRangeOpsTopN_def adjustConfig_def show_config_def showServerModal_def

lemma disciplined_load_list [disc_simps]:
  "\<not> to_paths us (http_get url) \<Longrightarrow> disciplined (to_paths us) (load_list url var p) n = disciplined (to_paths us) p n"
  by (simp add: load_list_def disc_simps)

lemma disciplined_loop:
  "(\<And>x q. disciplined M q n \<Longrightarrow> disciplined M (f x q) n) \<Longrightarrow> disciplined M p n \<Longrightarrow>
     disciplined M (for_each f xs p) n"
  by (induction xs) auto

interpretation system_page: confirmed_page system_handlers "to_paths system_changes"
  by unfold_locales
    (auto simp: system_handlers_def system_defs goto_cluster_def system_changes_def disc_simps
      disciplined_loop Let_def)

section \<open>Requests and replies\<close>

text \<open>The metric dialog's fields are on the page; all but the address list are text fields.\<close>

definition metric_form :: "sys \<Rightarrow> bool" where
  "metric_form s \<longleftrightarrow>
     list_all (\<lambda>i. vals s i \<noteq> None) [''clusterId'', ''msAddr'', ''msInterval'', ''gsAddr''] \<and>
     list_all (\<lambda>i. opts s i = []) [''clusterId'', ''msInterval'', ''gsAddr''] \<and> opts s ''msAddr'' \<noteq> []"

definition metric_config :: "string \<Rightarrow> jsval \<Rightarrow> jsval" where
  "metric_config a n = JObj [(''ms'', JObj [(''address'', JStr a), (''interval'', n)]), (''gs'', JObj [(''address'', JStr a)])]"

lemma js_eq_null_str [simp]: "\<not> js_eq JNull (JStr a)"
  by (simp add: js_eq.simps nullish_def)

lemma show_config_exec:
  assumes "metric_form s" and "get_prop space ''id'' = Some i"
  shows "exec (show_config space (ok_reply (metric_config a n))) s =
    s\<lparr>vals := (vals s)(''clusterId'' \<mapsto> field_text i,
        ''msAddr'' \<mapsto> (if JStr a \<in> set (map fst (opts s ''msAddr'')) then JStr a else JNull),
        ''msInterval'' \<mapsto> field_text n, ''gsAddr'' \<mapsto> JStr a),
      log := log s @ [SetVal ''clusterId'' i, SetVal ''msAddr'' (JStr a), SetVal ''msInterval'' n,
        SetVal ''gsAddr'' (JStr a), ModalShow ''metricConfigDetail'']\<rparr>"
proof -
  obtain c m k g where "vals s ''clusterId'' = Some c" "vals s ''msAddr'' = Some m" "vals s ''msInterval'' = Some k"
      "vals s ''gsAddr'' = Some g" "opts s ''clusterId'' = []" "opts s ''msInterval'' = []"
      "opts s ''gsAddr'' = []" "opts s ''msAddr'' \<noteq> []"
    using assms(1) by (auto simp: metric_form_def)
  moreover have "field_text (JStr a) = JStr a" by (simp add: field_text_def nullish_def)
  ultimately show ?thesis
    using assms(2) by (simp add: show_config_def read_prop_def on_reply_def if_code0_def
        ok_reply_def js_seq_def metric_config_def do_effect_def cong: if_cong)
qed

lemma metric_opened:
  assumes "blocked s = None" and "metric_form s" and "get_prop space ''id'' = Some i"
    and "t = run s [Click (adjustConfig space), Reply (length (pend s)) True (ok_reply (metric_config a n))]"
  shows "blocked t = None" "vals t ''clusterId'' = Some (field_text i)" "vals t ''msInterval'' = Some (field_text n)"
    "vals t ''gsAddr'' = Some (JStr a)"
    "vals t ''msAddr'' = Some (if JStr a \<in> set (map fst (opts s ''msAddr'')) then JStr a else JNull)"
proof -
  let ?r = "form_post ''/metric/config/get'' [(''clusterId'', i)]"
  have "metric_form (s\<lparr>pend := pend s, sent := sent s @ [?r]\<rparr>)" using assms(2) by (simp add: metric_form_def)
  note shown = show_config_exec [OF this assms(3), of a n]
  have "t = exec (show_config space (ok_reply (metric_config a n))) (s\<lparr>pend := pend s, sent := sent s @ [?r]\<rparr>)"
    using assms(1,3) by (simp add: assms(4) adjustConfig_def read_prop_def splice1_def)
  then show "blocked t = None" "vals t ''clusterId'' = Some (field_text i)" "vals t ''msInterval'' = Some (field_text n)"
    "vals t ''gsAddr'' = Some (JStr a)"
    "vals t ''msAddr'' = Some (if JStr a \<in> set (map fst (opts s ''msAddr'')) then JStr a else JNull)"
    unfolding shown using assms(1) by simp_all
qed


text \<open>
  When the list of masters cannot be fetched, by a refusal of the server or a failed request,
  the controller shows the error and then fails with a \<open>TypeError\<close>, because it reads \<open>node\<close> of the
  variable that was never set; no table is drawn.
\<close>

theorem master_list_failure:
  assumes "blocked s = None"
    and "t = run s [Click masterNodeCtrl, SyncReply good (if good then bad_reply 1 m else v)]"
  shows "errs t = errs s @ [TypeError ''node''] \<and> rows t = rows s \<and>
    map_option (\<lambda>(opt, _). sw_type opt) (dlg t) = Some ''error''"
  using assms(1)
  by (cases good) (simp_all add: assms(2) masterNodeCtrl_def read_prop_def on_reply_def if_code0_def bad_reply_def
      js_seq_def swal3_def show_failure_def do_effect_def)

definition demo_metric :: sys where
  "demo_metric = empty_sys\<lparr>vals := (\<lambda>i. Some (JStr [])),
     opts := (\<lambda>i. if i = ''msAddr'' then [(JStr ''m1:80'', JStr ''m1:80'')] else [])\<rparr>"

lemma demo_metric_facts: "blocked demo_metric = None" "metric_form demo_metric" "pend demo_metric = []"
    "opts demo_metric ''msAddr'' = [(JStr ''m1:80'', JStr ''m1:80'')]"
  by (simp_all add: demo_metric_def metric_form_def empty_sys_def)


theorem master_list_failure_witness:
  "errs (run demo_metric [Click masterNodeCtrl, SyncReply False JNull]) = [TypeError ''node'']"
  using master_list_failure [OF demo_metric_facts(1), of _ False "[]" JNull, OF refl]
  by (simp add: demo_metric_def empty_sys_def del: run_simps)

end
