(* ===== verification/ClusterTools.thy ===== *)
theory ClusterTools
  imports Utils
begin

text \<open>
  The smaller pages of a cluster: application and initialisation (\<open>cluster/applycluster.js\<close>,
  \<open>cluster/initcluster.js\<close>), the deploy policy (\<open>cluster/source.js\<close>), the topology list
  (\<open>cluster/topologylist.js\<close>), the busiest ranges (\<open>cluster/rangeopstopn.js\<close>), the peers of a range
  and the ranges in trouble (\<open>range/peerinfo.js\<close>, \<open>range/unhealthyrange.js\<close>,
  \<open>range/unstablerange.js\<close>) and the task list (\<open>task/loadtaskInfoData.js\<close>). The local variables
  of a controller are kept in \<open>scope\<close>. AngularJS's redrawing of \<open>ng-repeat\<close> rows is not modelled.
\<close>

section \<open>applycluster.js and initcluster.js\<close>

definition addUser :: prog where
  "addUser = Ask (QScope ''i'') (\<lambda>i. Do (AppendRow ''one'' (''user_'' @ js_str i) [])
     (Do (ScopeSet ''i'' (js_add i (JNum 1))) Done))"

definition removeUser :: "jsval \<Rightarrow> prog" where
  "removeUser obj = Do (RemoveRow ''one'' (''user_'' @ js_str obj) []) Done"

text \<open>The calls of \<open>val\<close> and \<open>text\<close> have no argument: they read and clear nothing.\<close>

definition clearModal :: prog where
  "clearModal = Ask (QVal ''clusterId'') (\<lambda>_. Ask (QVal ''masterUrl'') (\<lambda>_. Ask (QVal ''resultMsg'') (\<lambda>_. Done)))"

definition initCluster :: prog where
  "initCluster = Ask (QVal ''clusterId'') (\<lambda>clusterId. Ask (QVal ''masterUrl'') (\<lambda>masterUrl.
     if \<not> hasText clusterId then Do (Alert (JStr ''enter the id of the cluster'')) Done
     else if \<not> hasText masterUrl then Do (Alert (JStr ''enter the address of the master'')) Done
     else Ajax (form_post_sync ''/cluster/initCluster'' [(''masterUrl'', masterUrl), (''clusterId'', clusterId)])
       (\<lambda>data. read_prop data ''msg'' (\<lambda>m. Do (SetText ''resultMsg'' m) Done))
       (\<lambda>res. read_prop res ''msg'' (\<lambda>m. Do (Alert m) Done)) Done))"

section \<open>source.js\<close>

definition clusterDeployPolicy :: prog where
  "clusterDeployPolicy = Ask (QVal ''clusterId'') (\<lambda>clusterId.
     Ajax (form_post_sync ''/cluster/clusterDeployPolicy'' [(''clusterId'', clusterId), (''type'', JStr ''get'')])
       (\<lambda>data. read_prop data ''attach'' (\<lambda>a. Do (ScopeSet ''clusterdps'' a) Done))
       (\<lambda>res. read_prop res ''message'' (\<lambda>m. Do (Alert m) Done))
     (Do (ModalShow ''subDetail'') Done))"

definition addSource :: "string \<Rightarrow> prog" where
  "addSource type = Ask (QVal ''clusterId'') (\<lambda>clusterId.
     for_each (\<lambda>(t, page) p. if type = t then Do (Goto (page @ ''?clusterId='' @ js_str clusterId)) p else p)
       [(''addsource'', ''/metadata/resources''), (''createdb'', ''/page/metadata/metadatacreatedb''),
        (''createtable'', ''/page/metadata/metadatacreatetable'')] Done)"

definition slave_id :: "nat \<Rightarrow> string" where
  "slave_id i = ''slave'' @ show_nat i"

definition slave_ds_num_id :: "nat \<Rightarrow> string" where
  "slave_ds_num_id i = ''slave_ds_num'' @ show_nat i"

definition as_nat :: "jsval \<Rightarrow> nat" where
  "as_nat v = (case v of JNum n \<Rightarrow> nat n | _ \<Rightarrow> 0)"

text \<open>A new row is numbered by the number of rows the table has; its list starts with the first room.\<close>

definition slaveAdd :: prog where
  "slaveAdd = Ask (QCount ''one'') (\<lambda>n. let len = as_nat n in
     Do (AppendRow ''one'' (show_nat len) [(slave_id len, JStr ''Langfang''), (slave_ds_num_id len, JStr [])]) Done)"

definition splice_from :: "int \<Rightarrow> 'a list \<Rightarrow> 'a list" where
  "splice_from i xs = splice1 (if i < 0 then nat (int (length xs) + i) else nat i) xs"

definition slaveDel :: "nat \<Rightarrow> prog" where
  "slaveDel index = Ask (QScope ''clusterdps'') (\<lambda>dps. read_prop dps ''master'' (\<lambda>m. read_prop m ''slaves'' (\<lambda>sl.
     case sl of
       JArr xs \<Rightarrow> Do (ScopeSet ''clusterdps''
           (set_prop dps ''master'' (set_prop m ''slaves'' (JArr (splice_from (int index - 2) xs)))))
         (Do (RemoveRow ''one'' (show_nat index) [slave_id index, slave_ds_num_id index]) Done)
     | _ \<Rightarrow> Throw (TypeError ''splice''))))"

definition slave_entry :: "jsval \<Rightarrow> jsval \<Rightarrow> jsval" where
  "slave_entry slave num = JObj [(''master'', slave), (''ds_num'', js_parseInt (js_str num)), (''sync'', JNum 1)]"

fun read_slaves :: "nat list \<Rightarrow> (jsval list \<Rightarrow> prog) \<Rightarrow> prog" where
  "read_slaves [] k = k []"
| "read_slaves (i # is) k = Ask (QVal (slave_id i)) (\<lambda>slave. Ask (QVal (slave_ds_num_id i)) (\<lambda>num.
     read_slaves is (\<lambda>es. k (slave_entry slave num # es))))"

definition policy_json :: "jsval \<Rightarrow> jsval \<Rightarrow> jsval \<Rightarrow> jsval \<Rightarrow> jsval" where
  "policy_json zone_name master ds_num slaves = JObj [(''master'', JObj [(''zone_name'', zone_name),
     (''master'', JObj [(''room_name'', master), (''ds_num'', js_parseInt (js_str ds_num)), (''sync'', JNum 1)]),
     (''slaves'', slaves)])]"

definition send_policy :: "jsval \<Rightarrow> jsval \<Rightarrow> prog" where
  "send_policy clusterId policy =
     Ajax (form_post ''/cluster/clusterDeployPolicy'' [(''clusterId'', clusterId), (''type'', JStr ''set''),
         (''deployPolicy'', JStr (json_str policy))])
       (\<lambda>data. read_prop data ''attach'' (\<lambda>a. read_prop a ''message'' (\<lambda>m. Do (Alert m) Done)))
       (\<lambda>res. read_prop res ''message'' (\<lambda>m. Do (Alert m) Done)) Done"

definition saveClusterDeployPolicy :: prog where
  "saveClusterDeployPolicy = Ask (QVal ''clusterId'') (\<lambda>clusterId. Ask (QVal ''zone_name'') (\<lambda>zone_name.
     Ask (QCount ''one'') (\<lambda>n. Ask (QVal ''master'') (\<lambda>master. Ask (QVal ''ds_num'') (\<lambda>ds_num.
     if 2 < as_nat n
     then read_slaves [2..<as_nat n] (\<lambda>array. send_policy clusterId (policy_json zone_name master ds_num (JArr array)))
     else send_policy clusterId (policy_json zone_name master ds_num JUndef))))))"

section \<open>topologylist.js and rangeopstopn.js\<close>

definition topologylist_ready :: prog where
  "topologylist_ready = Ask (QVal ''dbName'') (\<lambda>dbName. Ask (QVal ''tableName'') (\<lambda>tableName.
     Ask (QVal ''clusterId'') (\<lambda>clusterId. Do (ScopeSet ''clusterId'' clusterId)
     (Ajax (form_post_sync ''/cluster/topology/getall'' [(''clusterId'', clusterId)])
       (\<lambda>data. on_reply (read_prop data ''data'' (\<lambda>d. Do (ScopeSet ''rangeList'' d) Done))
          ''fetching the topology failed'' data)
       (show_failure ''fetching the topology failed'') Done))))"

definition topology_deleteRange :: "jsval \<Rightarrow> prog" where
  "topology_deleteRange rng = Ask (QScope ''clusterId'') (\<lambda>clusterId. read_prop rng ''id'' (\<lambda>rangeId.
     Ajax (form_post ''/range/delete'' [(''clusterId'', clusterId), (''rangeId'', rangeId)])
       (\<lambda>data. on_reply (read_prop data ''msg'' (\<lambda>m. swal3 ''range deleted'' m ''success'' Done))
          ''deleting the range failed'' data)
       (show_failure ''deleting the range failed'') Done))"

definition viewRangeTopo :: "jsval \<Rightarrow> prog" where
  "viewRangeTopo rng = Ask (QScope ''clusterId'') (\<lambda>clusterId. read_prop rng ''id'' (\<lambda>rangeId.
     Do (Goto (''/range/getRangeTopo?clusterId='' @ js_str clusterId @ ''&rangeId='' @ js_str rangeId)) Done))"

definition rangeTopNCtrl :: prog where
  "rangeTopNCtrl = Ask (QVal ''clusterId'') (\<lambda>clusterId. Ask (QVal ''topN'') (\<lambda>topN.
     Ajax (http_get (''/range/getOpsTopN?topN='' @ js_str topN @ ''&clusterId='' @ js_str clusterId))
       (\<lambda>data. if_code0 data (read_prop data ''data'' (\<lambda>d. Do (ScopeSet ''statList'' d) Done)) Done)
       (\<lambda>_. Done) Done))"

section \<open>peerinfo.js, unhealthyrange.js, unstablerange.js\<close>

fun read_fields :: "string list \<Rightarrow> prog \<Rightarrow> prog" where
  "read_fields [] p = p"
| "read_fields (i # is) p = Ask (QVal i) (\<lambda>v. Do (ScopeSet i v) (read_fields is p))"

fun ask_scope :: "string list \<Rightarrow> (jsval list \<Rightarrow> prog) \<Rightarrow> prog" where
  "ask_scope [] k = k []"
| "ask_scope (i # is) k = Ask (QScope i) (\<lambda>v. ask_scope is (\<lambda>vs. k (v # vs)))"

definition list_reply :: "string \<Rightarrow> jsval \<Rightarrow> prog" where
  "list_reply var data = on_reply (read_prop data ''data'' (\<lambda>d. Do (ScopeSet var d) Done)) ''fetch failed'' data"

definition peers_ready :: prog where
  "peers_ready = read_fields [''rangeId'', ''clusterId'', ''dbName'', ''tableName'']
     (Ask (QScope ''rangeId'') (\<lambda>rangeId. Ask (QScope ''tableName'') (\<lambda>tableName. Ask (QScope ''dbName'') (\<lambda>dbName.
      Ask (QScope ''clusterId'') (\<lambda>clusterId.
      Ajax (http_get (''/range/getPeerInfo?rangeId='' @ js_str rangeId @ ''&tableName='' @ js_str tableName @
          ''&dbName='' @ js_str dbName @ ''&clusterId='' @ js_str clusterId))
        (list_reply ''peerInfo'') (\<lambda>_. Done) Done)))))"

text \<open>The two changes of a range's replica on the peer page, sent without a dialog.\<close>

definition peer_change :: "string \<Rightarrow> string \<Rightarrow> string \<Rightarrow> jsval \<Rightarrow> prog" where
  "peer_change url good bad peerId =
     ask_scope [''dbName'', ''tableName'', ''rangeId'', ''clusterId''] (\<lambda>vs.
       Ajax (form_post_sync url
           [(''dbName'', vs ! 0), (''tableName'', vs ! 1), (''rangeId'', vs ! 2), (''peerId'', peerId), (''clusterId'', vs ! 3)])
         (on_reply (swal3 good (JStr good) ''success'' Done) bad) (show_failure bad) Done)"

definition updateRange :: "jsval \<Rightarrow> prog" where
  "updateRange = peer_change ''/range/updateRange'' ''range metadata changed'' ''changing the range metadata failed''"

definition replaceRange :: "jsval \<Rightarrow> prog" where
  "replaceRange = peer_change ''/range/replaceRange'' ''range replaced'' ''replacing the range failed''"

definition unhealthy_ready :: prog where
  "unhealthy_ready = read_fields [''clusterId'', ''dbName'', ''tableName'', ''rangeId'']
     (Ask (QScope ''tableName'') (\<lambda>tableName. Ask (QScope ''dbName'') (\<lambda>dbName. Ask (QScope ''clusterId'') (\<lambda>clusterId.
      Ask (QScope ''rangeId'') (\<lambda>rangeId.
      Ajax (http_get (''/range/getUnhealthyRanges?tableName='' @ js_str tableName @ ''&dbName='' @ js_str dbName @
          ''&clusterId='' @ js_str clusterId @ ''&rangeId='' @ js_str rangeId))
        (list_reply ''unhealthyRanges'') (\<lambda>_. Done) Done)))))"

definition viewPeerInfo :: "bool \<Rightarrow> jsval \<Rightarrow> prog" where
  "viewPeerInfo flag rangeId = ask_scope [''tableName'', ''dbName'', ''clusterId''] (\<lambda>vs.
     Do (Goto (''/page/range/peerinfo?rangeId='' @ js_str rangeId @ ''&tableName='' @ js_str (vs ! 0) @ ''&dbName='' @
       js_str (vs ! 1) @ ''&clusterId='' @ js_str (vs ! 2) @ ''&flag='' @ js_str (JBool flag))) Done)"

definition rebuildRange :: "jsval \<Rightarrow> prog" where
  "rebuildRange rangeId = ask_scope [''dbName'', ''tableName'', ''clusterId''] (\<lambda>vs.
     Ajax (form_post_sync ''/range/rebuildRange''
         [(''dbName'', vs ! 0), (''tableName'', vs ! 1), (''rangeId'', rangeId), (''clusterId'', vs ! 2)])
       (on_reply (swal3 ''range rebuilt'' (JStr ''range rebuilt'') ''success'' (Do Reload Done)) ''rebuilding the range failed'')
       (show_failure ''rebuilding the range failed'') Done)"

definition force_range :: "string \<Rightarrow> string \<Rightarrow> string \<Rightarrow> string \<Rightarrow> string \<Rightarrow> jsval \<Rightarrow> prog" where
  "force_range title url good refused failed rangeId =
     ask_confirm title [] ''warning''
       (ask_scope [''clusterId'', ''dbName'', ''tableName''] (\<lambda>vs.
          Ajax (form_post url
              [(''clusterId'', vs ! 0), (''dbName'', vs ! 1), (''tableName'', vs ! 2), (''rangeId'', rangeId)])
            (on_reply (swal3 good (JStr good) ''success'' Done) refused) (show_failure failed) Done))
       Done"

definition forceSplitRange :: "jsval \<Rightarrow> prog" where
  "forceSplitRange = force_range ''split the range by force?'' ''/range/forceSplitRange'' ''range split''
     ''splitting the range failed'' ''splitting the range by force failed''"

definition forceCompactRange :: "jsval \<Rightarrow> prog" where
  "forceCompactRange = force_range ''compact the range by force?'' ''/range/forceCompactRange'' ''range compacted''
     ''compacting the range failed'' ''compacting the range by force failed''"

text \<open>A refused recovery shows \<open>data.message\<close>, a property the server's replies do not have.\<close>

definition batchRecover :: prog where
  "batchRecover =
     ask_confirm ''recover the ranges in trouble?'' [] ''warning''
       (ask_scope [''clusterId'', ''dbName'', ''tableName''] (\<lambda>vs.
          Ajax (form_post ''/range/batchRecoverRange''
              [(''clusterId'', vs ! 0), (''dbName'', vs ! 1), (''tableName'', vs ! 2)])
            (\<lambda>data. if_code0 data (swal3 ''recovering'' (JStr ''recovering'') ''success'' (Do Reload Done))
               (read_prop data ''message'' (\<lambda>m. swal3 ''recovering failed'' m ''error'' Done)))
            (call_admin ''recovering failed'') Done))
       Done"

definition unstable_ready :: prog where
  "unstable_ready = read_fields [''clusterId'', ''dbName'', ''tableName'']
     (Ask (QScope ''tableName'') (\<lambda>tableName. Ask (QScope ''dbName'') (\<lambda>dbName. Ask (QScope ''clusterId'') (\<lambda>clusterId.
      Ajax (http_get (''/range/getUnstableRanges?tableName='' @ js_str tableName @ ''&dbName='' @ js_str dbName @
          ''&clusterId='' @ js_str clusterId))
        (\<lambda>data. on_reply (read_prop data ''data'' (\<lambda>d. Do (ScopeSet ''unstableRanges'' d)
            (read_prop d ''length'' (\<lambda>n. Do (ScopeSet ''size'' n) Done)))) ''fetch failed'' data)
        (\<lambda>_. Done) Done))))"

section \<open>loadtaskInfoData.js\<close>

text \<open>
  The page has its own copies of the date functions, with the same text as those of the cluster
  page.
\<close>

definition task_ready :: "int \<Rightarrow> int \<Rightarrow> prog" where
  "task_ready tz now = datePairs tz now ''start'' ''end'' None None"

definition history_post :: "jsval list \<Rightarrow> ajax_req" where
  "history_post vs = form_post_sync ''/task/getHistoryTaskById''
     [(''clusterId'', vs ! 0), (''startTime'', vs ! 1), (''endTime'', vs ! 2)]"

fun ask_vals :: "string list \<Rightarrow> (jsval list \<Rightarrow> prog) \<Rightarrow> prog" where
  "ask_vals [] k = k []"
| "ask_vals (i # is) k = Ask (QVal i) (\<lambda>v. ask_vals is (\<lambda>vs. k (v # vs)))"

definition task_historyClusterTask :: prog where
  "task_historyClusterTask = Do (ScopeSet ''bt_data'' JUndef)
     (ask_vals [''clusterId'', ''start'', ''end''] (\<lambda>vs.
      Ajax (history_post vs)
        (\<lambda>data. read_prop data ''code'' (\<lambda>c. if js_seq c (JNum 200)
           then read_prop data ''attach'' (\<lambda>a. Do (ScopeSet ''bt_data'' a) Done) else Done))
        (\<lambda>_. Done)
      (Ask (QScope ''bt_data'') (\<lambda>d. Do (TableInit ''viewhistorytasklist'' \<lparr>t_data = d, t_url = [],
         t_columns = [(''detail'', ''task''), (''createTime'', ''created''), (''usedTime'', ''seconds''),
           (''finishTime'', ''finished''), (''state'', ''state'')]\<rparr>) Done))))"

text \<open>The table's \<open>load\<close> is given the options object, of which it takes the rows in \<open>data\<close>.\<close>

definition task_queryFilter :: prog where
  "task_queryFilter = ask_vals [''clusterId'', ''start'', ''end''] (\<lambda>vs.
     Ajax (history_post vs)
       (\<lambda>data. if_code0 data (read_prop data ''data'' (\<lambda>d. Do (TableLoad ''viewhistorytasklist'' d) Done)) Done)
       (\<lambda>_. Done) Done)"

definition task_presentClusterTask :: prog where
  "task_presentClusterTask = Do (ScopeSet ''options.data'' (JArr [])) (Ask (QVal ''clusterId'') (\<lambda>clusterId.
     Ajax (form_post_sync ''/task/getPresentTaskById'' [(''type'', JStr ''allTask''), (''clusterId'', clusterId)])
       (\<lambda>data. if_code0 data (read_prop data ''data'' (\<lambda>d. Do (ScopeSet ''options.data'' d) Done)) Done)
       (\<lambda>_. Done)
     (Ask (QScope ''options.data'') (\<lambda>d. Do (TableInit ''viewpresentlist'' \<lparr>t_data = d, t_url = [],
       t_columns = [(''describe'', ''task''), (''state'', ''state'')]\<rparr>) Done))))"

section \<open>Confirmation\<close>

definition tools_handlers :: "prog set" where
  "tools_handlers = {addUser, clearModal, initCluster, clusterDeployPolicy, slaveAdd, saveClusterDeployPolicy,
     topologylist_ready, rangeTopNCtrl, peers_ready, unhealthy_ready, batchRecover, unstable_ready,
     task_historyClusterTask, task_queryFilter, task_presentClusterTask} \<union> range addSource \<union> range slaveDel \<union>
     {p. \<exists>v. p \<in> {removeUser v, topology_deleteRange v, viewRangeTopo v, updateRange v, replaceRange v,
        viewPeerInfo True v, viewPeerInfo False v, rebuildRange v, forceSplitRange v, forceCompactRange v}}"

definition tools_changes :: "string list" where
  "tools_changes = [''/range/forceSplitRange'', ''/range/forceCompactRange'', ''/range/batchRecoverRange'']"

lemma disciplined_read_slaves [disc_simps]:
  "(\<And>es. disciplined M (k es) n) \<Longrightarrow> disciplined M (read_slaves is k) n"
  by (induction "is" arbitrary: k) auto

lemma disciplined_read_fields [disc_simps]: "disciplined M (read_fields is p) n = disciplined M p n"
  by (induction "is") auto

lemma disciplined_ask_scope [disc_simps]:
  "(\<And>vs. disciplined M (k vs) n) \<Longrightarrow> disciplined M (ask_scope is k) n"
  by (induction "is" arbitrary: k) auto

lemma disciplined_ask_vals [disc_simps]:
  "(\<And>vs. disciplined M (k vs) n) \<Longrightarrow> disciplined M (ask_vals is k) n"
  by (induction "is" arbitrary: k) auto

lemma disciplined_list_reply [disc_simps]: "disciplined M (list_reply var v) n"
  by (simp add: list_reply_def disc_simps)

lemmas tools_defs = addUser_def clearModal_def initCluster_def clusterDeployPolicy_def slaveAdd_def
  saveClusterDeployPolicy_def send_policy_def topologylist_ready_def rangeTopNCtrl_def peers_ready_def
  unhealthy_ready_def batchRecover_def unstable_ready_def task_historyClusterTask_def history_post_def
  task_queryFilter_def task_presentClusterTask_def addSource_def slaveDel_def removeUser_def
  topology_deleteRange_def viewRangeTopo_def updateRange_def replaceRange_def peer_change_def
  viewPeerInfo_def rebuildRange_def forceSplitRange_def forceCompactRange_def force_range_def

interpretation tools_page: confirmed_page tools_handlers "to_paths tools_changes"
  by unfold_locales
    (auto simp: tools_handlers_def tools_defs tools_changes_def disc_simps Let_def split: jsval.split)

section \<open>The rows of the deploy policy\<close>

lemma slave_fields [simp]:
  "slave_id i = slave_id j \<longleftrightarrow> i = j" "slave_ds_num_id i = slave_ds_num_id j \<longleftrightarrow> i = j"
  "slave_id i \<noteq> slave_ds_num_id j" "slave_ds_num_id j \<noteq> slave_id i"
proof -
  have "CHR ''_'' \<notin> set (show_nat i)" using show_nat_digits [of i] by (auto simp: digits_def)
  moreover have "CHR ''_'' \<in> set (''_ds_num'' @ show_nat j)" by simp
  ultimately have "show_nat i \<noteq> ''_ds_num'' @ show_nat j" by metis
  then show "slave_id i \<noteq> slave_ds_num_id j" "slave_ds_num_id j \<noteq> slave_id i"
    by (auto simp: slave_id_def slave_ds_num_id_def)
qed (simp_all add: slave_id_def slave_ds_num_id_def)

lemma exec_read_slaves:
  "exec (read_slaves is k) s =
   exec (k (map (\<lambda>i. slave_entry (answer (QVal (slave_id i)) s) (answer (QVal (slave_ds_num_id i)) s)) is)) s"
  by (induction "is" arbitrary: k) simp_all

text \<open>The table of a policy with \<open>n - 2\<close> further rooms: two fixed rows, then one row per room.\<close>

definition policy_rows :: "nat \<Rightarrow> (jsval \<times> bool) list" where
  "policy_rows n = [(JObj [], False), (JObj [(''id'', JStr ''1'')], False)] @
     map (\<lambda>i. (JObj [(''id'', JStr (show_nat i))], False)) [2..<n]"

definition policy_page :: "(nat \<Rightarrow> jsval) \<Rightarrow> (nat \<Rightarrow> jsval) \<Rightarrow> nat \<Rightarrow> sys \<Rightarrow> bool" where
  "policy_page room num n s \<longleftrightarrow> blocked s = None \<and> rows s ''one'' = policy_rows n \<and> 2 < n \<and>
     list_all (\<lambda>i. vals s (slave_id i) = Some (room i) \<and> vals s (slave_ds_num_id i) = Some (num i)) [2..<n]"

definition policy_post :: "sys \<Rightarrow> jsval list \<Rightarrow> ajax_req" where
  "policy_post s slaves = form_post ''/cluster/clusterDeployPolicy'' [(''clusterId'', answer (QVal ''clusterId'') s),
     (''type'', JStr ''set''), (''deployPolicy'', JStr (json_str (policy_json (answer (QVal ''zone_name'') s)
        (answer (QVal ''master'') s) (answer (QVal ''ds_num'') s) (JArr slaves))))]"

lemma length_policy_rows [simp]: "2 \<le> n \<Longrightarrow> length (policy_rows n) = n"
  by (simp add: policy_rows_def)

lemma save_policy:
  assumes "blocked s = None" and "length (rows s ''one'') = n" and "2 < n"
  shows "sent (run s [Click saveClusterDeployPolicy]) = sent s @ [policy_post s
    (map (\<lambda>i. slave_entry (answer (QVal (slave_id i)) s) (answer (QVal (slave_ds_num_id i)) s)) [2..<n])]"
  using assms by (simp add: saveClusterDeployPolicy_def as_nat_def exec_read_slaves send_policy_def policy_post_def
      del: upt_Suc)

lemma one_row_less:
  assumes "2 \<le> j" and "j < n"
  shows "length (filter (\<lambda>r. get_prop (fst r) ''id'' \<noteq> Some (JStr (show_nat j))) (policy_rows n)) = n - 1"
proof -
  have "filter (\<lambda>i. i \<noteq> j) [2..<n] = [2..<j] @ [Suc j..<n]"
  proof -
    have "[2..<n] = [2..<j] @ j # [Suc j..<n]"
      using assms by (metis upt_conv_Cons upt_add_eq_append le_Suc_ex less_imp_le)
    moreover have "filter (\<lambda>i. i \<noteq> j) [2..<j] = [2..<j]" "filter (\<lambda>i. i \<noteq> j) [Suc j..<n] = [Suc j..<n]"
      by (simp_all add: filter_id_conv)
    ultimately show ?thesis by simp
  qed
  moreover have "show_nat j \<noteq> ''1''"
  proof
    assume "show_nat j = ''1''"
    moreover have "show_nat 1 = ''1''" by (simp add: show_nat.simps digit_char_def digits_def)
    ultimately have "j = 1" by (metis show_nat_inj)
    then show False using assms by simp
  qed
  ultimately show ?thesis
    using assms by (simp add: policy_rows_def filter_map comp_def)
qed


definition demo_policy :: sys where
  "demo_policy = empty_sys\<lparr>rows := (\<lambda>_. policy_rows 4), vals := (\<lambda>_. Some (JStr ''3'')),
     scope := (\<lambda>_. JObj [(''master'', JObj [(''slaves'', JArr [])])])\<rparr>"


end
