(* ===== verification/SqlConsole.thy ===== *)
theory SqlConsole
  imports Utils
begin

text \<open>
  The SQL console (\<open>console/viewconsole.js\<close>, \<open>console/panel.js\<close>) and the server list with its
  address checks (\<open>serverInfo.js\<close>). The regular expression of an address is modelled as a pattern
  with the backtracking matcher of the language, and proved equivalent to four decimal numbers
  below 256. The EasyUI and jqGrid option objects and the browser-specific clipboard code are left
  out.
\<close>

section \<open>panel.js\<close>

text \<open>The serialisation of a text node: \<open>$('<div/>').text(val).html()\<close>.\<close>

definition text_html :: "char \<Rightarrow> string" where
  "text_html c = (if c = CHR ''&'' then ''&amp;'' else if c = CHR ''<'' then ''&lt;''
     else if c = CHR ''>'' then ''&gt;'' else if c = CHR 0xA0 then ''&nbsp;'' else [c])"

definition html2Escape :: "jsval \<Rightarrow> jsval" where
  "html2Escape val = (case val of
       JStr s \<Rightarrow> if s \<noteq> [] \<and> (index_of ''<'' s \<noteq> None \<or> index_of ''>'' s \<noteq> None)
         then JStr (concat (map text_html s)) else val
     | _ \<Rightarrow> val)"

definition addPanel :: "jsval \<Rightarrow> jsval \<Rightarrow> prog" where
  "addPanel keys values = Ask (QScope ''index'') (\<lambda>index.
     Do (AddTab (''result:'' @ js_str index))
     (read_prop keys ''length'' (\<lambda>_.
      Do (TableInit (''grid'' @ js_str index) \<lparr>t_data = values, t_url = [],
         t_columns = map (\<lambda>k. (js_str k, js_str k)) (elems keys)\<rparr>)
      (Do (ScopeSet ''index'' (js_add index (JNum 1))) Done))))"

text \<open>One line of the copied text: tabs between the cells, a line break after the last.\<close>

fun tsv_line :: "string list \<Rightarrow> string" where
  "tsv_line [] = []"
| "tsv_line [x] = x @ [CHR 0x0D, CHR 0x0A]"
| "tsv_line (x # xs) = x @ [CHR 0x09] @ tsv_line xs"

definition row_line :: "string list \<Rightarrow> jsval \<Rightarrow> string" where
  "row_line flds row = tsv_line (map (prop_text row) flds)"

text \<open>The click on the row menu: the copied text, or \<open>None\<close> for an unknown item.\<close>

definition copy_text :: "string \<Rightarrow> string list \<Rightarrow> jsval \<Rightarrow> jsval list \<Rightarrow> string option" where
  "copy_text iconCls flds rowData dataRows =
     (if iconCls = ''icon-copy''
      then Some (tsv_line flds @ (if truthy rowData then row_line flds rowData else []))
      else if iconCls = ''icon-copy2'' then Some (tsv_line flds @ concat (map (row_line flds) dataRows))
      else None)"

text \<open>The click on the header menu: whether the column is hidden then, and the item's new icon.\<close>

definition header_click :: "string \<Rightarrow> bool \<times> string" where
  "header_click iconCls = (if iconCls = ''icon-ok'' then (True, ''icon-empty'') else (False, ''icon-ok''))"

section \<open>viewconsole.js\<close>

definition warn :: "string \<Rightarrow> prog" where
  "warn m = Do (Message ''Warning'' (JStr m)) Done"

definition query_post :: "string \<Rightarrow> jsval list \<Rightarrow> ajax_req" where
  "query_post sql vs = \<lparr>rq_url = ''/db/console/query'', rq_type = ''post'', rq_async = True,
     rq_ctype = ''application/x-www-form-urlencoded'', rq_dtype = ''json'',
     rq_data = JObj [(''sql'', JStr sql), (''dbName'', vs ! 0), (''dbUserName'', vs ! 1), (''dbPassWord'', vs ! 2),
       (''clusterId'', vs ! 3)]\<rparr>"

definition query_done :: "jsval \<Rightarrow> prog" where
  "query_done data = seq
     (read_prop data ''code'' (\<lambda>c. if js_eq c (JNum 0)
        then read_prop data ''data'' (\<lambda>d. read_prop d ''keys'' (\<lambda>ks. read_prop d ''values'' (\<lambda>vs. addPanel ks vs)))
        else read_prop data ''msg'' (\<lambda>m. Do (Message ''Warning'' m) Done)))
     (Do (Progress False) Done)"

text \<open>
  The error callback has two arguments, the request object and the status text; the model's single
  argument carries the text in a property \<open>textStatus\<close> of the object.
\<close>

definition query_failed :: "jsval \<Rightarrow> prog" where
  "query_failed xhr = seq
     (read_prop xhr ''status'' (\<lambda>status. read_prop xhr ''textStatus'' (\<lambda>textStatus.
        let t = (if js_gt status (JNum 499) then JStr ''query timed out, please retry or contact the DBA'' else textStatus)
        in Do (Message ''Error'' (JStr (js_str status @ '':'' @ js_str t))) Done)))
     (Do (Progress False) Done)"

definition send_query :: "string \<Rightarrow> prog" where
  "send_query sql = Ask (QVal ''dbName'') (\<lambda>dbName. Ask (QVal ''dbUserName'') (\<lambda>dbUserName.
     Ask (QVal ''dbPassWord'') (\<lambda>dbPassWord. Ask (QVal ''clusterId'') (\<lambda>clusterId.
     Do (Progress True)
     (Ajax (query_post sql [dbName, dbUserName, dbPassWord, clusterId]) query_done query_failed Done)))))"

definition btnQuery :: prog where
  "btnQuery = Ask (QVal ''qrySql'') (\<lambda>v. if js_eq v (JStr []) then warn ''enter a SQL statement'' else
     Ask (QVal ''dbUserName'') (\<lambda>u. if js_eq u (JStr []) then warn ''enter a user name'' else
     Ask (QVal ''dbPassWord'') (\<lambda>p. if js_eq p (JStr []) then warn ''enter a password'' else
     Ask (QMarkedText ''qrySql'') (\<lambda>m.
       if js_eq m (JStr [])
       then (if js_eq (JStr []) v then warn ''enter a statement'' else send_query (js_str v))
       else case index_of (js_str m) (js_str v) of
          Some start \<Rightarrow> Do (SetCursor ''qrySql'' start (start + length (js_str m))) (send_query (js_str m))
        | None \<Rightarrow> send_query (js_str m)))))"

section \<open>serverInfo.js\<close>

datatype regex = Eps | Cls "char \<Rightarrow> bool" | Cat regex regex | Alt regex regex

text \<open>What a match leaves of the text, in the order the matcher tries; \<open>re_test\<close> is \<open>/^r$/.test\<close>.\<close>

fun re_rest :: "regex \<Rightarrow> string \<Rightarrow> string list" where
  "re_rest Eps s = [s]"
| "re_rest (Cls p) s = (case s of [] \<Rightarrow> [] | c # cs \<Rightarrow> if p c then [cs] else [])"
| "re_rest (Cat a b) s = concat (map (re_rest b) (re_rest a s))"
| "re_rest (Alt a b) s = re_rest a s @ re_rest b s"

definition re_test :: "regex \<Rightarrow> string \<Rightarrow> bool" where
  "re_test r s \<longleftrightarrow> list_ex (\<lambda>t. t = []) (re_rest r s)"

definition digit_from :: "nat \<Rightarrow> nat \<Rightarrow> regex" where
  "digit_from a b = Cls (\<lambda>c. c \<in> set (map digit_char [a..<Suc b]))"

definition octet_re :: regex where
  "octet_re = Alt (digit_from 0 9) (Alt (Cat (digit_from 1 9) (digit_from 0 9))
     (Alt (Cat (digit_from 1 1) (Cat (digit_from 0 9) (digit_from 0 9)))
     (Alt (Cat (digit_from 2 2) (Cat (digit_from 0 4) (digit_from 0 9)))
       (Cat (digit_from 2 2) (Cat (digit_from 5 5) (digit_from 0 5))))))"

definition ip_re :: regex where
  "ip_re = (let dot = Cls (\<lambda>c. c = CHR ''.'') in
     Cat octet_re (Cat dot (Cat octet_re (Cat dot (Cat octet_re (Cat dot octet_re))))))"

text \<open>\<open>isNaN(parseFloat(s))\<close>: no number starts the text.\<close>

definition float_prefix :: "string \<Rightarrow> bool" where
  "float_prefix s = (let t = dropWhile is_ws s;
       u = (if t \<noteq> [] \<and> (hd t = CHR ''-'' \<or> hd t = CHR ''+'') then tl t else t)
     in (u \<noteq> [] \<and> hd u \<in> set digits) \<or> prefix ''Infinity'' u \<or>
        (u \<noteq> [] \<and> hd u = CHR ''.'' \<and> tl u \<noteq> [] \<and> hd (tl u) \<in> set digits))"

definition mycheck :: "string \<Rightarrow> bool \<times> string" where
  "mycheck s = (if \<not> float_prefix s \<or> \<not> re_test ip_re s then (False, ''enter a correct ip'') else (True, []))"

definition ipadd :: prog where
  "ipadd = Do (ModalShow ''ipModal'') Done"

definition firm :: prog where
  "firm = Do (ModalShow ''identifier'') Done"

text \<open>The loop \<open>while (ip--)\<close> goes through the lines from the last to the first.\<close>

fun all_ips :: "string list \<Rightarrow> bool" where
  "all_ips [] = True"
| "all_ips (l # ls) = (if re_test ip_re l then all_ips ls else False)"

definition json_post :: "string \<Rightarrow> jsval \<Rightarrow> ajax_req" where
  "json_post u d = \<lparr>rq_url = u, rq_type = ''post'', rq_async = True,
     rq_ctype = ''application/json;charset=utf-8'', rq_dtype = ''json'', rq_data = JStr (json_str d)\<rparr>"

definition createip :: prog where
  "createip = Ask (QVal ''iplist'') (\<lambda>v.
     let iplistTemp = split_at (CHR 0x0A) (trim (if nullish v then [] else js_str v)) in
     if \<not> all_ips (rev iplistTemp) then Do (Alert (JStr ''enter correct IPs'')) Done
     else Ajax (json_post ''/serverInfo/createIp'' (JArr (map JStr iplistTemp)))
       (\<lambda>data. if_code0 data (Do (Alert (JStr ''inserted'')) Done) Done) (\<lambda>_. Done) Done)"

text \<open>The page's copy of the shared date format.\<close>

definition server_formatDate :: "js_date \<Rightarrow> string \<Rightarrow> string" where
  "server_formatDate date format =
     replace_runs (date_cfg date) (if format = [] then default_format else format)"

section \<open>Addresses\<close>

text \<open>The language of a pattern, and that the matcher decides it.\<close>

primrec re_lang :: "regex \<Rightarrow> string \<Rightarrow> bool" where
  "re_lang Eps u = (u = [])"
| "re_lang (Cls p) u = (\<exists>c. u = [c] \<and> p c)"
| "re_lang (Cat a b) u = (\<exists>v w. u = v @ w \<and> re_lang a v \<and> re_lang b w)"
| "re_lang (Alt a b) u = (re_lang a u \<or> re_lang b u)"

lemma re_rest_iff: "t \<in> set (re_rest r s) \<longleftrightarrow> (\<exists>u. s = u @ t \<and> re_lang r u)"
proof (induction r arbitrary: s t)
  case (Cls p)
  then show ?case by (auto split: list.split)
next
  case (Cat a b)
  then show ?case by (auto; metis append_assoc)
qed auto

lemma re_test_iff: "re_test r s \<longleftrightarrow> re_lang r s"
  by (auto simp: re_test_def list_ex_iff re_rest_iff)

lemma digit_from_iff: "re_lang (digit_from a b) u \<longleftrightarrow> (\<exists>d. a \<le> d \<and> d \<le> b \<and> u = [digit_char d])"
  by (auto simp: digit_from_def simp del: upt_Suc)

lemma show_one: "d < 10 \<Longrightarrow> show_nat d = [digit_char d]"
  by (simp add: show_nat.simps)

lemma show_snoc: "0 < x \<Longrightarrow> c < 10 \<Longrightarrow> show_nat (10 * x + c) = show_nat x @ [digit_char c]"
  by (simp add: show_nat.simps [of "10 * x + c"])

lemma show_two: "0 < a \<Longrightarrow> a < 10 \<Longrightarrow> b < 10 \<Longrightarrow> show_nat (10 * a + b) = [digit_char a, digit_char b]"
  by (simp add: show_snoc show_one)

lemma show_three:
  assumes "0 < a" "a < 10" "b < 10" "c < 10"
  shows "show_nat (100 * a + 10 * b + c) = [digit_char a, digit_char b, digit_char c]"
proof -
  have "100 * a + 10 * b + c = 10 * (10 * a + b) + c" by simp
  then show ?thesis using assms show_snoc [of "10 * a + b" c] by (simp only: show_two) simp
qed

declare re_lang.simps(3) [simp del]

lemma digit_then: "re_lang (Cat (digit_from a b) r) u \<longleftrightarrow> (\<exists>d w. a \<le> d \<and> d \<le> b \<and> u = digit_char d # w \<and> re_lang r w)"
proof
  assume "\<exists>d w. a \<le> d \<and> d \<le> b \<and> u = digit_char d # w \<and> re_lang r w"
  then obtain d w where "a \<le> d" "d \<le> b" "u = [digit_char d] @ w" "re_lang r w" by auto
  then show "re_lang (Cat (digit_from a b) r) u" unfolding re_lang.simps digit_from_iff by blast
qed (auto simp: digit_from_iff re_lang.simps(3))

lemma octet_two: "re_lang (Cat (digit_from a b) (digit_from c d)) u \<longleftrightarrow>
    (\<exists>x y. a \<le> x \<and> x \<le> b \<and> c \<le> y \<and> y \<le> d \<and> u = [digit_char x, digit_char y])"
  unfolding digit_then digit_from_iff by blast

lemma octet_lead: "re_lang (Cat (digit_from a a) r) u \<longleftrightarrow> (\<exists>w. u = digit_char a # w \<and> re_lang r w)"
proof
  assume "re_lang (Cat (digit_from a a) r) u"
  then obtain d w where "a \<le> d" "d \<le> a" "u = digit_char d # w" "re_lang r w" unfolding digit_then by blast
  then show "\<exists>w. u = digit_char a # w \<and> re_lang r w" by (metis le_antisym)
next
  assume "\<exists>w. u = digit_char a # w \<and> re_lang r w"
  then show "re_lang (Cat (digit_from a a) r) u" unfolding digit_then by blast
qed

lemma octet_iff: "re_lang octet_re u \<longleftrightarrow>
    (\<exists>x \<le> 9. u = [digit_char x]) \<or> (\<exists>x y. 1 \<le> x \<and> x \<le> 9 \<and> y \<le> 9 \<and> u = [digit_char x, digit_char y]) \<or>
    (\<exists>y z. y \<le> 9 \<and> z \<le> 9 \<and> u = [digit_char 1, digit_char y, digit_char z]) \<or>
    (\<exists>y z. y \<le> 4 \<and> z \<le> 9 \<and> u = [digit_char 2, digit_char y, digit_char z]) \<or>
    (\<exists>z \<le> 5. u = [digit_char 2, digit_char 5, digit_char z])"
  unfolding octet_re_def re_lang.simps(4)
proof (intro arg_cong2 [where f = "(\<or>)"])
  show "re_lang (digit_from 0 9) u = (\<exists>x \<le> 9. u = [digit_char x])" by (auto simp: digit_from_iff)
  show "re_lang (Cat (digit_from 1 9) (digit_from 0 9)) u =
      (\<exists>x y. 1 \<le> x \<and> x \<le> 9 \<and> y \<le> 9 \<and> u = [digit_char x, digit_char y])"
    unfolding octet_two by simp
qed (auto simp: octet_lead digit_then digit_from_iff)

lemma octet_sound:
  assumes "re_lang octet_re u"
  shows "\<exists>n < 256. u = show_nat n"
proof -
  have one: ?thesis if "x \<le> 9" "u = [digit_char x]" for x
    using show_one [of x] that by (intro exI [of _ x]) simp
  have two: ?thesis if "1 \<le> x" "x \<le> 9" "y \<le> 9" "u = [digit_char x, digit_char y]" for x y
    using show_two [of x y] that by (intro exI [of _ "10 * x + y"]) simp
  have three: ?thesis if "1 \<le> x" "x \<le> 9" "y \<le> 9" "z \<le> 9" "100 * x + 10 * y + z < 256"
      "u = [digit_char x, digit_char y, digit_char z]" for x y z
    using show_three [of x y z] that by (intro exI [of _ "100 * x + 10 * y + z"]) simp
  from assms show ?thesis
    unfolding octet_iff
  proof (elim disjE exE conjE)
    fix y z assume "y \<le> 9" "z \<le> 9" "u = [digit_char 1, digit_char y, digit_char z]"
    then show ?thesis using three [of 1 y z] by simp
  next
    fix y z assume "y \<le> 4" "z \<le> 9" "u = [digit_char 2, digit_char y, digit_char z]"
    then show ?thesis using three [of 2 y z] by simp
  next
    fix z assume "z \<le> 5" "u = [digit_char 2, digit_char 5, digit_char z]"
    then show ?thesis using three [of 2 5 z] by simp
  qed (use one two in blast)+
qed

lemma octet_complete:
  assumes n: "n < 256"
  shows "re_lang octet_re (show_nat n)"
proof -
  consider "n < 10" | "10 \<le> n" "n < 100" | "100 \<le> n" "n < 200" | "200 \<le> n" "n < 250" | "250 \<le> n" by linarith
  then show ?thesis
  proof cases
    case 1
    then have "show_nat n = [digit_char n]" "n \<le> 9" by (simp_all add: show_one)
    then show ?thesis unfolding octet_iff by blast
  next
    case 2
    then have "show_nat n = [digit_char (n div 10), digit_char (n mod 10)]" "1 \<le> n div 10" "n div 10 \<le> 9" "n mod 10 \<le> 9"
      using show_two [of "n div 10" "n mod 10"] by auto
    then show ?thesis unfolding octet_iff by blast
  next
    case 3
    have d: "10 \<le> n div 10" "n div 10 < 20" using 3 by simp_all
    define b where "b = n div 10 - 10"
    have b: "b \<le> 9" "n mod 10 \<le> 9" "n = 100 * 1 + 10 * b + n mod 10"
      using d mult_div_mod_eq [of 10 n] unfolding b_def by linarith+
    have "show_nat (100 * 1 + 10 * b + (n mod 10)) = [digit_char 1, digit_char b, digit_char (n mod 10)]"
      by (rule show_three) (use b(1,2) in simp_all)
    then have "show_nat n = [digit_char 1, digit_char b, digit_char (n mod 10)]" by (simp only: b(3) [symmetric])
    with b(1,2) show ?thesis unfolding octet_iff by blast
  next
    case 4
    have d: "20 \<le> n div 10" "n div 10 < 25" using 4 by simp_all
    define b where "b = n div 10 - 20"
    have b: "b \<le> 4" "n mod 10 \<le> 9" "n = 100 * 2 + 10 * b + n mod 10"
      using d mult_div_mod_eq [of 10 n] unfolding b_def by linarith+
    have "show_nat (100 * 2 + 10 * b + (n mod 10)) = [digit_char 2, digit_char b, digit_char (n mod 10)]"
      by (rule show_three) (use b(1,2) in simp_all)
    then have "show_nat n = [digit_char 2, digit_char b, digit_char (n mod 10)]" by (simp only: b(3) [symmetric])
    with b(1,2) show ?thesis unfolding octet_iff by blast
  next
    case 5
    then have b: "n - 250 \<le> 5" "n - 250 < 10" "n = 100 * 2 + 10 * 5 + (n - 250)" using n by simp_all
    have "show_nat (100 * 2 + 10 * 5 + (n - 250)) = [digit_char 2, digit_char 5, digit_char (n - 250)]"
      by (rule show_three) (use b(1,2) in simp_all)
    then have "show_nat n = [digit_char 2, digit_char 5, digit_char (n - 250)]" by (simp only: b(3) [symmetric])
    with b(1,2) show ?thesis unfolding octet_iff by blast
  qed
qed

text \<open>Four decimal numbers below 256, without leading zeros, joined by dots.\<close>

definition dotted_quad :: "string \<Rightarrow> bool" where
  "dotted_quad s \<longleftrightarrow> (\<exists>a b c d. a < 256 \<and> b < 256 \<and> c < 256 \<and> d < 256 \<and>
     s = show_nat a @ ''.'' @ show_nat b @ ''.'' @ show_nat c @ ''.'' @ show_nat d)"

lemma ip_re_iff: "re_test ip_re s \<longleftrightarrow> dotted_quad s"
proof
  assume "re_test ip_re s"
  then obtain a b c d where "s = a @ ''.'' @ b @ ''.'' @ c @ ''.'' @ d"
      "re_lang octet_re a" "re_lang octet_re b" "re_lang octet_re c" "re_lang octet_re d"
    by (auto simp: re_test_iff ip_re_def Let_def re_lang.simps(3))
  then show "dotted_quad s" unfolding dotted_quad_def by (metis octet_sound)
next
  assume "dotted_quad s"
  then obtain a b c d where q: "a < 256" "b < 256" "c < 256" "d < 256"
      "s = show_nat a @ ''.'' @ show_nat b @ ''.'' @ show_nat c @ ''.'' @ show_nat d"
    unfolding dotted_quad_def by blast
  have dot: "re_lang (Cls (\<lambda>c. c = CHR ''.'')) ''.''" by simp
  have cat: "re_lang r u \<Longrightarrow> re_lang r' v \<Longrightarrow> re_lang (Cat r r') (u @ v)" for r r' u v
    by (auto simp: re_lang.simps(3))
  show "re_test ip_re s"
    unfolding re_test_iff ip_re_def Let_def q(5)
    by (intro cat octet_complete q dot)
qed

lemma dotted_quad_float: "dotted_quad s \<Longrightarrow> float_prefix s"
proof -
  assume "dotted_quad s"
  then obtain a u where s: "s = show_nat a @ u" unfolding dotted_quad_def by blast
  obtain c cs where c: "show_nat a = c # cs" using show_nat_nonempty [of a] by (cases "show_nat a") auto
  then have "c \<in> set digits" using show_nat_digits [of a] by auto
  then have "\<not> is_ws c" "c \<noteq> CHR ''-''" "c \<noteq> CHR ''+''" using digits_not_ws by (auto simp: digits_def)
  then show ?thesis using \<open>c \<in> set digits\<close> by (simp add: s c float_prefix_def Let_def)
qed

lemma all_ips_iff: "all_ips ls \<longleftrightarrow> list_all dotted_quad ls"
  by (induction ls) (simp_all add: ip_re_iff)

text \<open>
  C23. Adding servers sends the list of lines exactly when every line of the trimmed text is a dotted
  quad, and otherwise sends nothing; the grid's own check accepts exactly the same addresses.
\<close>

theorem createip_request:
  assumes "blocked s = None" and "vals s ''iplist'' = Some (JStr input)"
    and "ls = split_at (CHR 0x0A) (trim input)"
  shows "sent (run s [Click createip]) = sent s @
      (if list_all dotted_quad ls then [json_post ''/serverInfo/createIp'' (JArr (map JStr ls))] else []) \<and>
    (fst (mycheck x) \<longleftrightarrow> dotted_quad x)"
proof
  show "sent (run s [Click createip]) = sent s @
      (if list_all dotted_quad ls then [json_post ''/serverInfo/createIp'' (JArr (map JStr ls))] else [])"
    using assms(1,2)
    by (simp add: createip_def Let_def nullish_def all_ips_iff list_all_iff assms(3) json_post_def)
  show "fst (mycheck x) \<longleftrightarrow> dotted_quad x"
    using dotted_quad_float by (auto simp: mycheck_def ip_re_iff)
qed

theorem createip_request_witness:
  "sent (run (empty_sys\<lparr>vals := (\<lambda>_. Some (JStr ''10.0.0.255''))\<rparr>) [Click createip]) =
     [json_post ''/serverInfo/createIp'' (JArr [JStr ''10.0.0.255''])] \<and> \<not> fst (mycheck ''10.0.0.256'')"
proof
  let ?s = "empty_sys\<lparr>vals := (\<lambda>_. Some (JStr ''10.0.0.255''))\<rparr>"
  have "trim ''10.0.0.255'' = ''10.0.0.255''" by (simp add: is_ws_def)
  then have ls: "split_at (CHR 0x0A) (trim ''10.0.0.255'') = [''10.0.0.255'']" by simp
  have "re_test ip_re ''10.0.0.255''" by code_simp
  then have "list_all dotted_quad [''10.0.0.255'']" by (simp add: ip_re_iff)
  moreover have "blocked ?s = None" "vals ?s ''iplist'' = Some (JStr ''10.0.0.255'')" "sent ?s = []"
    by (simp_all add: empty_sys_def)
  ultimately show "sent (run ?s [Click createip]) =
     [json_post ''/serverInfo/createIp'' (JArr [JStr ''10.0.0.255''])]"
    using createip_request [of ?s "''10.0.0.255''" "[''10.0.0.255'']"] ls by (simp del: run_simps)
  show "\<not> fst (mycheck ''10.0.0.256'')" by code_simp
qed

section \<open>Queries and results\<close>

lemma text_html_no_markup: "set (text_html c) \<inter> {CHR ''<'', CHR ''>''} = {}"
  by (simp add: text_html_def)

lemma html2Escape_plain: "CHR ''<'' \<notin> set v \<Longrightarrow> CHR ''>'' \<notin> set v \<Longrightarrow> html2Escape (JStr v) = JStr v"
  by (simp add: html2Escape_def index_of_single)

text \<open>
  C26. What the result grid shows of a text never holds an angle bracket, so that no value of the
  database becomes markup. But a text is escaped only when it has an angle bracket: the escaped form
  of such a value is itself left alone, so that the two different values look the same.
\<close>

theorem html2Escape_shows:
  "\<exists>w. html2Escape (JStr v) = JStr w \<and> set w \<inter> {CHR ''<'', CHR ''>''} = {} \<and>
     (w \<noteq> v \<longleftrightarrow> set v \<inter> {CHR ''<'', CHR ''>''} \<noteq> {}) \<and> html2Escape (JStr w) = html2Escape (JStr v)"
proof (cases "set v \<inter> {CHR ''<'', CHR ''>''} = {}")
  case True
  then have "html2Escape (JStr v) = JStr v" by (simp add: html2Escape_plain)
  with True show ?thesis by simp
next
  case False
  let ?w = "concat (map text_html v)"
  have "html2Escape (JStr v) = JStr ?w" using False by (auto simp: html2Escape_def index_of_single)
  moreover have w: "set ?w \<inter> {CHR ''<'', CHR ''>''} = {}" using text_html_no_markup by auto
  then have "html2Escape (JStr ?w) = JStr ?w" by (intro html2Escape_plain) auto
  moreover have "?w \<noteq> v" using w False by metis
  ultimately show ?thesis using False w by (intro exI [of _ ?w]) simp
qed

text \<open>The marked part of a statement is sent if there is one, otherwise the whole statement.\<close>

lemma btnQuery_sends:
  assumes "blocked s = None" and "vals s ''qrySql'' = Some (JStr q)" and "q \<noteq> []"
    and "vals s ''dbUserName'' = Some (JStr u)" and "u \<noteq> []" and "vals s ''dbPassWord'' = Some (JStr p)" and "p \<noteq> []"
    and "m = take (snd (cursor s ''qrySql'') - fst (cursor s ''qrySql'')) (drop (fst (cursor s ''qrySql'')) q)"
  shows "sent (run s [Click btnQuery]) = sent s @ [query_post (if m = [] then q else m)
    [answer (QVal ''dbName'') s, JStr u, JStr p, answer (QVal ''clusterId'') s]]"
  using assms(1-7)
  by (simp add: assms(8) btnQuery_def send_query_def query_post_def do_effect_def split: option.split)

end
