(* ===== verification/LegacyPages.thy ===== *)
theory LegacyPages
  imports Utils
begin

text \<open>
  The older metadata pages: the table forms with one HTML row per column (\<open>createtable.js\<close>,
  \<open>metadata.js\<close>), the database list with its SQL dialog (\<open>metadatacreatetable.js\<close>), the navigation
  of the other lists, ranges and nodes (\<open>createrange.js\<close>, \<open>metadatanodeview.js\<close>). The rows of a
  form are a list of records; a form handler takes that list as an argument. The jqGrid option
  objects are left out.
\<close>

section \<open>createtable.js and metadata.js: the form\<close>

record col_row =
  cr_id :: int
  cr_name :: string
  cr_dataType :: string
  cr_defaultValue :: string
  cr_primaryKey :: bool
  cr_nullable :: bool
  cr_autoincrement :: bool
  cr_rmark :: string

text \<open>\<open>extra\<close> counts the children of the form that are no rows, such as its heading.\<close>

record col_form =
  cf_extra :: nat
  cf_rows :: "col_row list"

text \<open>A new row: its boxes are checked, because the attribute \<open>checked\<close> is there, whatever its value.\<close>

definition addColumn :: "string \<Rightarrow> col_form \<Rightarrow> bool \<times> col_form" where
  "addColumn rmark f = (let len = int (cf_extra f + length (cf_rows f)) - 1 in
     if len > 20 then (False, f)
     else (True, f\<lparr>cf_rows := cf_rows f @ [\<lparr>cr_id = len, cr_name = [], cr_dataType = [], cr_defaultValue = [],
       cr_primaryKey = True, cr_nullable = True, cr_autoincrement = True, cr_rmark = rmark\<rparr>]\<rparr>))"

definition delColumn :: "int \<Rightarrow> col_form \<Rightarrow> col_form" where
  "delColumn index f = f\<lparr>cf_rows := filter (\<lambda>r. cr_id r \<noteq> index) (cf_rows f)\<rparr>"

text \<open>\<open>s.replace(p, "")\<close> with a string \<open>p\<close>: the first occurrence is taken out.\<close>

definition remove_first :: "string \<Rightarrow> string \<Rightarrow> string" where
  "remove_first p s = (case index_of p s of None \<Rightarrow> s | Some k \<Rightarrow> take k s @ drop (k + length p) s)"

datatype name_check = NamesOk | EmptyName | Repeated string

definition repeats :: "string list \<Rightarrow> string \<Rightarrow> bool" where
  "repeats names n = (let s = join '','' names @ '','' in index_of (n @ '','') (remove_first (n @ '','') s) \<noteq> None)"

definition checkRepetition :: "string list \<Rightarrow> name_check" where
  "checkRepetition names =
     (if list_ex (\<lambda>n. n = []) names then EmptyName
      else case find (repeats names) names of None \<Rightarrow> NamesOk | Some n \<Rightarrow> Repeated n)"

definition column_json :: "col_row \<Rightarrow> jsval" where
  "column_json r = JObj [(''name'', JStr (cr_name r)), (''datatype'', JStr (cr_dataType r)),
     (''primarykey'', JBool (cr_primaryKey r)), (''defaultvalue'', JStr (cr_defaultValue r)),
     (''nullable'', JBool (cr_nullable r)), (''autoincrement'', JBool (cr_autoincrement r)),
     (''rmark'', JStr (cr_rmark r)), (''index'', JBool True)]"

definition json_request :: "string \<Rightarrow> string \<Rightarrow> jsval \<Rightarrow> ajax_req" where
  "json_request u dt d = \<lparr>rq_url = u, rq_type = ''post'', rq_async = True,
     rq_ctype = ''application/json;charset=utf-8'', rq_dtype = dt, rq_data = d\<rparr>"

text \<open>Both callbacks alert and leave the page, whatever the server answered.\<close>

definition alert_and_go :: "string \<Rightarrow> string \<Rightarrow> jsval \<Rightarrow> prog" where
  "alert_and_go k page v = read_prop v k (\<lambda>m. Do (Alert m) (Do (Goto page) Done))"

definition legacy_createTable :: "col_row list \<Rightarrow> prog" where
  "legacy_createTable rs = Ask (QVal ''dbName'') (\<lambda>dbName. Ask (QVal ''name'') (\<lambda>name.
     Ask (QVal ''rangeNumber'') (\<lambda>rangeNumber. Ask (QVal ''peerNumber'') (\<lambda>peerNumber.
     Ajax (json_request ''/metadata/createTable'' ''json'' (JStr (json_str (JObj
         [(''columns'', JArr (map column_json rs)), (''peernumber'', peerNumber), (''rangenumber'', rangeNumber),
          (''dbName'', dbName), (''name'', name)]))))
       (alert_and_go ''message'' ''/metadata/viewCreateTable'')
       (alert_and_go ''responseText'' ''/metadata/viewCreateTable'') Done))))"

definition createBbTablesRange :: "col_row list \<Rightarrow> prog" where
  "createBbTablesRange rs = Ask (QVal ''dbName'') (\<lambda>dbName. Ask (QVal ''properties'') (\<lambda>properties.
     Ask (QVal ''name'') (\<lambda>name. Ask (QVal ''startkey'') (\<lambda>startkey. Ask (QVal ''endkey'') (\<lambda>endkey.
     Ask (QVal ''peernum'') (\<lambda>peernum.
     Ajax (json_request ''/metadata/createDbTableRange'' ''json'' (JStr (json_str (JObj
         [(''columns'', JArr (map column_json rs)),
          (''rangeObject'', JObj [(''startkey'', startkey), (''endkey'', endkey), (''peernum'', peernum)]),
          (''dbObject'', JObj [(''dbName'', dbName), (''properties'', properties), (''name'', name)])]))))
       (alert_and_go ''message'' ''/metadata/metadata'')
       (alert_and_go ''responseText'' ''/metadata/metadata'') Done))))))"

section \<open>createrange.js\<close>

definition creatRange :: prog where
  "creatRange = Ask (QVal ''db_name'') (\<lambda>dbName. Ask (QVal ''name'') (\<lambda>name. Ask (QVal ''startkey'') (\<lambda>startkey.
     Ask (QVal ''endkey'') (\<lambda>endkey. Ask (QVal ''peernum'') (\<lambda>peernum.
     Ajax (json_request (''/metadata/createRange?db_name='' @ js_str dbName @ ''&name='' @ js_str name @
         ''&startkey='' @ js_str startkey @ ''&endkey='' @ js_str endkey @ ''&peernum='' @ js_str peernum) [] JUndef)
       (alert_and_go ''message'' ''/metadata/viewCreateTable'')
       (alert_and_go ''responseText'' ''/metadata/viewCreateTable'') Done)))))"

section \<open>metadatacreatetable.js\<close>

definition legacy_db_buttons :: "jsval \<Rightarrow> string list" where
  "legacy_db_buttons row = (let dbId = prop_text row ''id''; dbName = prop_text row ''name'' in
     [''viewcreateTable('' @ dbId @ '','' @ quoted dbName @ '');'', ''viewsqlCreateTable('' @ dbId @ '');'',
      ''getTableInfo('' @ dbId @ '','' @ quoted dbName @ '');''])"

definition viewsqlCreateTable :: "jsval \<Rightarrow> prog" where
  "viewsqlCreateTable dbId = Do (SelectOnly ''db_table_list'' dbId) (Do (ModalShow ''sqlCreateTableDetail'') Done)"

text \<open>The row data is that of the selected row, an empty object when no row is selected.\<close>

definition saveSqlCreateTable :: prog where
  "saveSqlCreateTable = Ask (QVal ''clusterId'') (\<lambda>clusterId. Ask (QVal ''sql'') (\<lambda>sql.
     Ask (QSelections ''db_table_list'') (\<lambda>sel. let rowData = (case elems sel of [] \<Rightarrow> JObj [] | r # _ \<Rightarrow> r) in
     ask_confirm ''create table?'' [] ''warning''
       (read_prop rowData ''name'' (\<lambda>dbName.
          Ajax (form_post ''/metadata/sqlCreateTable'' [(''dbName'', dbName), (''sql'', sql), (''clusterId'', clusterId)])
            (on_reply (swal3 ''created'' (JStr ''table created'') ''success'' Done) ''creating the table failed'')
            (show_failure ''creating the table failed'') Done))
       Done)))"

definition goto_db :: "string \<Rightarrow> string \<Rightarrow> string \<Rightarrow> prog" where
  "goto_db page dbId dbName = Ask (QVal ''clusterId'') (\<lambda>clusterId.
     Do (Goto (page @ ''?dbName='' @ dbName @ ''&dbId='' @ dbId @ ''&clusterId='' @ js_str clusterId)) Done)"

definition viewcreateTable :: "string \<Rightarrow> string \<Rightarrow> prog" where
  "viewcreateTable = goto_db ''/page/metadata/createtable''"

definition legacy_getTableInfo :: "string \<Rightarrow> string \<Rightarrow> prog" where
  "legacy_getTableInfo = goto_db ''/page/tables/tablelist''"

section \<open>metadataconsole.js and metadatadbview.js\<close>

definition legacy_viewConsole :: "string \<Rightarrow> string \<Rightarrow> prog" where
  "legacy_viewConsole dbId dbName = Do (Goto (''/console/viewConsole?dbName='' @ dbName @ ''&dbId='' @ dbId)) Done"

definition console_viewcreateTable :: "string \<Rightarrow> string \<Rightarrow> prog" where
  "console_viewcreateTable = goto_db ''/metadata/viewCreateTable''"

definition console_getTableInfo :: "string \<Rightarrow> string \<Rightarrow> prog" where
  "console_getTableInfo = goto_db ''/page/tables/tablelist''"

definition dbview_getTableInfo :: "string \<Rightarrow> string \<Rightarrow> prog" where
  "dbview_getTableInfo dbId dbName =
     Do (Goto (''/metadata/viewDataBaseTablesInfo?dbName='' @ dbName @ ''&dbId='' @ dbId)) Done"

definition dbview_viewConsole :: "string \<Rightarrow> string \<Rightarrow> prog" where
  "dbview_viewConsole dbId dbName = Do (Goto (''/console/viewConsole?dbName='' @ dbName @ ''&dbId='' @ dbId)) Done"

section \<open>metadatadbtablesview.js\<close>

text \<open>The handler reads a variable \<open>space\<close> that does not exist, and so always fails.\<close>

definition toggleAutoMigrate :: prog where
  "toggleAutoMigrate = Ask (QVal ''clusterId'') (\<lambda>_. Throw (ReferenceError ''space''))"

definition state_text :: "jsval \<Rightarrow> jsval" where
  "state_text v = (if js_eq v (JNum 0) then JStr ''not available'' else if js_eq v (JNum 1) then JStr ''initialising''
     else if js_eq v (JNum 2) then JStr ''normal'' else if js_eq v (JNum 3) then JStr ''deleted'' else JUndef)"

definition goto_named :: "string \<Rightarrow> string \<Rightarrow> string \<Rightarrow> string \<Rightarrow> string \<Rightarrow> prog" where
  "goto_named page k1 k2 db name = Ask (QVal ''clusterId'') (\<lambda>clusterId.
     Do (Goto (page @ ''?'' @ k1 @ ''='' @ db @ ''&'' @ k2 @ ''='' @ name @ ''&clusterId='' @ js_str clusterId)) Done)"

definition legacy_getTableEditView :: "string \<Rightarrow> string \<Rightarrow> prog" where
  "legacy_getTableEditView = goto_named ''/metadata/viewEditTable'' ''dbName'' ''tableName''"

definition legacy_viewRangePage :: "string \<Rightarrow> string \<Rightarrow> prog" where
  "legacy_viewRangePage = goto_named ''/range/viewRangeInfo'' ''db_name'' ''name''"

definition legacy_getColumnsView :: "string \<Rightarrow> string \<Rightarrow> prog" where
  "legacy_getColumnsView = goto_named ''/page/metadata/viewTableColumns'' ''db_name'' ''name''"

definition legacy_getTableMonitorInfo :: "string \<Rightarrow> string \<Rightarrow> string \<Rightarrow> prog" where
  "legacy_getTableMonitorInfo dbName tableId tableName = Ask (QVal ''clusterId'') (\<lambda>clusterId.
     Do (Goto (''/monitor/viewTableMonitor?dbName='' @ dbName @ ''&tableName='' @ tableName @ ''&tableId='' @ tableId @
       ''&clusterId='' @ js_str clusterId)) Done)"

section \<open>metadatanodeview.js\<close>

definition updateNodeId :: "jsval \<Rightarrow> prog" where
  "updateNodeId nodeId =
     ask_input ''upgrade?'' ''an upgrade cannot be undone''
       (\<lambda>inputValue.
        if js_seq inputValue (JBool False) then Done
        else if js_seq inputValue (JStr []) then Do (InputError (JStr ''enter a version'')) Done
        else Ajax (form_post ''/node/upGrade'' [(''nodeId'', nodeId), (''serverVersion'', inputValue)])
          (\<lambda>data. if_code0 data
             (swal3 ''upgraded'' (JStr ''upgraded to the newest version'') ''success'' (Do (RemoveEl ''updatenode'') Done))
             Done)
          (call_admin ''upgrade failed'') Done)
       Done"

section \<open>Confirmation\<close>

definition legacy_handlers :: "prog set" where
  "legacy_handlers = {creatRange, saveSqlCreateTable, toggleAutoMigrate} \<union>
     range viewsqlCreateTable \<union> range updateNodeId \<union> range legacy_createTable \<union> range createBbTablesRange \<union>
     {p. \<exists>a b. p \<in> {viewcreateTable a b, legacy_getTableInfo a b, legacy_viewConsole a b, console_viewcreateTable a b,
        console_getTableInfo a b, dbview_getTableInfo a b, dbview_viewConsole a b, legacy_getTableEditView a b,
        legacy_viewRangePage a b, legacy_getColumnsView a b}} \<union>
     {p. \<exists>a b c. p = legacy_getTableMonitorInfo a b c}"

definition legacy_changes :: "string list" where
  "legacy_changes = [''/metadata/sqlCreateTable'', ''/node/upGrade'']"

lemmas legacy_defs = creatRange_def saveSqlCreateTable_def toggleAutoMigrate_def viewsqlCreateTable_def
  updateNodeId_def legacy_createTable_def createBbTablesRange_def viewcreateTable_def legacy_getTableInfo_def
  legacy_viewConsole_def console_viewcreateTable_def console_getTableInfo_def dbview_getTableInfo_def
  dbview_viewConsole_def legacy_getTableEditView_def legacy_viewRangePage_def legacy_getColumnsView_def
  legacy_getTableMonitorInfo_def goto_db_def goto_named_def alert_and_go_def json_request_def to_paths_def

interpretation legacy_page: confirmed_page legacy_handlers "to_paths legacy_changes"
  by unfold_locales
    (auto simp: legacy_handlers_def legacy_defs legacy_changes_def disc_simps js_seq_def Let_def)

section \<open>Repeated column names\<close>

text \<open>The text the check looks at: every name with a comma after it.\<close>

definition name_text :: "string list \<Rightarrow> string" where
  "name_text names = concat (map (\<lambda>n. n @ '','') names)"

lemma name_text_simps [simp]:
  "name_text [] = []" "name_text (n # ns) = n @ CHR '','' # name_text ns" "name_text (as @ bs) = name_text as @ name_text bs"
  by (simp_all add: name_text_def)

lemma join_name_text: "names \<noteq> [] \<Longrightarrow> join '','' names @ '','' = name_text names"
  by (induction names rule: induct_list012) simp_all

lemma index_of_SomeD:
  "index_of p s = Some k \<Longrightarrow> prefix p (drop k s) \<and> (\<forall>j < k. \<not> prefix p (drop j s))"
proof (induction p s arbitrary: k rule: index_of.induct)
  case (2 p c cs)
  show ?case
  proof (cases "prefix p (c # cs)")
    case False
    then obtain i where i: "k = Suc i" "index_of p cs = Some i" using "2.prems" by auto
    with 2 False have "prefix p (drop i cs)" "\<forall>j < i. \<not> prefix p (drop j cs)" by blast+
    with False i(1) show ?thesis by (auto simp: less_Suc_eq_0_disj)
  qed (use "2.prems" in auto)
qed (auto split: if_splits)

lemma split_unique: "c \<notin> set a \<Longrightarrow> c \<notin> set b \<Longrightarrow> a @ c # x = b @ c # y \<Longrightarrow> a = b \<and> x = y"
proof (induction a arbitrary: b)
  case Nil
  then show ?case by (cases b) auto
next
  case (Cons d a)
  then show ?case by (cases b) auto
qed

text \<open>Where a comma-free name with a comma can stand: at the end of one of the names.\<close>

lemma first_comma:
  assumes "CHR '','' \<notin> set m" and "CHR '','' \<notin> set n" and "m @ CHR '','' # rest = u @ n @ CHR '','' # v"
  shows "(m = u @ n \<and> rest = v) \<or> (\<exists>w. u = m @ CHR '','' # w \<and> rest = w @ n @ CHR '','' # v)"
proof (cases "CHR '','' \<in> set u")
  case True
  then obtain a w where u: "u = a @ CHR '','' # w" "CHR '','' \<notin> set a" by (metis split_list_first)
  then have "m @ CHR '','' # rest = a @ CHR '','' # w @ n @ CHR '','' # v" using assms(3) by simp
  then have "m = a \<and> rest = w @ n @ CHR '','' # v" using split_unique [OF assms(1) u(2)] by blast
  then show ?thesis using u(1) by blast
next
  case False
  then have "CHR '','' \<notin> set (u @ n)" using assms(2) by simp
  moreover have "m @ CHR '','' # rest = (u @ n) @ CHR '','' # v" using assms(3) by simp
  ultimately show ?thesis using split_unique [OF assms(1)] by blast
qed

lemma name_at:
  assumes "\<forall>m \<in> set names. CHR '','' \<notin> set m" and "CHR '','' \<notin> set n"
    and "name_text names = u @ n @ CHR '','' # v"
  shows "\<exists>as m bs q. names = as @ m # bs \<and> m = q @ n \<and> u = name_text as @ q \<and> v = name_text bs"
  using assms
proof (induction names arbitrary: u)
  case (Cons m names)
  then consider "m = u @ n" "name_text names = v"
    | w where "u = m @ CHR '','' # w" "name_text names = w @ n @ CHR '','' # v"
    using first_comma [of m n "name_text names" u v] by auto
  then show ?case
  proof cases
    case 1
    then show ?thesis by (intro exI [of _ "[]"] exI [of _ m] exI [of _ names] exI [of _ u]) simp
  next
    case 2
    with Cons obtain as m' bs q where "names = as @ m' # bs" "m' = q @ n" "w = name_text as @ q" "v = name_text bs"
      by auto
    then show ?thesis using 2 by (intro exI [of _ "m # as"] exI [of _ m'] exI [of _ bs] exI [of _ q]) simp
  qed
qed simp

lemma name_occurs:
  assumes "\<forall>m \<in> set names. CHR '','' \<notin> set m" and "CHR '','' \<notin> set n"
  shows "sublist (n @ '','') (name_text names) \<longleftrightarrow> (\<exists>m \<in> set names. suffix n m)"
proof
  assume "sublist (n @ '','') (name_text names)"
  then obtain u v where "name_text names = u @ n @ CHR '','' # v" by (auto simp: sublist_def)
  from name_at [OF assms this] show "\<exists>m \<in> set names. suffix n m" by (auto simp: suffix_def)
next
  assume "\<exists>m \<in> set names. suffix n m"
  then obtain m q where "m \<in> set names" "m = q @ n" by (auto simp: suffix_def)
  then obtain as bs where "names = as @ (q @ n) # bs" by (meson split_list)
  then have "name_text names = (name_text as @ q) @ (n @ '','') @ name_text bs" by simp
  then show "sublist (n @ '','') (name_text names)" unfolding sublist_def by blast
qed

text \<open>What is left after the first occurrence has been taken out.\<close>

lemma remove_first_name:
  assumes "\<forall>m \<in> set names. CHR '','' \<notin> set m" and "n \<in> set names"
  shows "\<exists>as q bs. names = as @ (q @ n) # bs \<and> (\<forall>a \<in> set as. \<not> suffix n a) \<and>
    remove_first (n @ '','') (name_text names) = name_text as @ q @ name_text bs"
proof -
  have n: "CHR '','' \<notin> set n" using assms by blast
  have "sublist (n @ '','') (name_text names)" using name_occurs [OF assms(1) n] assms(2) by blast
  then obtain k where k: "index_of (n @ '','') (name_text names) = Some k"
    using index_of_None_iff [of "n @ '',''" "name_text names"] by blast
  from index_of_SomeD [OF this] obtain v where v: "drop k (name_text names) = (n @ '','') @ v"
    and least: "\<forall>j < k. \<not> prefix (n @ '','') (drop j (name_text names))" unfolding prefix_def by blast
  have "name_text names = take k (name_text names) @ n @ CHR '','' # v"
    using append_take_drop_id [of k "name_text names"] v by simp
  from name_at [OF assms(1) n this] obtain as q bs where s: "names = as @ (q @ n) # bs"
    "take k (name_text names) = name_text as @ q" "v = name_text bs" by blast
  have "k \<le> length (name_text names)" using v by (metis append_is_Nil_conv drop_all linorder_le_cases not_Cons_self2)
  then have len: "k = length (name_text as @ q)" using s(2) by (metis length_take min.absorb2)
  have "\<not> suffix n a" if a: "a \<in> set as" for a
  proof
    assume "suffix n a"
    then obtain p where "a = p @ n" by (auto simp: suffix_def)
    moreover obtain as1 as2 where "as = as1 @ a # as2" using a by (meson split_list)
    ultimately have "name_text names = (name_text as1 @ p) @ (n @ '','') @ name_text as2 @ name_text ((q @ n) # bs)"
      and "length (name_text as1 @ p) < k" using s(1) len by simp_all
    moreover have "prefix (n @ '','') (drop (length (name_text as1 @ p)) (name_text names))"
      unfolding calculation(1) by simp
    ultimately show False using least by blast
  qed
  moreover have "remove_first (n @ '','') (name_text names) = name_text as @ q @ name_text bs"
  proof -
    have "drop (k + length (n @ '','')) (name_text names) = v" using v by (metis add.commute append_eq_conv_conj drop_drop)
    then show ?thesis using k s(2,3) by (simp add: remove_first_def)
  qed
  ultimately show ?thesis using s(1) by blast
qed

lemma repeats_iff:
  assumes "\<forall>m \<in> set names. CHR '','' \<notin> set m" and "i < length names"
  shows "repeats names (names ! i) \<longleftrightarrow> (\<exists>j < length names. j \<noteq> i \<and> suffix (names ! i) (names ! j))"
proof -
  let ?n = "names ! i"
  have n: "?n \<in> set names" "CHR '','' \<notin> set ?n" using assms by simp_all
  obtain as q bs where s: "names = as @ (q @ ?n) # bs" "\<forall>a \<in> set as. \<not> suffix ?n a"
      "remove_first (?n @ '','') (name_text names) = name_text as @ q @ name_text bs"
    using remove_first_name [OF assms(1) n(1)] by blast
  have "names \<noteq> []" using assms(2) by auto
  then have rep: "repeats names ?n \<longleftrightarrow> sublist (?n @ '','') (name_text as @ q @ name_text bs)"
    by (simp add: repeats_def Let_def join_name_text s(3) index_of_None_iff)
  have at: "names ! length as = q @ ?n" by (subst s(1)) simp
  have "length as \<le> i"
  proof (rule ccontr)
    assume i: "\<not> length as \<le> i"
    then have "?n = as ! i" by (subst s(1)) (simp add: nth_append)
    then have "?n \<in> set as" using i by simp
    then show False using s(2) by blast
  qed
  then consider "i = length as" | "length as < i" by linarith
  then show ?thesis
  proof cases
    case 1
    then have q: "q = []" using at by simp
    have sub: "\<forall>m \<in> set (as @ bs). CHR '','' \<notin> set m" using assms(1) s(1) by (metis Un_iff set_append set_subset_Cons subsetD)
    have "repeats names ?n \<longleftrightarrow> (\<exists>m \<in> set bs. suffix ?n m)"
      using rep q name_occurs [OF sub n(2)] s(2) by auto
    also have "\<dots> \<longleftrightarrow> (\<exists>j < length names. j \<noteq> i \<and> suffix ?n (names ! j))"
    proof
      assume "\<exists>m \<in> set bs. suffix ?n m"
      then obtain k where "k < length bs" "suffix ?n (bs ! k)" by (metis in_set_conv_nth)
      moreover have "names ! (Suc (length as) + k) = bs ! k" "length names = Suc (length as + length bs)"
        by (subst s(1), simp add: nth_append)+
      ultimately show "\<exists>j < length names. j \<noteq> i \<and> suffix ?n (names ! j)"
        using 1 by (intro exI [of _ "Suc (length as) + k"]) simp
    next
      assume "\<exists>j < length names. j \<noteq> i \<and> suffix ?n (names ! j)"
      then obtain j where j: "j < length names" "j \<noteq> length as" "suffix ?n (names ! j)" using 1 by blast
      then have "names ! j \<in> set as \<or> names ! j \<in> set bs" by (subst (1 2) s(1)) (subst (asm) (1) s(1), auto simp: nth_append nth_Cons')
      then show "\<exists>m \<in> set bs. suffix ?n m" using s(2) j(3) by blast
    qed
    finally show ?thesis .
  next
    case 2
    then have "?n = bs ! (i - Suc (length as))" by (subst s(1)) (simp add: nth_append nth_Cons')
    moreover have "i - Suc (length as) < length bs"
      using assms(2) arg_cong [OF s(1), of length] 2 by simp
    ultimately have "?n \<in> set bs" by (metis nth_mem)
    then obtain xs ys where "bs = xs @ ?n # ys" by (meson split_list)
    then have "name_text as @ q @ name_text bs = (name_text as @ q @ name_text xs) @ (?n @ '','') @ name_text ys"
      by (metis append.assoc append_Cons append_Nil name_text_simps(2,3))
    then have "repeats names ?n" unfolding rep sublist_def by blast
    moreover have "length as < length names" "suffix ?n (names ! length as)"
      using arg_cong [OF s(1), of length] at by (simp_all add: suffix_def)
    ultimately show ?thesis using 2 by blast
  qed
qed

text \<open>
  C39. The check of the column names reports a repetition exactly when one column's name is a suffix
  of another's. So it finds every repeated name, but also refuses forms without one: next to a
  column \<open>user_id\<close> no column may be called \<open>id\<close>.
\<close>

theorem checkRepetition_suffixes:
  assumes "\<forall>n \<in> set names. n \<noteq> [] \<and> CHR '','' \<notin> set n"
  shows "checkRepetition names = NamesOk \<longleftrightarrow>
    \<not> (\<exists>i < length names. \<exists>j < length names. j \<noteq> i \<and> suffix (names ! i) (names ! j))"
proof -
  have "\<not> list_ex (\<lambda>n. n = []) names" using assms by (auto simp: list_ex_iff)
  then have "checkRepetition names = NamesOk \<longleftrightarrow> find (repeats names) names = None"
    by (cases "find (repeats names) names") (simp_all add: checkRepetition_def)
  also have "\<dots> \<longleftrightarrow> (\<forall>n \<in> set names. \<not> repeats names n)" by (auto simp: find_None_iff)
  also have "\<dots> \<longleftrightarrow> (\<forall>i < length names. \<not> repeats names (names ! i))" by (simp add: all_set_conv_all_nth)
  also have "\<dots> \<longleftrightarrow> \<not> (\<exists>i < length names. \<exists>j < length names. j \<noteq> i \<and> suffix (names ! i) (names ! j))"
    using repeats_iff [of names] assms by blast
  finally show ?thesis .
qed

theorem checkRepetition_suffixes_witness:
  "checkRepetition [''user_id'', ''id''] \<noteq> NamesOk \<and> checkRepetition [''user_id'', ''name''] = NamesOk"
proof
  let ?ns = "[''user_id'', ''id'']"
  have "suffix (?ns ! 1) (?ns ! 0)" by (simp add: suffix_def)
  then have "\<exists>i < length ?ns. \<exists>j < length ?ns. j \<noteq> i \<and> suffix (?ns ! i) (?ns ! j)"
    by (intro exI [of _ 1] exI [of _ 0] conjI) simp_all
  moreover have "\<forall>n \<in> set ?ns. n \<noteq> [] \<and> CHR '','' \<notin> set n" by simp
  ultimately show "checkRepetition ?ns \<noteq> NamesOk" using checkRepetition_suffixes by blast
  show "checkRepetition [''user_id'', ''name''] = NamesOk" by code_simp
qed

end
