(* ===== verification/PickerDates.thy ===== *)
theory PickerDates
  imports JsDate Utils "HOL-Library.While_Combinator"
begin

text \<open>
  The part of \<open>plugins/datapicker/bootstrap-datetimepicker.js\<close> that computes with dates and has no
  state: \<open>DPGlobal\<close> (\<open>isLeapYear\<close>, \<open>getDaysInMonth\<close>, \<open>parseFormat\<close>, \<open>parseDate\<close>, \<open>formatDate\<close>,
  \<open>convertViewMode\<close>) for the format type \<open>standard\<close> and the language \<open>en\<close>, which are the ones the
  pages use, and the methods \<open>moveMinute\<close> to \<open>moveYear\<close>. A computation returns, throws, or hangs:
  the loops of the source are \<open>while_option\<close> loops, and a loop that never ends is \<open>Hangs\<close>. The
  clock and the time zone of the host are parameters.
\<close>

section \<open>Computations\<close>

datatype 'a exec = Returned 'a | Thrown string | Hangs

fun exec_bind :: "'a exec \<Rightarrow> ('a \<Rightarrow> 'b exec) \<Rightarrow> 'b exec" where
  "exec_bind (Returned x) f = f x"
| "exec_bind (Thrown e) f = Thrown e"
| "exec_bind Hangs f = Hangs"

definition loop :: "('s \<Rightarrow> bool) \<Rightarrow> ('s \<Rightarrow> 's) \<Rightarrow> 's \<Rightarrow> 's exec" where
  "loop b c s = (case while_option b c s of None \<Rightarrow> Hangs | Some s' \<Rightarrow> Returned s')"

lemma loop_unfold: "loop b c s = (if b s then loop b c (c s) else Returned s)"
  unfolding loop_def by (subst while_option_unfold) simp

text \<open>A loop whose body gives back the state it started from never ends.\<close>

lemma loop_stuck:
  assumes "b s" and "c s = s"
  shows "loop b c s = Hangs"
proof -
  have "(c ^^ k) s = s" for k by (induction k) (simp_all add: assms(2))
  then show ?thesis by (simp add: loop_def while_option_def assms(1))
qed

section \<open>Numbers\<close>

text \<open>\<open>===\<close>, \<open><\<close> and \<open><=\<close> on numbers and dates: false if \<open>NaN\<close> takes part.\<close>

definition same_num :: "num \<Rightarrow> num \<Rightarrow> bool" where
  "same_num a b \<longleftrightarrow> (case (a, b) of (Some x, Some y) \<Rightarrow> x = y | _ \<Rightarrow> False)"

definition num_less :: "num \<Rightarrow> num \<Rightarrow> bool" where
  "num_less a b \<longleftrightarrow> (case (a, b) of (Some x, Some y) \<Rightarrow> x < y | _ \<Rightarrow> False)"

definition num_leq :: "num \<Rightarrow> num \<Rightarrow> bool" where
  "num_leq a b \<longleftrightarrow> (case (a, b) of (Some x, Some y) \<Rightarrow> x \<le> y | _ \<Rightarrow> False)"

definition plus_num :: "num \<Rightarrow> int \<Rightarrow> num" where
  "plus_num a k = map_option (\<lambda>x. x + k) a"

definition num_str :: "num \<Rightarrow> string" where
  "num_str a = (case a of None \<Rightarrow> ''NaN'' | Some x \<Rightarrow> show_int x)"

text \<open>\<open>(v < 10 ? '0' : '') + v\<close>\<close>

definition two_digits :: "num \<Rightarrow> string" where
  "two_digits a = (if num_less a (Some 10) then ''0'' else []) @ num_str a"

text \<open>\<open>parseInt(s, 10)\<close>\<close>

definition parseInt10 :: "string \<Rightarrow> num" where
  "parseInt10 s =
     (let t = dropWhile is_ws s;
          neg = (t \<noteq> [] \<and> hd t = CHR ''-'');
          u = (if t \<noteq> [] \<and> (hd t = CHR ''-'' \<or> hd t = CHR ''+'') then tl t else t)
      in map_option (\<lambda>n. if neg then - int n else int n) (read_nat (takeWhile (\<lambda>c. c \<in> set digits) u)))"

section \<open>DPGlobal\<close>

definition months :: "string list" where
  "months = [''January'', ''February'', ''March'', ''April'', ''May'', ''June'', ''July'', ''August'',
     ''September'', ''October'', ''November'', ''December'']"

definition monthsShort :: "string list" where
  "monthsShort = [''Jan'', ''Feb'', ''Mar'', ''Apr'', ''May'', ''Jun'', ''Jul'', ''Aug'', ''Sep'',
     ''Oct'', ''Nov'', ''Dec'']"

definition week_days :: "string list" where
  "week_days = [''Sunday'', ''Monday'', ''Tuesday'', ''Wednesday'', ''Thursday'', ''Friday'',
     ''Saturday'', ''Sunday'']"

definition daysShort :: "string list" where
  "daysShort = [''Sun'', ''Mon'', ''Tue'', ''Wed'', ''Thu'', ''Fri'', ''Sat'', ''Sun'']"

definition meridiem :: "string list" where
  "meridiem = [''am'', ''pm'']"

definition isLeapYear :: "int \<Rightarrow> bool" where
  "isLeapYear year \<longleftrightarrow> year mod 4 = 0 \<and> year mod 100 \<noteq> 0 \<or> year mod 400 = 0"

text \<open>An index outside the array gives \<open>undefined\<close>.\<close>

definition getDaysInMonth :: "int \<Rightarrow> int \<Rightarrow> num" where
  "getDaysInMonth year month =
     (if 0 \<le> month \<and> month < 12
      then Some ([31, if isLeapYear year then 29 else 28, 31, 30, 31, 30, 31, 31, 30, 31, 30, 31] ! nat month)
      else None)"

definition getDefaultFormat :: "string \<Rightarrow> string" where
  "getDefaultFormat field = (if field = ''input'' then ''yyyy-mm-dd hh:ii'' else ''yyyy-mm-dd hh:ii:ss'')"

text \<open>The length of the match of \<open>validParts('standard')\<close> at the head of a text, 0 for no match.\<close>

definition part_len :: "string \<Rightarrow> nat" where
  "part_len s = (case s of [] \<Rightarrow> 0 | c # cs \<Rightarrow>
     if c \<in> set ''tpPzZ'' then 1
     else if c \<in> set ''hHisdDmM'' then (if prefix [c] cs then 2 else 1)
     else if prefix ''yyyy'' s then 4 else if prefix ''yy'' s then 2 else 0)"

record date_format =
  separators :: "string list"
  parts :: "string list"

text \<open>
  The texts between the matches and the matches. The source puts the character 0 in place of the
  matches and splits there, so a 0 of the format itself separates too.
\<close>

fun split_format :: "string \<Rightarrow> string \<Rightarrow> string list \<times> string list" where
  "split_format acc [] = ([acc], [])"
| "split_format acc (c # cs) =
     (let n = part_len (c # cs)
      in if n = 0
         then if c = CHR 0x00 then (let (ss, ps) = split_format [] cs in (acc # ss, ps))
              else split_format (acc @ [c]) cs
         else (let (ss, ps) = split_format [] (drop (n - 1) cs) in (acc # ss, take n (c # cs) # ps)))"

definition parseFormat :: "string \<Rightarrow> date_format exec" where
  "parseFormat format =
     (let (ss, ps) = split_format [] format
      in if ps = [] then Thrown ''Invalid date format.'' else Returned \<lparr>separators = ss, parts = ps\<rparr>)"

definition convertViewMode :: "jsval \<Rightarrow> jsval" where
  "convertViewMode viewMode =
     (if viewMode = JNum 4 \<or> viewMode = JStr ''decade'' then JNum 4
      else if viewMode = JNum 3 \<or> viewMode = JStr ''year'' then JNum 3
      else if viewMode = JNum 2 \<or> viewMode = JStr ''month'' then JNum 2
      else if viewMode = JNum 1 \<or> viewMode = JStr ''day'' then JNum 1
      else if viewMode = JNum 0 \<or> viewMode = JStr ''hour'' then JNum 0
      else viewMode)"

section \<open>Moving a date\<close>

definition moveMinute :: "int \<Rightarrow> jsdate \<Rightarrow> int \<Rightarrow> jsdate" where
  "moveMinute minuteStep date dir =
     (if dir = 0 then date else setUTCMinutes (plus_num (getUTCMinutes date) (dir * minuteStep)) date)"

definition moveHour :: "jsdate \<Rightarrow> int \<Rightarrow> jsdate" where
  "moveHour date dir = (if dir = 0 then date else setUTCHours (plus_num (getUTCHours date) dir) date)"

definition moveDate :: "jsdate \<Rightarrow> int \<Rightarrow> jsdate" where
  "moveDate date dir = (if dir = 0 then date else setUTCDate (plus_num (getUTCDate date) dir) date)"

text \<open>The common date-resetting loop at the end of \<open>moveMonth\<close>.\<close>

definition reset_day :: "(jsdate \<Rightarrow> bool) \<Rightarrow> num \<Rightarrow> jsdate \<Rightarrow> num \<Rightarrow> jsdate exec" where
  "reset_day test new_month new_date day =
     exec_bind (loop (\<lambda>(d, _). test d)
       (\<lambda>(d, n). let n' = plus_num n (- 1) in (setUTCMonth new_month (setUTCDate n' d), n'))
       (new_date, day)) (\<lambda>(d, _). Returned d)"

definition wrap_month :: "int \<Rightarrow> int" where
  "wrap_month m = (if m < 0 \<or> m > 11 then (m + 12) mod 12 else m)"

text \<open>\<open>moveMonth\<close> by one month, \<open>dir\<close> being 1 or -1.\<close>

definition move_one_month :: "int \<Rightarrow> jsdate \<Rightarrow> jsdate exec" where
  "move_one_month dir date =
     (let day = getUTCDate date; month = getUTCMonth date;
          new_month = plus_num month dir;
          new_date = setUTCMonth new_month date;
          new_month = map_option wrap_month new_month;
          test = (if dir = - 1 then (\<lambda>d. same_num (getUTCMonth d) month)
                  else (\<lambda>d. \<not> same_num (getUTCMonth d) new_month))
      in reset_day test new_month new_date day)"

primrec move_months :: "nat \<Rightarrow> int \<Rightarrow> jsdate \<Rightarrow> jsdate exec" where
  "move_months 0 dir date = Returned date"
| "move_months (Suc n) dir date = exec_bind (move_one_month dir date) (move_months n dir)"

definition moveMonth :: "jsdate \<Rightarrow> int \<Rightarrow> jsdate exec" where
  "moveMonth date dir =
     (if dir = 0 then Returned date
      else let mag = \<bar>dir\<bar>; dir = (if dir > 0 then 1 else - 1)
        in if mag = 1 then move_one_month dir date
           else exec_bind (move_months (nat mag) dir date) (\<lambda>new_date.
             let new_month = getUTCMonth new_date
             in reset_day (\<lambda>d. \<not> same_num new_month (getUTCMonth d)) new_month
                  (setUTCDate (getUTCDate date) new_date) (getUTCDate date)))"

definition moveYear :: "jsdate \<Rightarrow> int \<Rightarrow> jsdate exec" where
  "moveYear date dir = moveMonth date (dir * 12)"

section \<open>Reading a date\<close>

datatype date_arg = DText string | DDate jsdate | DNull

text \<open>The runs of \<open>nonpunctuation\<close> characters.\<close>

definition nonpunct :: "char \<Rightarrow> bool" where
  "nonpunct c \<longleftrightarrow>
     (let n = of_char c :: nat
      in \<not> (32 \<le> n \<and> n \<le> 47 \<or> 58 \<le> n \<and> n \<le> 64 \<or> 91 \<le> n \<and> n \<le> 96 \<or> 123 \<le> n \<and> n \<le> 126 \<or>
            n = 9 \<or> n = 10 \<or> n = 13 \<or> c = CHR ''T'' \<or> c = CHR ''Z''))"

function runs :: "string \<Rightarrow> string list" where
  "runs [] = []"
| "runs (c # cs) =
     (if nonpunct c then (c # takeWhile nonpunct cs) # runs (dropWhile nonpunct cs) else runs cs)"
  by pat_completeness auto
termination
  by (relation "measure length") (auto simp: le_imp_less_Suc length_dropWhile_le)

text \<open>\<open>\d{lo,hi}\<close> before a character that is no digit: the text after the digits.\<close>

definition skip_digits :: "nat \<Rightarrow> nat \<Rightarrow> string \<Rightarrow> string option" where
  "skip_digits lo hi s =
     (let ds = takeWhile (\<lambda>c. c \<in> set digits) s
      in if lo \<le> length ds \<and> length ds \<le> hi then Some (drop (length ds) s) else None)"

definition skip_char :: "string \<Rightarrow> string \<Rightarrow> string option" where
  "skip_char cs s = (case s of [] \<Rightarrow> None | c # s' \<Rightarrow> if c \<in> set cs then Some s' else None)"

fun skip_all :: "(string \<Rightarrow> string option) list \<Rightarrow> string \<Rightarrow> string option" where
  "skip_all [] s = Some s"
| "skip_all (f # fs) s = Option.bind (f s) (skip_all fs)"

definition ymd_re :: "(string \<Rightarrow> string option) list" where
  "ymd_re = [skip_digits 4 4, skip_char ''-'', skip_digits 1 2, skip_char ''-'', skip_digits 1 2]"

definition hm_re :: "(string \<Rightarrow> string option) list" where
  "hm_re = [skip_char ''T '', skip_digits 1 2, skip_char '':'', skip_digits 1 2]"

definition s_re :: "(string \<Rightarrow> string option) list" where
  "s_re = [skip_char '':'', skip_digits 1 2]"

text \<open>The format the text itself asks for, by the three numeric patterns.\<close>

definition text_format :: "string \<Rightarrow> string option" where
  "text_format s =
     (if skip_all (ymd_re @ hm_re @ s_re) s \<in> {Some [], Some ''Z''} then Some ''yyyy-mm-dd hh:ii:ss''
      else if skip_all (ymd_re @ hm_re) s = Some [] then Some ''yyyy-mm-dd hh:ii''
      else if skip_all ymd_re s = Some [] then Some ''yyyy-mm-dd'' else None)"

text \<open>A relative text \<open>+1d, -2m ...\<close>: its steps.\<close>

definition rel_item :: "string \<Rightarrow> ((int \<times> char) \<times> string) option" where
  "rel_item s = (case s of [] \<Rightarrow> None | c # cs \<Rightarrow>
     let ds = takeWhile (\<lambda>c. c \<in> set digits) cs; r = drop (length ds) cs
     in if c \<in> set ''-+'' \<and> ds \<noteq> [] \<and> r \<noteq> [] \<and> hd r \<in> set ''dmwy''
        then map_option (\<lambda>n. ((if c = CHR ''-'' then - int n else int n, hd r), tl r)) (read_nat ds)
        else None)"

lemma rel_item_length: "rel_item s = Some (p, r) \<Longrightarrow> length r < length s"
  by (auto simp: rel_item_def Let_def split: list.splits if_splits)

function rel_items :: "string \<Rightarrow> (int \<times> char) list option" where
  "rel_items s = (case rel_item s of None \<Rightarrow> None
     | Some (p, []) \<Rightarrow> Some [p]
     | Some (p, c # r) \<Rightarrow>
         if is_ws c \<or> c = CHR '',''
         then map_option (Cons p) (rel_items (dropWhile (\<lambda>c. is_ws c \<or> c = CHR '','') r))
         else None)"
  by pat_completeness auto

termination
proof (relation "measure length")
  fix s :: string and v p r' c r
  assume "rel_item s = Some v" "(p, r') = v" "r' = c # r"
  then have "Suc (length r) < length s" using rel_item_length [of s p "c # r"] by simp
  then show "(dropWhile (\<lambda>c. is_ws c \<or> c = CHR '','') r, s) \<in> measure length"
    using length_dropWhile_le [of "\<lambda>c. is_ws c \<or> c = CHR '',''" r] by simp
qed simp

declare rel_items.simps [simp del]

text \<open>\<open>UTCDate(d.getUTCFullYear(), ..., d.getUTCSeconds(), 0)\<close>\<close>

definition utc_copy :: "jsdate \<Rightarrow> jsdate" where
  "utc_copy d = Option.bind d (\<lambda>t.
     date_UTC (year_of_day (day_of t)) (month_of_day (day_of t)) (date_of_day (day_of t))
       (hour_of t) (minute_of t) (second_of t))"

fun rel_step :: "int \<times> char \<Rightarrow> jsdate \<Rightarrow> jsdate exec" where
  "rel_step (dir, u) date =
     (if u = CHR ''d'' then Returned (setUTCDate (plus_num (getUTCDate date) dir) date)
      else if u = CHR ''m'' then moveMonth date dir
      else if u = CHR ''w'' then Returned (setUTCDate (plus_num (getUTCDate date) (dir * 7)) date)
      else moveYear date dir)"

fun rel_steps :: "(int \<times> char) list \<Rightarrow> jsdate \<Rightarrow> jsdate exec" where
  "rel_steps [] date = Returned date"
| "rel_steps (p # ps) date = exec_bind (rel_step p date) (rel_steps ps)"

text \<open>The setter of the month, with its two loops.\<close>

definition set_month :: "int \<Rightarrow> jsdate \<Rightarrow> jsdate exec" where
  "set_month v d =
     exec_bind (loop (\<lambda>v. v < 0) (\<lambda>v. v + 12) (v - 1)) (\<lambda>v.
       loop (\<lambda>d. \<not> same_num (getUTCMonth d) (Some (v mod 12)) \<and> getUTCMonth d \<noteq> None)
         (\<lambda>d. setUTCDate (plus_num (getUTCDate d) (- 1)) d)
         (setUTCMonth (Some (v mod 12)) d))"

definition setters_order :: "string list" where
  "setters_order = [''hh'', ''h'', ''ii'', ''i'', ''ss'', ''s'', ''yyyy'', ''yy'', ''M'', ''MM'', ''m'',
     ''mm'', ''D'', ''DD'', ''d'', ''dd'', ''H'', ''HH'', ''p'', ''P'', ''z'', ''Z'']"

text \<open>\<open>setters_map\<close>: it has no entry for \<open>D\<close> and \<open>DD\<close>.\<close>

definition set_part :: "string \<Rightarrow> int \<Rightarrow> jsdate \<Rightarrow> jsdate exec" where
  "set_part part v d =
     (if part \<in> {''hh'', ''h''} then Returned (setUTCHours (Some v) d)
      else if part \<in> {''HH'', ''H''} then Returned (setUTCHours (Some (if v = 12 then 0 else v)) d)
      else if part \<in> {''ii'', ''i''} then Returned (setUTCMinutes (Some v) d)
      else if part \<in> {''ss'', ''s''} then Returned (setUTCSeconds (Some v) d)
      else if part = ''yyyy'' then Returned (setUTCFullYear (Some v) d)
      else if part = ''yy'' then Returned (setUTCFullYear (Some (2000 + v)) d)
      else if part \<in> {''m'', ''M'', ''MM'', ''mm''} then set_month v d
      else if part \<in> {''d'', ''dd''} then Returned (setUTCDate (Some v) d)
      else if part \<in> {''p'', ''P''}
        then Returned (setUTCHours (plus_num (getUTCHours d) (if v = 1 then 12 else 0)) d)
      else if part \<in> {''z'', ''Z''} then Returned d
      else Thrown ''setters_map[s] is not a function'')"

text \<open>\<open>$.inArray(filtered[0], names) + 1\<close>: the position of the first match, 0 for none.\<close>

fun name_index :: "(string \<Rightarrow> bool) \<Rightarrow> string list \<Rightarrow> int" where
  "name_index P [] = - 1"
| "name_index P (n # ns) = (if P n then 0 else (let i = name_index P ns in if i < 0 then - 1 else i + 1))"

definition month_matches :: "(string \<Rightarrow> string) \<Rightarrow> string \<Rightarrow> string \<Rightarrow> bool" where
  "month_matches f token name \<longleftrightarrow>
     (let m = take (length token) name; p = take (length m) token in f m = f p)"

definition part_value :: "string \<Rightarrow> string \<Rightarrow> num" where
  "part_value part token =
     (case parseInt10 token of
       Some v \<Rightarrow> Some v
     | None \<Rightarrow>
         if part = ''MM'' then Some (name_index (month_matches id token) months + 1)
         else if part = ''M'' then Some (name_index (month_matches (map lower) token) monthsShort + 1)
         else if part \<in> {''p'', ''P''} then Some (name_index ((=) (map lower token)) meridiem)
         else None)"

text \<open>The object \<open>parsed\<close>: a later part of the same name overwrites an earlier one.\<close>

fun parsed_parts :: "string list \<Rightarrow> string list \<Rightarrow> (string \<Rightarrow> num option) \<Rightarrow> string \<Rightarrow> num option" where
  "parsed_parts (p # ps) (t # ts) m = parsed_parts ps ts (m(p \<mapsto> part_value p t))"
| "parsed_parts _ _ m = m"

fun run_setters :: "string list \<Rightarrow> (string \<Rightarrow> num option) \<Rightarrow> jsdate \<Rightarrow> jsdate exec" where
  "run_setters [] m d = Returned d"
| "run_setters (s # ss) m d = (case m s of
     Some (Some v) \<Rightarrow> exec_bind (set_part s v d) (run_setters ss m)
   | _ \<Rightarrow> run_setters ss m d)"

definition base_date :: jsdate where
  "base_date = date_UTC 1899 11 31 0 0 0"

definition parse_parts :: "date_format \<Rightarrow> string list \<Rightarrow> jsdate exec" where
  "parse_parts format tokens =
     (if length tokens = length (parts format)
      then run_setters setters_order (parsed_parts (parts format) tokens Map.empty) base_date
      else Returned base_date)"

text \<open>
  \<open>parseDate\<close>. \<open>now\<close> is the clock, \<open>tzo t\<close> the time zone offset of the host at the time \<open>t\<close> in
  minutes.
\<close>

definition parseDate :: "int \<Rightarrow> (int \<Rightarrow> int) \<Rightarrow> date_format \<Rightarrow> date_arg \<Rightarrow> jsdate exec" where
  "parseDate now tzo format date = (case date of
     DDate d \<Rightarrow> Returned (Option.bind d (\<lambda>t.
       Option.bind (time_clip (t - tzo t * 60000)) (\<lambda>u. Some (u - u mod 1000))))
   | DNull \<Rightarrow> parse_parts format []
   | DText s \<Rightarrow> (case rel_items s of
       Some items \<Rightarrow> exec_bind (rel_steps items (Some now)) (\<lambda>d. Returned (utc_copy d))
     | None \<Rightarrow> exec_bind (case text_format s of None \<Rightarrow> Returned format | Some f \<Rightarrow> parseFormat f)
         (\<lambda>format. parse_parts format (runs s))))"

section \<open>Printing a date\<close>

definition at_index :: "string list \<Rightarrow> num \<Rightarrow> string" where
  "at_index names i = (case i of None \<Rightarrow> [] | Some k \<Rightarrow> if 0 \<le> k \<and> k < int (length names) then names ! nat k else [])"

definition upper :: "char \<Rightarrow> char" where
  "upper c = (case map_of (zip letters upper_letters) c of None \<Rightarrow> c | Some u \<Rightarrow> u)"

definition hour12 :: "num \<Rightarrow> num" where
  "hour12 h = map_option (\<lambda>h. if h mod 12 = 0 then 12 else h mod 12) h"

text \<open>\<open>val[part]\<close> of \<open>formatDate\<close>; \<open>tz\<close> is the name of the time zone.\<close>

definition part_text :: "string \<Rightarrow> jsdate \<Rightarrow> string \<Rightarrow> string" where
  "part_text tz date part =
     (let year = getUTCFullYear date; month = getUTCMonth date; h = getUTCHours date;
          p = meridiem ! (if num_less h (Some 12) then 0 else 1)
      in case map_of
       [(''t'', num_str date), (''yy'', drop 2 (num_str year)), (''yyyy'', num_str year),
        (''m'', num_str (plus_num month 1)), (''M'', at_index monthsShort month), (''MM'', at_index months month),
        (''d'', num_str (getUTCDate date)), (''D'', at_index daysShort (getUTCDay date)),
        (''DD'', at_index week_days (getUTCDay date)), (''p'', p), (''h'', num_str h),
        (''i'', num_str (getUTCMinutes date)), (''s'', num_str (getUTCSeconds date)), (''z'', tz),
        (''H'', num_str (hour12 h)), (''HH'', two_digits (hour12 h)), (''P'', map upper p), (''Z'', tz),
        (''hh'', two_digits h), (''ii'', two_digits (getUTCMinutes date)),
        (''ss'', two_digits (getUTCSeconds date)), (''dd'', two_digits (getUTCDate date)),
        (''mm'', two_digits (plus_num month 1))] part of
       None \<Rightarrow> [] | Some s \<Rightarrow> s)"

fun weave :: "string list \<Rightarrow> string list \<Rightarrow> string" where
  "weave (s # ss) (p # ps) = s @ p @ weave ss ps"
| "weave [] (p # ps) = p @ weave [] ps"
| "weave (s # ss) [] = s"
| "weave [] [] = []"

definition dp_formatDate :: "string \<Rightarrow> date_format \<Rightarrow> jsdate option \<Rightarrow> string" where
  "dp_formatDate tz format date = (case date of None \<Rightarrow> []
   | Some d \<Rightarrow> weave (separators format) (map (part_text tz d) (parts format)))"

end
