(* ===== verification/DateTimePicker.thy ===== *)
theory DateTimePicker
  imports PickerDates
begin

text \<open>
  The date-time picker widget (\<open>Datetimepicker\<close> of \<open>bootstrap-datetimepicker.js\<close>) on a text input,
  as the monitoring pages create it. The record \<open>picker\<close> holds the fields of the object, the text
  of the input and what the widget has drawn. The \<open>Date\<close> objects live in a store: \<open>date\<close>,
  \<open>viewDate\<close>, \<open>startDate\<close> and \<open>endDate\<close> are references, several of which can name one object, and
  the setters change the object. Options no page passes (\<open>php\<close> formats, other languages, meridian
  display, inline pickers and components, link fields, disabled dates, \<open>forceParse\<close> and
  \<open>keyboardNavigation\<close> off, custom render functions, today highlighting) have their defaults.
\<close>

section \<open>State\<close>

record pconf =
  c_format :: date_format
  c_minuteStep :: int
  c_weekStart :: int
  c_minView :: int
  c_maxView :: int
  c_viewSelect :: int
  c_startView :: int
  c_autoclose :: bool
  c_daysOfWeekDisabled :: "int list"
  c_hoursDisabled :: "int list"
  c_minutesDisabled :: "int list"
  c_initialDate :: int
  c_tzo :: "int \<Rightarrow> int"
  c_timezone :: string
  c_onChange :: "string \<Rightarrow> string option"

text \<open>
  \<open>c_tzo\<close> is the time zone offset of the host. \<open>c_onChange\<close> is the page's handler of
  \<open>changeDate\<close>: from the text of the input it gives the text it puts there instead, if any, after
  which it calls \<open>update\<close>.
\<close>

record pcell =
  cell_text :: string
  cell_classes :: "string list"

datatype pevent = Trigger string | ChangeDate "jsdate option"

record picker =
  p_heap :: "nat \<Rightarrow> jsdate"
  p_next :: nat
  p_date :: "nat option"
  p_view :: nat
  p_start :: nat
  p_end :: nat
  p_viewMode :: int
  p_text :: string
  p_visible :: bool
  p_days :: "pcell list"
  p_hours :: "pcell list"
  p_minutes :: "pcell list"
  p_months :: "pcell list"
  p_years :: "pcell list"
  p_prev :: bool
  p_nxt :: bool
  p_fired :: "pevent list"

definition date_val :: "picker \<Rightarrow> jsdate option" where
  "date_val p = map_option (p_heap p) (p_date p)"

definition view_val :: "picker \<Rightarrow> jsdate" where
  "view_val p = p_heap p (p_view p)"

definition start_val :: "picker \<Rightarrow> jsdate" where
  "start_val p = p_heap p (p_start p)"

definition end_val :: "picker \<Rightarrow> jsdate" where
  "end_val p = p_heap p (p_end p)"

text \<open>\<open>new Date(...)\<close>: a new object, and the object \<open>viewDate\<close> changed in place.\<close>

definition new_obj :: "jsdate \<Rightarrow> picker \<Rightarrow> nat \<times> picker" where
  "new_obj d p = (p_next p, p\<lparr>p_heap := (p_heap p)(p_next p := d), p_next := Suc (p_next p)\<rparr>)"

definition change_view :: "(jsdate \<Rightarrow> jsdate) \<Rightarrow> picker \<Rightarrow> picker" where
  "change_view f p = p\<lparr>p_heap := (p_heap p)(p_view p := f (view_val p))\<rparr>"

definition dtp_trigger :: "pevent \<Rightarrow> picker \<Rightarrow> picker" where
  "dtp_trigger e p = p\<lparr>p_fired := p_fired p @ [e]\<rparr>"

section \<open>Drawing\<close>

text \<open>\<open>fill\<close>, the days: the loop from \<open>prevMonth\<close> on while it is before \<open>nextMonth\<close>.\<close>

lemma next_day: "setUTCDate (Some (date_of_day (day_of t) + 1)) (Some t) = time_clip (t + ms_day)"
proof -
  have "make_day (year_of_day (day_of t)) (month_of_day (day_of t)) (date_of_day (day_of t) + 1) * ms_day + t mod ms_day
      = t + ms_day"
    using day_of_split [of t] by (simp add: make_day_shift distrib_right)
  then show ?thesis by (simp add: setUTCDate_def num2_def)
qed

function day_loop :: "(int \<Rightarrow> pcell) \<Rightarrow> int \<Rightarrow> int \<Rightarrow> pcell list" where
  "day_loop draw t stop =
     (if t < stop
      then draw t # (case setUTCDate (Some (date_of_day (day_of t) + 1)) (Some t) of
        None \<Rightarrow> [] | Some t' \<Rightarrow> day_loop draw t' stop)
      else [])"
  by pat_completeness auto
termination
  by (relation "measure (\<lambda>(draw, t, stop). nat (stop - t))")
     (auto simp: next_day ms_day_def dest!: time_clipD)

declare day_loop.simps [simp del]

definition day_cell :: "pconf \<Rightarrow> picker \<Rightarrow> num \<Rightarrow> num \<Rightarrow> jsdate \<Rightarrow> int \<Rightarrow> pcell" where
  "day_cell c p year month currentDate t =
     (let y = getUTCFullYear (Some t); m = getUTCMonth (Some t)
      in \<lparr>cell_text = num_str (getUTCDate (Some t)),
          cell_classes = [''day'']
            @ (if num_less y year \<or> same_num y year \<and> num_less m month then [''old'']
               else if num_less year y \<or> same_num y year \<and> num_less month m then [''new''] else [])
            @ (if same_num (Some t) currentDate then [''active''] else [])
            @ (if num_leq (Some (t + 86400000)) (start_val p) \<or> num_less (end_val p) (Some t) \<or>
                 week_day (day_of t) \<in> set (c_daysOfWeekDisabled c) then [''disabled''] else [])\<rparr>)"

text \<open>The first day shown: the last day of the previous month, back to the first day of its week.\<close>

definition first_shown :: "pconf \<Rightarrow> int \<Rightarrow> int \<Rightarrow> jsdate" where
  "first_shown c year month =
     (let prevMonth = date_UTC year (month - 1) 28 0 0 0;
          day = Option.bind (getUTCFullYear prevMonth) (\<lambda>y. Option.bind (getUTCMonth prevMonth) (getDaysInMonth y));
          prevMonth = setUTCDate day prevMonth
      in setUTCDate (num2 (\<lambda>d w. Some (d - (w - c_weekStart c + 7) mod 7)) day (getUTCDay prevMonth)) prevMonth)"

definition fill_days :: "pconf \<Rightarrow> picker \<Rightarrow> pcell list" where
  "fill_days c p = (case view_val p of None \<Rightarrow> [] | Some v \<Rightarrow>
     (let year = year_of_day (day_of v); month = month_of_day (day_of v);
          currentDate = Option.bind (date_val p) (\<lambda>d. Option.bind d (\<lambda>t.
            date_UTC (year_of_day (day_of t)) (month_of_day (day_of t)) (date_of_day (day_of t)) 0 0 0));
          prevMonth = first_shown c year month;
          nextMonth = setUTCDate (plus_num (getUTCDate prevMonth) 42) prevMonth
      in case (prevMonth, nextMonth) of
          (Some t, Some stop) \<Rightarrow> day_loop (day_cell c p (Some year) (Some month) currentDate) t stop
        | _ \<Rightarrow> []))"

definition hour_cell :: "pconf \<Rightarrow> picker \<Rightarrow> nat \<Rightarrow> pcell" where
  "hour_cell c p i =
     (let v = view_val p;
          actual = Option.bind v (\<lambda>t. date_UTC (year_of_day (day_of t)) (month_of_day (day_of t))
            (date_of_day (day_of t)) (int i) 0 0)
      in \<lparr>cell_text = show_nat i @ '':00'',
          cell_classes = [''hour''] @ (if int i \<in> set (c_hoursDisabled c) then [''disabled''] else [])
            @ (if num_leq (plus_num actual 3600000) (start_val p) \<or> num_less (end_val p) actual then [''disabled'']
               else if same_num (getUTCHours v) (Some (int i)) then [''active''] else [])\<rparr>)"

definition fill_hours :: "pconf \<Rightarrow> picker \<Rightarrow> pcell list" where
  "fill_hours c p = map (hour_cell c p) [0..<24]"

text \<open>The values of \<open>i\<close> in \<open>for (i = 0; i < 60; i += minuteStep)\<close>; a step of 0 is read as 5.\<close>

function minute_marks :: "int \<Rightarrow> int \<Rightarrow> int list" where
  "minute_marks k i = (if k \<le> 0 \<or> 60 \<le> i then [] else i # minute_marks k (i + k))"
  by pat_completeness auto
termination
  by (relation "measure (\<lambda>(k, i). nat (60 - i))") auto

declare minute_marks.simps [simp del]

definition minute_cell :: "pconf \<Rightarrow> picker \<Rightarrow> int \<Rightarrow> pcell" where
  "minute_cell c p i =
     (let v = view_val p; d = setUTCSeconds (Some 0) (setUTCMinutes (Some i) v);
          slot = (\<lambda>m. map_option (\<lambda>m. m div c_minuteStep c) m)
      in \<lparr>cell_text = num_str (getUTCHours v) @ '':'' @ two_digits (Some i),
          cell_classes = [''minute''] @
            (if num_less d (start_val p) \<or> num_less (end_val p) d then [''disabled'']
             else if same_num (slot (Option.bind (date_val p) getUTCMinutes)) (slot (getUTCMinutes d)) then [''active'']
             else [])\<rparr>)"

definition fill_minutes :: "pconf \<Rightarrow> picker \<Rightarrow> pcell list" where
  "fill_minutes c p =
     map (minute_cell c p) (filter (\<lambda>i. i \<notin> set (c_minutesDisabled c)) (minute_marks (c_minuteStep c) 0))"

definition month_cell :: "picker \<Rightarrow> nat \<Rightarrow> pcell" where
  "month_cell p i =
     (let year = getUTCFullYear (view_val p); date = Option.bind (date_val p) id;
          startYear = getUTCFullYear (start_val p); endYear = getUTCFullYear (end_val p)
      in \<lparr>cell_text = monthsShort ! i,
          cell_classes = [''month'']
            @ (if same_num (getUTCFullYear date) year \<and> same_num (getUTCMonth date) (Some (int i)) then [''active''] else [])
            @ (if num_less year startYear \<or> num_less endYear year \<or>
                 same_num year startYear \<and> num_less (Some (int i)) (getUTCMonth (start_val p)) \<or>
                 same_num year endYear \<and> num_leq (plus_num (getUTCMonth (end_val p)) 1) (Some (int i))
               then [''disabled''] else [])\<rparr>)"

definition fill_months :: "picker \<Rightarrow> pcell list" where
  "fill_months p = map (month_cell p) [0..<12]"

definition year_cell :: "picker \<Rightarrow> num \<Rightarrow> jsdate \<Rightarrow> int \<Rightarrow> pcell" where
  "year_cell p year d i =
     \<lparr>cell_text = num_str year,
      cell_classes = [''year'']
        @ (if same_num (getUTCFullYear (Option.bind (date_val p) id)) (getUTCFullYear d) then [''active''] else [])
        @ (if num_less d (start_val p) \<or> num_less (getUTCFullYear (end_val p)) (getUTCFullYear d) then [''disabled''] else [])
        @ (if i = - 1 \<or> i = 10 then [''''] else [])\<rparr>"

text \<open>
  The loop over \<open>i\<close> from -1 to 10; \<open>d\<close> is one object, so the change of the year adds up. The class
  the source adds to the first and the last year is the variable \<open>old\<close>, the \<open>undefined\<close> value of
  \<open>$.fn.datetimepicker\<close> at load time, which joins as an empty text.
\<close>

fun year_loop :: "picker \<Rightarrow> nat \<Rightarrow> num \<Rightarrow> jsdate \<Rightarrow> int \<Rightarrow> pcell list" where
  "year_loop p 0 year d i = []"
| "year_loop p (Suc n) year d i =
     (let d = setUTCFullYear year d in year_cell p year d i # year_loop p n (plus_num year 1) d (i + 1))"

definition decade :: "int \<Rightarrow> int" where
  "decade y = (if y < 0 then - (- y div 10) else y div 10) * 10"

definition fill_years :: "picker \<Rightarrow> pcell list" where
  "fill_years p =
     year_loop p 12 (map_option (\<lambda>y. decade y - 1) (getUTCFullYear (view_val p))) (view_val p) (- 1)"

text \<open>\<open>updateNavArrows\<close>: whether the arrows are visible.\<close>

definition limits_reached :: "(num \<Rightarrow> num \<Rightarrow> bool) \<Rightarrow> int \<Rightarrow> jsdate \<Rightarrow> jsdate \<Rightarrow> bool" where
  "limits_reached le viewMode d limit \<longleftrightarrow>
     le (getUTCFullYear d) (getUTCFullYear limit) \<and>
     (viewMode \<le> 2 \<longrightarrow> le (getUTCMonth d) (getUTCMonth limit)) \<and>
     (viewMode \<le> 1 \<longrightarrow> le (getUTCDate d) (getUTCDate limit)) \<and>
     (viewMode \<le> 0 \<longrightarrow> le (getUTCHours d) (getUTCHours limit))"

definition updateNavArrows :: "picker \<Rightarrow> picker" where
  "updateNavArrows p =
     (if 0 \<le> p_viewMode p \<and> p_viewMode p \<le> 4
      then p\<lparr>p_prev := \<not> limits_reached num_leq (p_viewMode p) (view_val p) (start_val p),
             p_nxt := \<not> limits_reached (\<lambda>a b. num_leq b a) (p_viewMode p) (view_val p) (end_val p)\<rparr>
      else p)"

definition dtp_fill :: "pconf \<Rightarrow> picker \<Rightarrow> picker" where
  "dtp_fill c p =
     (if p_date p = None then p
      else (updateNavArrows p)\<lparr>p_days := fill_days c p, p_hours := fill_hours c p, p_minutes := fill_minutes c p,
             p_months := fill_months p, p_years := fill_years p\<rparr>)"

section \<open>Reading and writing the date\<close>

definition getFormattedDate :: "pconf \<Rightarrow> picker \<Rightarrow> string" where
  "getFormattedDate c p = dp_formatDate (c_timezone c) (c_format c) (date_val p)"

definition dtp_setValue :: "pconf \<Rightarrow> picker \<Rightarrow> picker" where
  "dtp_setValue c p = p\<lparr>p_text := getFormattedDate c p\<rparr>"

definition dtp_getDate :: "pconf \<Rightarrow> picker \<Rightarrow> date_arg" where
  "dtp_getDate c p = (case date_val p of None \<Rightarrow> DNull
     | Some d \<Rightarrow> DDate (Option.bind d (\<lambda>t. time_clip (t + c_tzo c t * 60000))))"

text \<open>A text that starts with \<open>hour_minute\<close>: \<open>^([0-9]|0[0-9]|1[0-9]|2[0-3]):[0-5][0-9]\<close>.\<close>

definition hour_minute :: "string \<Rightarrow> bool" where
  "hour_minute s \<longleftrightarrow>
     (\<exists>h \<in> set [1, 2 :: nat]. let ds = take h s; r = drop h s in
        length ds = h \<and> set ds \<subseteq> set digits \<and> (h = 2 \<longrightarrow> the (read_nat ds) < 24) \<and>
        (case r of a # b # e # _ \<Rightarrow> a = CHR '':'' \<and> b \<in> set ''012345'' \<and> e \<in> set digits | _ \<Rightarrow> False))"

text \<open>What \<open>update\<close> reads: its argument, or the input, or the initial date, or the clock.\<close>

definition update_source :: "pconf \<Rightarrow> int \<Rightarrow> date_arg option \<Rightarrow> picker \<Rightarrow> date_arg \<times> bool" where
  "update_source c now arg p =
     (let (date, fromArgs) = (case arg of
            Some a \<Rightarrow> (a, True)
          | None \<Rightarrow> (if p_text p = [] then DDate (Some (c_initialDate c)) else DText (trim (p_text p)), False))
      in if date = DText [] then (DDate (Some now), False) else (date, fromArgs))"

definition dtp_update :: "pconf \<Rightarrow> int \<Rightarrow> date_arg option \<Rightarrow> picker \<Rightarrow> picker exec" where
  "dtp_update c now arg p =
     (let (date, fromArgs) = update_source c now arg p;
          date = (case date of DText s \<Rightarrow> if hour_minute s then dtp_getDate c p else date | _ \<Rightarrow> date)
      in exec_bind (parseDate now (c_tzo c) (c_format c) date) (\<lambda>d.
        let (r, p) = new_obj d p; p = p\<lparr>p_date := Some r\<rparr>;
            p = (if fromArgs then dtp_setValue c p else p);
            (v, p) = new_obj (if num_less d (start_val p) then start_val p
                              else if num_less (end_val p) d then end_val p else d) p
        in Returned (dtp_fill c (p\<lparr>p_view := v\<rparr>))))"

text \<open>
  \<open>setStartDate\<close> and \<open>setEndDate\<close>. Both compare the value with 8639968443048000, which is the
  initial value of \<open>endDate\<close> only; a value other than that is read by \<open>parseDate\<close> into a new object.
\<close>

definition new_limit :: "pconf \<Rightarrow> int \<Rightarrow> date_arg option \<Rightarrow> nat \<Rightarrow> picker \<Rightarrow> (nat \<times> picker) exec" where
  "new_limit c now arg r p =
     (if arg \<in> {None, Some (DText []), Some DNull}
      then if p_heap p r = Some 8639968443048000 then Returned (r, p)
           else exec_bind (parseDate now (c_tzo c) (c_format c) (DDate (p_heap p r))) (\<lambda>d. Returned (new_obj d p))
      else if arg = Some (DDate (Some 8639968443048000)) then Returned (new_obj (Some 8639968443048000) p)
      else exec_bind (parseDate now (c_tzo c) (c_format c) (the arg)) (\<lambda>d. Returned (new_obj d p)))"

definition dtp_setStartDate :: "pconf \<Rightarrow> int \<Rightarrow> date_arg option \<Rightarrow> picker \<Rightarrow> picker exec" where
  "dtp_setStartDate c now arg p =
     exec_bind (new_limit c now arg (p_start p) p) (\<lambda>(r, p).
       exec_bind (dtp_update c now None (p\<lparr>p_start := r\<rparr>)) (\<lambda>p. Returned (updateNavArrows p)))"

definition dtp_setEndDate :: "pconf \<Rightarrow> int \<Rightarrow> date_arg option \<Rightarrow> picker \<Rightarrow> picker exec" where
  "dtp_setEndDate c now arg p =
     exec_bind (new_limit c now arg (p_end p) p) (\<lambda>(r, p).
       exec_bind (dtp_update c now None (p\<lparr>p_end := r\<rparr>)) (\<lambda>p. Returned (updateNavArrows p)))"

definition dtp_setUTCDate :: "pconf \<Rightarrow> nat \<Rightarrow> picker \<Rightarrow> picker" where
  "dtp_setUTCDate c r p =
     (if num_leq (start_val p) (p_heap p r) \<and> num_leq (p_heap p r) (end_val p)
      then dtp_fill c ((dtp_setValue c (p\<lparr>p_date := Some r\<rparr>))\<lparr>p_view := r\<rparr>)
      else dtp_trigger (Trigger ''outOfRange'') p)"

text \<open>The end of \<open>_setDate\<close> and of \<open>keydown\<close>: \<open>changeDate\<close>, and what the page does then.\<close>

definition fire_change :: "pconf \<Rightarrow> int \<Rightarrow> picker \<Rightarrow> picker exec" where
  "fire_change c now p =
     (let p = dtp_trigger (ChangeDate (date_val p)) p
      in case c_onChange c (p_text p) of
          None \<Rightarrow> Returned p
        | Some s \<Rightarrow> dtp_update c now None (p\<lparr>p_text := s\<rparr>))"

text \<open>\<open>_setDate(date)\<close> with an object, and \<open>_setDate(null, 'date')\<close>, which is \<open>reset\<close>.\<close>

definition dtp_set_date :: "pconf \<Rightarrow> int \<Rightarrow> nat \<Rightarrow> picker \<Rightarrow> picker exec" where
  "dtp_set_date c now r p =
     fire_change c now (dtp_setValue c (dtp_fill c (p\<lparr>p_date := Some r, p_view := r\<rparr>)))"

definition dtp_reset :: "pconf \<Rightarrow> int \<Rightarrow> picker \<Rightarrow> picker exec" where
  "dtp_reset c now p =
     exec_bind (fire_change c now (dtp_setValue c (dtp_fill c (p\<lparr>p_date := None\<rparr>))))
       (\<lambda>p. Returned (p\<lparr>p_date := Some (p_view p)\<rparr>))"

section \<open>Views\<close>

definition dtp_showMode :: "pconf \<Rightarrow> int \<Rightarrow> picker \<Rightarrow> picker" where
  "dtp_showMode c dir p =
     (let newViewMode = max 0 (min 4 (p_viewMode p + dir));
          p = (if dir \<noteq> 0 \<and> newViewMode \<ge> c_minView c \<and> newViewMode \<le> c_maxView c
               then (dtp_trigger (Trigger ''changeMode'') p)\<lparr>p_viewMode := newViewMode\<rparr> else p)
      in updateNavArrows p)"

definition dtp_show :: "pconf \<Rightarrow> int \<Rightarrow> picker \<Rightarrow> picker exec" where
  "dtp_show c now p =
     exec_bind (dtp_update c now None p) (\<lambda>p. Returned (dtp_trigger (Trigger ''show'') (p\<lparr>p_visible := True\<rparr>)))"

definition dtp_hide :: "pconf \<Rightarrow> picker \<Rightarrow> picker" where
  "dtp_hide c p =
     (if \<not> p_visible p then p
      else let p = dtp_showMode c 0 (p\<lparr>p_viewMode := c_startView c\<rparr>);
               p = (if p_text p \<noteq> [] then dtp_setValue c p else p)
        in dtp_trigger (Trigger ''hide'') (p\<lparr>p_visible := False\<rparr>))"

definition hide_if :: "bool \<Rightarrow> pconf \<Rightarrow> picker \<Rightarrow> picker" where
  "hide_if b c p = (if b then dtp_hide c p else p)"

text \<open>The end of a choice: one view closer, or hidden at the last one.\<close>

definition next_view :: "pconf \<Rightarrow> picker \<Rightarrow> picker" where
  "next_view c p =
     (let q = dtp_fill c (dtp_showMode c (- 1) p)
      in hide_if (p_viewMode p = p_viewMode q \<and> c_autoclose c) c q)"

definition next_or_hide :: "pconf \<Rightarrow> picker \<Rightarrow> picker" where
  "next_or_hide c p =
     (if p_viewMode p \<noteq> 0 then next_view c p else hide_if (c_autoclose c) c (dtp_fill c p))"

section \<open>Clicks\<close>

text \<open>
  The elements of the picker a click can meet: the head and foot of the tables, the cells by their
  position, and a table cell that is no day.
\<close>

datatype target = TSwitch | TPrev | TNext | TClear | TToday | TDay nat | THour nat | TMinute nat
  | TMonth nat | TYear nat | TBlank

definition utc_date :: "num \<Rightarrow> num \<Rightarrow> num \<Rightarrow> num \<Rightarrow> num \<Rightarrow> num \<Rightarrow> jsdate" where
  "utc_date y m d h i s = Option.bind y (\<lambda>y. Option.bind m (\<lambda>m. Option.bind d (\<lambda>d.
     Option.bind h (\<lambda>h. Option.bind i (\<lambda>i. Option.bind s (date_UTC y m d h i))))))"

text \<open>\<open>n || k\<close>\<close>

definition num_or :: "num \<Rightarrow> int \<Rightarrow> int" where
  "num_or n k = (case n of None \<Rightarrow> k | Some x \<Rightarrow> if x = 0 then k else x)"

definition set_if :: "bool \<Rightarrow> pconf \<Rightarrow> int \<Rightarrow> jsdate \<Rightarrow> picker \<Rightarrow> picker exec" where
  "set_if b c now d p = (if b then (let (r, p) = new_obj d p in dtp_set_date c now r p) else Returned p)"

definition is_disabled :: "pcell \<Rightarrow> bool" where
  "is_disabled x \<longleftrightarrow> ''disabled'' \<in> set (cell_classes x)"

text \<open>The two parts of the name of the event of an arrow: \<open>className\<close> and \<open>convertViewModeText\<close>.\<close>

definition convertViewModeText :: "int \<Rightarrow> string" where
  "convertViewModeText viewMode =
     (if viewMode = 4 then ''decade'' else if viewMode = 3 then ''year'' else if viewMode = 2 then ''month''
      else if viewMode = 1 then ''day'' else if viewMode = 0 then ''hour'' else ''undefined'')"

definition move_view :: "int \<Rightarrow> jsdate \<Rightarrow> int \<Rightarrow> jsdate exec" where
  "move_view viewMode d sign =
     (if viewMode = 0 then Returned (moveHour d sign)
      else if viewMode = 1 then Returned (moveDate d sign)
      else if viewMode = 2 then moveMonth d sign
      else if viewMode = 3 then moveYear d sign
      else moveYear d (10 * sign))"

definition click_arrow :: "pconf \<Rightarrow> int \<Rightarrow> picker \<Rightarrow> picker exec" where
  "click_arrow c sign p =
     exec_bind (move_view (p_viewMode p) (view_val p) sign) (\<lambda>d.
       let (r, p) = new_obj d p; p = dtp_fill c (p\<lparr>p_view := r\<rparr>)
       in Returned (dtp_trigger (Trigger ((if sign < 0 then ''prev:'' else ''next:'') @ convertViewModeText (p_viewMode p))) p))"

definition click_today :: "pconf \<Rightarrow> int \<Rightarrow> picker \<Rightarrow> picker exec" where
  "click_today c now p =
     (let today = utc_copy (time_clip (now - c_tzo c now * 60000));
          (n, p) = new_obj today p;
          r = (if num_less today (start_val p) then p_start p else if num_less (end_val p) today then p_end p else n);
          p = dtp_showMode c 0 (p\<lparr>p_viewMode := c_startView c\<rparr>)
      in exec_bind (dtp_set_date c now r p) (\<lambda>p. Returned (hide_if (c_autoclose c) c (dtp_fill c p))))"

definition click_month :: "pconf \<Rightarrow> int \<Rightarrow> nat \<Rightarrow> picker \<Rightarrow> picker exec" where
  "click_month c now k p =
     (let v = view_val p; p = change_view (setUTCDate (Some 1)) p; day = getUTCDate (view_val p);
          p = dtp_trigger (Trigger ''changeMonth'') (change_view (setUTCMonth (Some (int k))) p)
      in set_if (c_viewSelect c \<ge> 3) c now (utc_date (getUTCFullYear v) (Some (int k)) day (getUTCHours v)
           (getUTCMinutes v) (getUTCSeconds v)) p)"

definition click_year :: "pconf \<Rightarrow> int \<Rightarrow> pcell \<Rightarrow> picker \<Rightarrow> picker exec" where
  "click_year c now x p =
     (let v = view_val p; year = num_or (parseInt10 (cell_text x)) 0;
          p = dtp_trigger (Trigger ''changeYear'') (change_view (setUTCFullYear (Some year)) (change_view (setUTCDate (Some 1)) p))
      in set_if (c_viewSelect c \<ge> 4) c now (utc_date (Some year) (getUTCMonth v) (getUTCDate v) (getUTCHours v)
           (getUTCMinutes v) (getUTCSeconds v)) p)"

definition click_hour :: "pconf \<Rightarrow> int \<Rightarrow> pcell \<Rightarrow> picker \<Rightarrow> picker exec" where
  "click_hour c now x p =
     (let v = view_val p; hours = num_or (parseInt10 (cell_text x)) 0;
          p = dtp_trigger (Trigger ''changeHour'') (change_view (setUTCHours (Some hours)) p)
      in set_if (c_viewSelect c \<ge> 1) c now (utc_date (getUTCFullYear v) (getUTCMonth v) (getUTCDate v) (Some hours)
           (getUTCMinutes v) (getUTCSeconds v)) p)"

definition after_colon :: "string \<Rightarrow> string" where
  "after_colon s = (case index_of '':'' s of None \<Rightarrow> s | Some i \<Rightarrow> drop (Suc i) s)"

definition click_minute :: "pconf \<Rightarrow> int \<Rightarrow> pcell \<Rightarrow> picker \<Rightarrow> picker exec" where
  "click_minute c now x p =
     (let v = view_val p; minutes = num_or (parseInt10 (after_colon (cell_text x))) 0;
          p = dtp_trigger (Trigger ''changeMinute'') (change_view (setUTCMinutes (Some minutes)) p)
      in set_if (c_viewSelect c \<ge> 0) c now (utc_date (getUTCFullYear v) (getUTCMonth v) (getUTCDate v)
           (getUTCHours v) (Some minutes) (getUTCSeconds v)) p)"

text \<open>The year and the month of a day cell: those of the view, or of the month before or after.\<close>

definition cell_month :: "pcell \<Rightarrow> num \<Rightarrow> num \<Rightarrow> num \<times> num" where
  "cell_month x year month =
     (if ''old'' \<in> set (cell_classes x)
      then if same_num month (Some 0) then (plus_num year (- 1), Some 11) else (year, plus_num month (- 1))
      else if ''new'' \<in> set (cell_classes x)
      then if same_num month (Some 11) then (plus_num year 1, Some 0) else (year, plus_num month 1)
      else (year, month))"

definition click_day :: "pconf \<Rightarrow> int \<Rightarrow> pcell \<Rightarrow> picker \<Rightarrow> picker exec" where
  "click_day c now x p =
     (let v = view_val p; day = num_or (parseInt10 (cell_text x)) 1;
          (year, month) = cell_month x (getUTCFullYear v) (getUTCMonth v);
          p = dtp_trigger (Trigger ''changeDay'')
            (change_view (setUTCMonth_date month (Some day)) (change_view (setUTCFullYear year) p))
      in set_if (c_viewSelect c \<ge> 2) c now (utc_date year month (Some day) (getUTCHours v) (getUTCMinutes v)
           (getUTCSeconds v)) p)"

text \<open>A click on the cell \<open>k\<close> of a table: nothing is done for a disabled cell.\<close>

definition on_cell :: "pcell list \<Rightarrow> nat \<Rightarrow> (pcell \<Rightarrow> picker \<Rightarrow> picker exec) \<Rightarrow> (picker \<Rightarrow> picker) \<Rightarrow> picker \<Rightarrow> picker exec" where
  "on_cell xs k f g p =
     (if k < length xs
      then if is_disabled (xs ! k) then Returned (dtp_trigger (Trigger ''outOfRange'') p)
           else exec_bind (f (xs ! k) p) (\<lambda>p. Returned (g p))
      else Returned p)"

fun dtp_click :: "pconf \<Rightarrow> int \<Rightarrow> target \<Rightarrow> picker \<Rightarrow> picker exec" where
  "dtp_click c now TSwitch p = Returned (dtp_showMode c 1 p)"
| "dtp_click c now TPrev p = click_arrow c (- 1) p"
| "dtp_click c now TNext p = click_arrow c 1 p"
| "dtp_click c now TClear p = exec_bind (dtp_reset c now p) (\<lambda>p. Returned (hide_if (c_autoclose c) c p))"
| "dtp_click c now TToday p = click_today c now p"
| "dtp_click c now (TMonth k) p = on_cell (p_months p) k (\<lambda>x. click_month c now k) (next_or_hide c) p"
| "dtp_click c now (TYear k) p = on_cell (p_years p) k (click_year c now) (next_or_hide c) p"
| "dtp_click c now (THour k) p = on_cell (p_hours p) k (click_hour c now) (next_or_hide c) p"
| "dtp_click c now (TMinute k) p = on_cell (p_minutes p) k (click_minute c now) (next_or_hide c) p"
| "dtp_click c now (TDay k) p = on_cell (p_days p) k (click_day c now) (next_view c) p"
| "dtp_click c now TBlank p = Returned (next_view c p)"

section \<open>Keys\<close>

definition dateWithinRange :: "picker \<Rightarrow> jsdate \<Rightarrow> bool" where
  "dateWithinRange p d \<longleftrightarrow> num_leq (start_val p) d \<and> num_leq d (end_val p)"

text \<open>The date an arrow key asks for; \<open>None\<close> is \<open>undefined\<close>. \<open>vert\<close> tells up and down from left and right.\<close>

definition key_date :: "pconf \<Rightarrow> int \<Rightarrow> int \<Rightarrow> bool \<Rightarrow> jsdate \<Rightarrow> jsdate option exec" where
  "key_date c viewMode dir vert d =
     (if viewMode = 4 then exec_bind (moveYear d dir) (\<lambda>d. Returned (Some d))
      else if viewMode = 3 then exec_bind (moveMonth d dir) (\<lambda>d. Returned (Some d))
      else if viewMode = 2 then Returned (Some (moveDate d (if vert then dir * 7 else dir)))
      else if viewMode = 1 then Returned (Some (moveHour d (if vert then dir * 4 else dir)))
      else if viewMode = 0 then Returned (Some (moveMinute (c_minuteStep c) d (if vert then dir * 4 else dir)))
      else Returned None)"

definition key_arrow :: "pconf \<Rightarrow> int \<Rightarrow> int \<Rightarrow> bool \<Rightarrow> bool \<Rightarrow> bool \<Rightarrow> picker \<Rightarrow> picker exec" where
  "key_arrow c now dir vert ctrl shift p = (case date_val p of
     None \<Rightarrow> Thrown ''date is null''
   | Some d \<Rightarrow>
      (let viewMode = p_viewMode p + (if ctrl then 2 else if shift then 1 else 0)
       in exec_bind (key_date c viewMode dir vert d) (\<lambda>newDate.
          exec_bind (key_date c viewMode dir vert (view_val p)) (\<lambda>newViewDate.
          case (newDate, newViewDate) of
            (Some nd, Some nv) \<Rightarrow>
              if dateWithinRange p nd
              then let (r, p) = new_obj nd p; (v, p) = new_obj nv p
                in exec_bind (dtp_update c now None (dtp_setValue c (p\<lparr>p_date := Some r, p_view := v\<rparr>)))
                     (fire_change c now)
              else Returned p
          | _ \<Rightarrow> Returned p))))"

definition dtp_keydown :: "pconf \<Rightarrow> int \<Rightarrow> int \<Rightarrow> bool \<Rightarrow> bool \<Rightarrow> picker \<Rightarrow> picker exec" where
  "dtp_keydown c now key ctrl shift p =
     (if \<not> p_visible p then if key = 27 then dtp_show c now p else Returned p
      else if key = 27 \<or> key = 9 then Returned (dtp_hide c p)
      else if key = 37 \<or> key = 39 then key_arrow c now (if key = 37 then - 1 else 1) False ctrl shift p
      else if key = 38 \<or> key = 40 then key_arrow c now (if key = 38 then - 1 else 1) True ctrl shift p
      else if key = 13 then Returned (next_or_hide c p)
      else Returned p)"

section \<open>Creation and events\<close>

text \<open>
  The constructor on an empty input. It sets the two limits, then each of the setters of disabled
  values and the constructor itself call \<open>update\<close>.
\<close>

definition empty_picker :: "pconf \<Rightarrow> picker" where
  "empty_picker c =
     \<lparr>p_heap = (\<lambda>_. None)(0 := Some (- 8639968443048000), 1 := Some 8639968443048000), p_next = 2,
      p_date = None, p_view = 0, p_start = 0, p_end = 1, p_viewMode = c_startView c, p_text = [],
      p_visible = False, p_days = [], p_hours = [], p_minutes = [], p_months = [], p_years = [],
      p_prev = True, p_nxt = True, p_fired = []\<rparr>"

definition again :: "pconf \<Rightarrow> int \<Rightarrow> picker \<Rightarrow> picker exec" where
  "again c now p = exec_bind (dtp_update c now None p) (\<lambda>p. Returned (updateNavArrows p))"

definition new_Datetimepicker :: "pconf \<Rightarrow> int \<Rightarrow> date_arg option \<Rightarrow> date_arg option \<Rightarrow> picker exec" where
  "new_Datetimepicker c now startDate endDate =
     exec_bind (dtp_setStartDate c now startDate (empty_picker c)) (\<lambda>p.
     exec_bind (dtp_setEndDate c now endDate p) (\<lambda>p.
     exec_bind (again c now p) (\<lambda>p. exec_bind (again c now p) (\<lambda>p. exec_bind (again c now p) (\<lambda>p.
     exec_bind (again c now p) (\<lambda>p. exec_bind (dtp_update c now None p) (\<lambda>p. Returned (dtp_showMode c 0 p))))))))"

text \<open>
  What can happen to the input and the picker: the input gets the focus, the user edits its text
  (the \<open>keyup\<close> of the edit), presses or releases another key, clicks an element of the picker or
  outside it, or the page sets the text and calls \<open>update\<close>.
\<close>

datatype pinput = PFocus | PTyped string | PKey int bool bool | PKeyUp | PClick target | POutside | PPageText string

fun dtp_step :: "pconf \<Rightarrow> int \<Rightarrow> pinput \<Rightarrow> picker \<Rightarrow> picker exec" where
  "dtp_step c now PFocus p = dtp_show c now p"
| "dtp_step c now (PTyped s) p = dtp_update c now None (p\<lparr>p_text := s\<rparr>)"
| "dtp_step c now (PKey key ctrl shift) p = dtp_keydown c now key ctrl shift p"
| "dtp_step c now PKeyUp p = dtp_update c now None p"
| "dtp_step c now (PClick t) p = dtp_click c now t p"
| "dtp_step c now POutside p = Returned (dtp_hide c p)"
| "dtp_step c now (PPageText s) p = dtp_update c now None (p\<lparr>p_text := s\<rparr>)"

text \<open>The elements on the screen: a hidden picker has none, and only the table of the view mode is shown.\<close>

fun on_screen :: "picker \<Rightarrow> target \<Rightarrow> bool" where
  "on_screen p TPrev = p_prev p"
| "on_screen p TNext = p_nxt p"
| "on_screen p (TDay k) = (p_viewMode p = 2 \<and> k < length (p_days p))"
| "on_screen p (THour k) = (p_viewMode p = 1 \<and> k < length (p_hours p))"
| "on_screen p (TMinute k) = (p_viewMode p = 0 \<and> k < length (p_minutes p))"
| "on_screen p (TMonth k) = (p_viewMode p = 3 \<and> k < length (p_months p))"
| "on_screen p (TYear k) = (p_viewMode p = 4 \<and> k < length (p_years p))"
| "on_screen p _ = True"

fun dtp_possible :: "picker \<Rightarrow> pinput \<Rightarrow> bool" where
  "dtp_possible p (PClick t) = (p_visible p \<and> on_screen p t)"
| "dtp_possible p _ = True"

inductive dtp_reach :: "pconf \<Rightarrow> picker \<Rightarrow> picker \<Rightarrow> bool" for c :: pconf where
  start: "dtp_reach c p p"
| event: "dtp_reach c p q \<Longrightarrow> dtp_possible q ev \<Longrightarrow> dtp_step c now ev q = Returned r \<Longrightarrow> dtp_reach c p r"

end
