(* ===== verification/PickerDateProps.thy ===== *)
theory PickerDateProps
  imports PickerDates
begin

text \<open>
  What the date computations of the picker do: the loops of \<open>moveMonth\<close> and of the month setter of
  \<open>parseDate\<close> end on valid dates, a move by months keeps the day of the month or takes the last day
  of a shorter month, reading a printed date gives the date back to the minute, and printed dates
  are ordered like the dates.
\<close>

section \<open>Moving by months\<close>

definition month_index :: "int \<Rightarrow> int" where
  "month_index t = 12 * year_of_day (day_of t) + month_of_day (day_of t)"

text \<open>The day \<open>v\<close> of the month with the index \<open>n\<close>, at the time of day of \<open>t\<close>.\<close>

definition in_month :: "int \<Rightarrow> int \<Rightarrow> int \<Rightarrow> int" where
  "in_month n v t = make_day (n div 12) (n mod 12) v * ms_day + t mod ms_day"

definition index_len :: "int \<Rightarrow> int" where
  "index_len n = month_len (n div 12) (n mod 12)"

text \<open>What a move by \<open>k\<close> months is meant to give.\<close>

definition month_shift :: "int \<Rightarrow> int \<Rightarrow> int" where
  "month_shift k t =
     in_month (month_index t + k) (min (date_of_day (day_of t)) (index_len (month_index t + k))) t"

text \<open>Dates at least \<open>k\<close> days away from the ends of the range of \<open>Date\<close>.\<close>

definition days_left :: "int \<Rightarrow> int \<Rightarrow> bool" where
  "days_left k t \<longleftrightarrow> \<bar>t\<bar> + k * ms_day \<le> 8640000000000000"

lemma month_index_fields:
  "month_index t div 12 = year_of_day (day_of t)" "month_index t mod 12 = month_of_day (day_of t)"
  by (simp_all add: month_index_def)

lemma in_month_self: "in_month (month_index t) (date_of_day (day_of t)) t = t"
  by (simp add: in_month_def month_index_fields day_of_split)

lemma day_of_in_month: "day_of (in_month n v t) = make_day (n div 12) (n mod 12) v"
  by (simp add: in_month_def)

lemma in_month_mod [simp]: "in_month n v t mod ms_day = t mod ms_day"
  by (simp add: in_month_def)

lemma in_month_in_month [simp]: "in_month n v (in_month n' v' t) = in_month n v t"
  by (simp add: in_month_def)

lemma fields_in_month:
  assumes "1 \<le> v" "v \<le> index_len n"
  shows "month_index (in_month n v t) = n" "date_of_day (day_of (in_month n v t)) = v"
    "month_of_day (day_of (in_month n v t)) = n mod 12"
  using assms by (simp_all add: month_index_def day_of_in_month fields_make_day index_len_def)

lemma index_len_bounds: "28 \<le> index_len n" "index_len n \<le> 31"
  by (simp_all add: index_len_def month_len_bounds)

lemma mod_succ:
  assumes "0 < (n :: int)"
  shows "(x + 1) mod n = (if x mod n = n - 1 then 0 else x mod n + 1)"
proof -
  define q r where "q = x div n" and "r = x mod n"
  have x: "x = n * q + r" and r: "0 \<le> r" "r < n" using assms by (simp_all add: q_def r_def)
  show ?thesis
  proof (cases "r + 1 = n")
    case True
    then have "x + 1 = n * (q + 1)" using x by (simp add: algebra_simps)
    then show ?thesis using True by (simp flip: r_def)
  next
    case False
    then have "(x + 1) mod n = r + 1" using x r by (simp add: int_mod_pos_eq [of _ _ q])
    then show ?thesis using False by (simp flip: r_def)
  qed
qed

lemma next_month:
  "(n + 1) mod 12 = (if n mod 12 = 11 then 0 else n mod 12 + 1 :: int)"
  "(n + 1) div 12 = n div 12 + (if n mod 12 = 11 then 1 else 0 :: int)"
  using pos_mod_sign [of 12 n] by (auto simp: mod_succ div_succ)

lemma make_day_next: "make_day (Suc_n div 12) (Suc_n mod 12) v = make_day (n div 12) (n mod 12) (v + index_len n)"
  if "Suc_n = n + 1"
proof -
  define m where "m = n mod 12"
  have m: "0 \<le> m" "m < 12" by (simp_all add: m_def)
  show ?thesis
    using month_start_step [OF m, of "n div 12"] m
    by (auto simp: that make_day_def next_month index_len_def Let_def month_start_def [of _ 0]
        simp flip: m_def split: if_splits)
qed

text \<open>A day past the end of a month is a day of the next one.\<close>

lemma in_month_overflow: "in_month n (index_len n + v) t = in_month (n + 1) v t"
  by (simp only: in_month_def make_day_next [OF refl] add.commute [of v])

text \<open>A month with fewer than 31 days is followed by one with 31, in the same year.\<close>

lemma short_month:
  assumes "index_len n < 31"
  shows "index_len (n + 1) = 31" "(n + 1) mod 12 \<noteq> n mod 12" "(n + 1) mod 12 = n mod 12 + 1"
    "(n + 1) div 12 = n div 12"
proof -
  have "n mod 12 \<in> {1, 3, 5, 8, 10}" using assms by (auto simp: index_len_def month_len_def split: if_splits)
  then have "(n + 1) mod 12 = n mod 12 + 1 \<and> (n + 1) div 12 = n div 12 \<and> n mod 12 + 1 \<in> {2, 4, 6, 9, 11}"
    by (auto simp: next_month)
  then show "index_len (n + 1) = 31" "(n + 1) mod 12 \<noteq> n mod 12" "(n + 1) mod 12 = n mod 12 + 1"
    "(n + 1) div 12 = n div 12"
    by (auto simp: index_len_def month_len_def)
qed

lemma setUTCDate_in_month:
  assumes "1 \<le> v" "v \<le> index_len n"
  shows "setUTCDate (Some w) (Some (in_month n v t)) = time_clip (in_month n w t)"
  using assms by (simp add: setUTCDate_def num2_def day_of_in_month fields_make_day index_len_def) (simp add: in_month_def)

lemma setUTCMonth_in_month:
  assumes "1 \<le> v" "v \<le> index_len n"
  shows "setUTCMonth (Some m) (Some (in_month n v t)) = time_clip (in_month (12 * (n div 12) + m) v t)"
proof -
  have "make_day (n div 12) m v = make_day ((12 * (n div 12) + m) div 12) ((12 * (n div 12) + m) mod 12) v"
    using make_day_carry [of "n div 12" m v] by simp
  then show ?thesis
    using assms by (simp add: setUTCMonth_def num2_def day_of_in_month fields_make_day index_len_def)
      (simp add: in_month_def)
qed

lemma reset_day_stops: "\<not> test d \<Longrightarrow> reset_day test m d k = Returned d"
  by (simp add: reset_day_def loop_unfold)

lemma reset_day_step:
  "test d \<Longrightarrow> reset_day test m d k = reset_day test m (setUTCMonth m (setUTCDate (plus_num k (- 1)) d)) (plus_num k (- 1))"
  unfolding reset_day_def by (subst loop_unfold) (simp add: Let_def)

text \<open>
  The date-resetting loop, entered with a day past the end of the month \<open>n\<close>, ends with the last
  day of this month.
\<close>

lemma reset_day_ends:
  assumes test: "\<And>v. 1 \<le> v \<Longrightarrow> v \<le> 31 \<Longrightarrow> test (Some (in_month (n + 1) v t))"
    and stop: "\<not> test (Some (in_month n (index_len n) t))"
    and clip: "\<And>v. 1 \<le> v \<Longrightarrow> v \<le> 31 \<Longrightarrow> \<bar>in_month n v t\<bar> \<le> 8640000000000000"
      "\<And>v. 1 \<le> v \<Longrightarrow> v \<le> 31 \<Longrightarrow> \<bar>in_month (n + 1) v t\<bar> \<le> 8640000000000000"
    and "index_len n < k" "k \<le> 31" "1 \<le> v" "v \<le> 31"
  shows "reset_day test (Some (n mod 12)) (Some (in_month (n + 1) v t)) (Some k) =
    Returned (Some (in_month n (index_len n) t))"
  using assms(5-8)
proof (induction "nat (k - index_len n)" arbitrary: k v)
  case (Suc j)
  have len: "index_len (n + 1) = 31" and div: "(n + 1) div 12 = n div 12"
    using short_month [of n] Suc.prems by simp_all
  have k: "1 \<le> k - 1" "k - 1 \<le> 31" using Suc.prems index_len_bounds [of n] by linarith+
  have n: "12 * ((n + 1) div 12) + n mod 12 = n" by (simp add: div)
  have step: "setUTCMonth (Some (n mod 12)) (setUTCDate (Some (k - 1)) (Some (in_month (n + 1) v t))) =
      Some (in_month n (k - 1) t)"
    using Suc.prems k len clip by (simp add: setUTCDate_in_month setUTCMonth_in_month n)
  have "reset_day test (Some (n mod 12)) (Some (in_month (n + 1) v t)) (Some k) =
      reset_day test (Some (n mod 12)) (Some (in_month n (k - 1) t)) (Some (k - 1))"
    using Suc.prems by (subst reset_day_step) (simp_all add: test step plus_num_def)
  also have "\<dots> = Returned (Some (in_month n (index_len n) t))"
  proof (cases "k - 1 = index_len n")
    case True
    then show ?thesis using stop by (simp add: reset_day_stops)
  next
    case False
    define w where "w = k - 1 - index_len n"
    have w: "1 \<le> w" "w \<le> 31" "index_len n < k - 1" "k - 1 = index_len n + w"
      using False Suc.prems index_len_bounds [of n] by (simp_all add: w_def)
    have "reset_day test (Some (n mod 12)) (Some (in_month (n + 1) w t)) (Some (k - 1)) =
        Returned (Some (in_month n (index_len n) t))"
      using w k Suc.hyps(2) by (intro Suc.hyps(1)) simp_all
    then show ?thesis using in_month_overflow [of n w t] w(4) by simp
  qed
  finally show ?case .
qed simp

lemma day_of_month:
  "1 \<le> date_of_day (day_of t)" "date_of_day (day_of t) \<le> 31" "date_of_day (day_of t) \<le> index_len (month_index t)"
  using date_range [of "day_of t"] month_len_bounds(2) [of "year_of_day (day_of t)" "month_of_day (day_of t)"]
  by (simp_all add: index_len_def month_index_fields)

definition month_base :: "int \<Rightarrow> int" where
  "month_base n = make_day (n div 12) (n mod 12) 0"

lemma in_month_base: "in_month n v t = (month_base n + v) * ms_day + t mod ms_day"
  using make_day_shift [of "n div 12" "n mod 12" 0 v] by (simp add: in_month_def month_base_def)

lemma month_base_next: "month_base (n + 1) = month_base n + index_len n"
  unfolding month_base_def make_day_next [OF refl] using make_day_shift [of _ _ 0 "index_len n"] by simp

lemma month_base_near: "\<bar>month_base (n + k) - month_base n\<bar> \<le> 31 * \<bar>k\<bar>"
proof (induction k rule: int_induct [of _ 0])
  case (step1 i)
  then show ?case using month_base_next [of "n + i"] index_len_bounds [of "n + i"] by (simp add: add.assoc)
next
  case (step2 i)
  then show ?case using month_base_next [of "n + (i - 1)"] index_len_bounds [of "n + (i - 1)"] by simp
qed simp

lemma in_month_near:
  assumes "1 \<le> v" "v \<le> 31"
  shows "\<bar>in_month (month_index t + k) v t - t\<bar> \<le> (31 * \<bar>k\<bar> + 31) * ms_day"
proof -
  define d where "d = date_of_day (day_of t)"
  have d: "1 \<le> d" "d \<le> 31" by (simp_all add: d_def day_of_month)
  have "t = (month_base (month_index t) + d) * ms_day + t mod ms_day"
    using in_month_self [of t] by (simp add: in_month_base flip: d_def)
  then have "in_month (month_index t + k) v t - t =
      (month_base (month_index t + k) - month_base (month_index t) + v - d) * ms_day"
    unfolding in_month_base by (simp add: algebra_simps)
  moreover have "\<bar>month_base (month_index t + k) - month_base (month_index t) + v - d\<bar> \<le> 31 * \<bar>k\<bar> + 31"
    using month_base_near [of "month_index t" k] d assms by linarith
  ultimately show ?thesis by (simp add: abs_mult ms_day_def)
qed

lemma days_left_mono: "days_left k t \<Longrightarrow> j \<le> k \<Longrightarrow> days_left j t"
  using mult_right_mono [of j k ms_day] by (simp add: days_left_def ms_day_def)

lemma in_month_clip:
  assumes "days_left j t" "31 * \<bar>k\<bar> + 31 \<le> j" "1 \<le> v" "v \<le> 31"
  shows "\<bar>in_month (month_index t + k) v t\<bar> \<le> 8640000000000000"
  using in_month_near [OF assms(3,4), of t k] days_left_mono [OF assms(1,2)] unfolding days_left_def
  by linarith

lemma month_shift_fields:
  "month_index (month_shift k t) = month_index t + k" "month_shift k t mod ms_day = t mod ms_day"
  "date_of_day (day_of (month_shift k t)) = min (date_of_day (day_of t)) (index_len (month_index t + k))"
  using date_range [of "day_of t"] index_len_bounds [of "month_index t + k"]
  by (simp_all add: month_shift_def fields_in_month)

lemma month_shift_near: "\<bar>month_shift k t - t\<bar> \<le> (31 * \<bar>k\<bar> + 31) * ms_day"
proof -
  define v where "v = min (date_of_day (day_of t)) (index_len (month_index t + k))"
  have "1 \<le> v" "v \<le> 31" using day_of_month [of t] index_len_bounds [of "month_index t + k"] by (simp_all add: v_def)
  then show ?thesis using in_month_near [of v t k] by (simp add: month_shift_def flip: v_def)
qed

lemma days_left_near:
  assumes "days_left (i + j) t" "\<bar>u - t\<bar> \<le> i * ms_day"
  shows "days_left j u"
  using assms unfolding days_left_def distrib_right by linarith

lemma month_shift_days_left:
  assumes "days_left (j + 62) t" "\<bar>k\<bar> = 1"
  shows "days_left j (month_shift k t)"
proof (rule days_left_near)
  show "days_left (62 + j) t" using assms(1) by (simp add: add.commute)
  show "\<bar>month_shift k t - t\<bar> \<le> 62 * ms_day" using month_shift_near [of k t] unfolding assms(2) by simp
qed

text \<open>The day \<open>v\<close> of the month \<open>n\<close>, followed by the date-resetting loop.\<close>

lemma reset_day_clamps:
  assumes v: "1 \<le> v" "v \<le> 31"
    and test: "\<And>w. 1 \<le> w \<Longrightarrow> w \<le> 31 \<Longrightarrow> index_len n < 31 \<Longrightarrow> test (Some (in_month (n + 1) w t))"
    and stop: "\<And>w. 1 \<le> w \<Longrightarrow> w \<le> index_len n \<Longrightarrow> \<not> test (Some (in_month n w t))"
    and clip: "\<And>v. 1 \<le> v \<Longrightarrow> v \<le> 31 \<Longrightarrow> \<bar>in_month n v t\<bar> \<le> 8640000000000000"
      "\<And>v. 1 \<le> v \<Longrightarrow> v \<le> 31 \<Longrightarrow> \<bar>in_month (n + 1) v t\<bar> \<le> 8640000000000000"
  shows "reset_day test (Some (n mod 12)) (Some (in_month n v t)) (Some v) =
    Returned (Some (in_month n (min v (index_len n)) t))"
proof (cases "v \<le> index_len n")
  case True
  then show ?thesis using v stop by (simp add: reset_day_stops)
next
  case False
  define w where "w = v - index_len n"
  have w: "1 \<le> w" "w \<le> 31" "v = index_len n + w"
    using False v index_len_bounds [of n] by (simp_all add: w_def)
  have "reset_day test (Some (n mod 12)) (Some (in_month (n + 1) w t)) (Some v) =
      Returned (Some (in_month n (index_len n) t))"
    using False v w index_len_bounds [of n] by (intro reset_day_ends test stop clip) simp_all
  then show ?thesis using in_month_overflow [of n w t] w(3) False by simp
qed

lemma move_one_month_shift:
  assumes "days_left 93 t" and "dir \<in> {1, - 1}"
  shows "move_one_month dir (Some t) = Returned (Some (month_shift dir t))"
proof -
  define ix where "ix = month_index t"
  define m d where "m = month_of_day (day_of t)" and "d = date_of_day (day_of t)"
  have d: "1 \<le> d" "d \<le> 31" "d \<le> index_len ix"
    by (simp_all add: d_def ix_def day_of_month)
  have m: "ix mod 12 = m" "0 \<le> m" "m < 12" by (simp_all add: ix_def month_index_fields m_def)
  define n where "n = ix + dir"
  have prev: "(ix - 1) mod 12 = (if m = 0 then 11 else m - 1)"
    using next_month(1) [of "ix - 1"] m pos_mod_sign [of 12 "ix - 1"] by (simp split: if_splits)
  have new_month: "wrap_month (m + dir) = n mod 12"
  proof (cases "dir = 1")
    case True
    then show ?thesis using next_month(1) [of ix] m by (simp add: n_def wrap_month_def)
  next
    case False
    then have "dir = - 1" using assms(2) by simp
    then show ?thesis using prev m by (simp add: n_def wrap_month_def)
  qed
  have first: "setUTCMonth (Some (m + dir)) (Some t) = Some (in_month n d t)"
  proof -
    have "12 * (ix div 12) + (m + dir) = n"
      using m(1) mult_div_mod_eq [of 12 ix] by (simp add: n_def)
    moreover have "\<bar>in_month n d t\<bar> \<le> 8640000000000000"
      using in_month_clip [OF assms(1), of dir d] assms(2) d by (auto simp: n_def ix_def)
    ultimately show ?thesis
      using setUTCMonth_in_month [of d ix "m + dir" t] d in_month_self [of t]
      by (simp add: ix_def d_def)
  qed
  have clip: "\<bar>in_month n v t\<bar> \<le> 8640000000000000" "\<bar>in_month (n + 1) v t\<bar> \<le> 8640000000000000"
    if "1 \<le> v" "v \<le> 31" for v
    using in_month_clip [OF assms(1), of dir v] in_month_clip [OF assms(1), of "dir + 1" v] assms(2) that
    by (auto simp: n_def ix_def add.assoc)
  define test where "test = (if dir = - 1 then (\<lambda>e. same_num (getUTCMonth e) (Some m))
      else (\<lambda>e. \<not> same_num (getUTCMonth e) (Some (n mod 12))))"
  have "reset_day test (Some (n mod 12)) (Some (in_month n d t)) (Some d) =
      Returned (Some (in_month n (min d (index_len n)) t))"
  proof (intro reset_day_clamps d clip)
    fix w assume w: "1 \<le> w" "w \<le> (31 :: int)" "index_len n < 31"
    then have "month_of_day (day_of (in_month (n + 1) w t)) = (n + 1) mod 12"
      using short_month [of n] by (simp add: fields_in_month)
    then show "test (Some (in_month (n + 1) w t))"
      using assms(2) short_month(2) [OF w(3)] m(1) by (cases "dir = - 1") (simp_all add: test_def same_num_def n_def)
  next
    fix w assume "1 \<le> w" "w \<le> index_len n"
    then have "month_of_day (day_of (in_month n w t)) = n mod 12" by (simp add: fields_in_month)
    then show "\<not> test (Some (in_month n w t))"
      using prev m by (cases "dir = - 1") (simp_all add: test_def same_num_def n_def)
  qed simp_all
  then show ?thesis
    unfolding move_one_month_def Let_def
    by (simp add: plus_num_def first new_month month_shift_def test_def
        flip: m_def d_def n_def ix_def split: if_splits)
qed

lemma move_months_shift:
  assumes "days_left (62 * int n + 93) t" and "dir \<in> {1, - 1}"
  shows "\<exists>u. move_months n dir (Some t) = Returned (Some u) \<and> month_index u = month_index t + int n * dir \<and>
    u mod ms_day = t mod ms_day \<and> days_left 93 u"
  using assms(1)
proof (induction n arbitrary: t)
  case (Suc n)
  define s where "s = month_shift dir t"
  have "move_one_month dir (Some t) = Returned (Some s)"
    using move_one_month_shift [OF days_left_mono [OF Suc.prems] assms(2)] by (simp add: s_def)
  moreover have "days_left (62 * int n + 93) s"
    unfolding s_def using Suc.prems assms(2) by (intro month_shift_days_left) (auto simp: algebra_simps)
  then obtain u where "move_months n dir (Some s) = Returned (Some u)"
    "month_index u = month_index s + int n * dir" "u mod ms_day = s mod ms_day" "days_left 93 u"
    using Suc.IH by blast
  ultimately show ?case
    using month_shift_fields [of dir t] by (auto simp: s_def algebra_simps)
qed simp

lemma reset_to_day:
  assumes "month_index u = n" "u mod ms_day = t mod ms_day" "days_left 93 u" "1 \<le> v" "v \<le> 31"
  shows "reset_day (\<lambda>d. \<not> same_num (getUTCMonth (Some u)) (getUTCMonth d)) (getUTCMonth (Some u))
      (setUTCDate (Some v) (Some u)) (Some v) =
    Returned (Some (in_month n (min v (index_len n)) t))"
proof -
  have same: "in_month k w u = in_month k w t" for k w using assms(2) by (simp add: in_month_def)
  have month: "month_of_day (day_of u) = n mod 12" using assms(1) month_index_fields(2) [of u] by simp
  have clip: "\<bar>in_month n w t\<bar> \<le> 8640000000000000" "\<bar>in_month (n + 1) w t\<bar> \<le> 8640000000000000"
    if "1 \<le> w" "w \<le> 31" for w
    using in_month_clip [OF assms(3), of 0 w] in_month_clip [OF assms(3), of 1 w] assms(1) that
    by (simp_all add: same)
  have "setUTCDate (Some v) (Some u) = Some (in_month n v t)"
    using setUTCDate_in_month [of "date_of_day (day_of u)" "month_index u" v u] in_month_self [of u]
      day_of_month [of u] clip [of v] assms by (simp add: same)
  moreover have "reset_day (\<lambda>d. \<not> same_num (Some (n mod 12)) (getUTCMonth d)) (Some (n mod 12))
      (Some (in_month n v t)) (Some v) = Returned (Some (in_month n (min v (index_len n)) t))"
    using assms short_month [of n] clip
    by (intro reset_day_clamps) (simp_all add: fields_in_month same_num_def)
  ultimately show ?thesis by (simp add: month)
qed

lemma moveMonth_shift:
  assumes "days_left (62 * \<bar>k\<bar> + 93) t"
  shows "moveMonth (Some t) k = Returned (Some (month_shift k t))"
proof -
  define dir :: int where "dir = (if 0 < k then 1 else - 1)"
  have dir: "dir \<in> {1, - 1}" and k: "k \<noteq> 0 \<Longrightarrow> int (nat \<bar>k\<bar>) * dir = k" by (auto simp: dir_def)
  consider "k = 0" | "\<bar>k\<bar> = 1" | "k \<noteq> 0" "\<bar>k\<bar> \<noteq> 1" by blast
  then show ?thesis
  proof cases
    case 1
    then show ?thesis
      using in_month_self [of t] day_of_month [of t] by (simp add: moveMonth_def month_shift_def min_def)
  next
    case 2
    then have "k \<in> {1, - 1}" by auto
    moreover have "days_left 93 t" using days_left_mono [OF assms, of 93] by simp
    ultimately have "move_one_month k (Some t) = Returned (Some (month_shift k t))"
      by (intro move_one_month_shift)
    moreover have "moveMonth (Some t) k = move_one_month k (Some t)"
      using \<open>k \<in> {1, - 1}\<close> by (auto simp: moveMonth_def)
    ultimately show ?thesis by simp
  next
    case 3
    obtain u where u: "move_months (nat \<bar>k\<bar>) dir (Some t) = Returned (Some u)" "month_index u = month_index t + k"
      "u mod ms_day = t mod ms_day" "days_left 93 u"
      using move_months_shift [of "nat \<bar>k\<bar>" t dir] assms dir k [OF 3(1)] by auto
    have "moveMonth (Some t) k = exec_bind (move_months (nat \<bar>k\<bar>) dir (Some t)) (\<lambda>d.
        reset_day (\<lambda>e. \<not> same_num (getUTCMonth d) (getUTCMonth e)) (getUTCMonth d)
          (setUTCDate (getUTCDate (Some t)) d) (getUTCDate (Some t)))"
      using 3 by (simp add: moveMonth_def dir_def Let_def)
    then show ?thesis
      using reset_to_day [OF u(2-4), of "date_of_day (day_of t)"] day_of_month [of t]
      by (simp add: u(1) month_shift_def)
  qed
qed

text \<open>On an invalid date a move forwards never ends.\<close>

lemma move_forwards_NaN: "move_one_month 1 None = Hangs"
proof -
  have "loop (\<lambda>(d, _). \<not> same_num (getUTCMonth d) None)
      (\<lambda>(d, n). let n' = plus_num n (- 1) in (setUTCMonth None (setUTCDate n' d), n')) (None, None) = Hangs"
    by (rule loop_stuck) (simp_all add: same_num_def plus_num_def)
  then show ?thesis by (simp add: move_one_month_def reset_day_def plus_num_def cong: if_cong)
qed

section \<open>The month setter\<close>

lemma setUTCDate_shift:
  "setUTCDate (Some (date_of_day (day_of t) + k)) (Some t) = time_clip (t + k * ms_day)"
proof -
  have "make_day (year_of_day (day_of t)) (month_of_day (day_of t)) (date_of_day (day_of t) + k) * ms_day + t mod ms_day
      = t + k * ms_day"
    using day_of_split [of t] by (simp add: make_day_shift distrib_right)
  then show ?thesis by (simp add: setUTCDate_def num2_def)
qed

lemma loop_add12: "loop (\<lambda>v. v < 0) (\<lambda>v. v + 12) (v :: int) = Returned (if v < 0 then v mod 12 else v)"
proof (induction "nat (- v)" arbitrary: v rule: less_induct)
  case less
  show ?case
  proof (cases "v < 0")
    case True
    then have "loop (\<lambda>v. v < 0) (\<lambda>v. v + 12) (v + 12) = Returned (if v + 12 < 0 then (v + 12) mod 12 else v + 12)"
      by (intro less) simp
    moreover have "v + 12 = v mod 12" if "\<not> v + 12 < 0"
      using True that int_mod_pos_eq [of v 12 "- 1" "v + 12"] by simp
    ultimately show ?thesis using True by (subst loop_unfold) (auto split: if_splits)
  qed (simp add: loop_unfold)
qed

text \<open>Going back a day at a time ends: at the wanted month, or before the first valid date.\<close>

lemma back_loop_ends:
  "\<exists>d'. loop (\<lambda>d. \<not> same_num (getUTCMonth d) (Some v) \<and> getUTCMonth d \<noteq> None)
     (\<lambda>d. setUTCDate (plus_num (getUTCDate d) (- 1)) d) d = Returned d'"
proof (cases d)
  case (Some t)
  have "\<exists>d'. loop (\<lambda>d. \<not> same_num (getUTCMonth d) (Some v) \<and> getUTCMonth d \<noteq> None)
      (\<lambda>d. setUTCDate (plus_num (getUTCDate d) (- 1)) d) (Some t) = Returned d'"
  proof (induction "nat (t + 8640000000000000 + ms_day)" arbitrary: t rule: less_induct)
    case less
    show ?case
    proof (cases "\<bar>t - ms_day\<bar> \<le> 8640000000000000")
      case True
      then have "setUTCDate (plus_num (getUTCDate (Some t)) (- 1)) (Some t) = Some (t - ms_day)"
        using setUTCDate_shift [of t "- 1"] by (simp add: plus_num_def)
      moreover have "nat (t - ms_day + 8640000000000000 + ms_day) < nat (t + 8640000000000000 + ms_day)"
        using True by (simp add: ms_day_def)
      ultimately show ?thesis using less [of "t - ms_day"] by (subst loop_unfold) auto
    next
      case False
      then have "setUTCDate (plus_num (getUTCDate (Some t)) (- 1)) (Some t) = None"
        using setUTCDate_shift [of t "- 1"] by (simp add: plus_num_def time_clip_def)
      then show ?thesis by (subst loop_unfold) (auto simp: loop_unfold [of _ _ None])
    qed
  qed
  with Some show ?thesis by simp
qed (simp add: loop_unfold)

lemma set_month_ends: "\<exists>d'. set_month v d = Returned d'"
  using back_loop_ends by (simp add: set_month_def loop_add12)

text \<open>On a date well inside the range the setter keeps the day or takes the last one of the month.\<close>

lemma back_loop_clamps:
  assumes "n mod 12 = v" "1 \<le> w" "w \<le> 31"
    and clip: "\<And>w. 1 \<le> w \<Longrightarrow> w \<le> 31 \<Longrightarrow> \<bar>in_month n w t\<bar> \<le> 8640000000000000"
  shows "loop (\<lambda>d. \<not> same_num (getUTCMonth d) (Some v) \<and> getUTCMonth d \<noteq> None)
     (\<lambda>d. setUTCDate (plus_num (getUTCDate d) (- 1)) d) (Some (in_month n w t)) =
     Returned (Some (in_month n (min w (index_len n)) t))"
  using assms(2,3)
proof (induction "nat w" arbitrary: w rule: less_induct)
  case less
  show ?case
  proof (cases "w \<le> index_len n")
    case True
    then have "month_of_day (day_of (in_month n w t)) = v" using less.prems assms(1) by (simp add: fields_in_month)
    then show ?thesis using True by (subst loop_unfold) (simp add: same_num_def)
  next
    case False
    then have w: "1 \<le> w - index_len n" "w - index_len n \<le> 31" "index_len n < 31" "1 \<le> w - 1"
      using less.prems index_len_bounds [of n] by linarith+
    have "month_of_day (day_of (in_month n w t)) = (n + 1) mod 12"
      using in_month_overflow [of n "w - index_len n" t] w short_month [of n] fields_in_month(3) [of "w - index_len n" "n + 1" t]
      by simp
    then have "\<not> same_num (getUTCMonth (Some (in_month n w t))) (Some v)"
      using short_month [OF w(3)] assms(1) by (simp add: same_num_def)
    moreover have "setUTCDate (plus_num (getUTCDate (Some (in_month n w t))) (- 1)) (Some (in_month n w t)) =
        Some (in_month n (w - 1) t)"
      using setUTCDate_shift [of "in_month n w t" "- 1"] clip [of "w - 1"] w less.prems
      by (simp add: plus_num_def in_month_base algebra_simps)
    moreover have "loop (\<lambda>d. \<not> same_num (getUTCMonth d) (Some v) \<and> getUTCMonth d \<noteq> None)
        (\<lambda>d. setUTCDate (plus_num (getUTCDate d) (- 1)) d) (Some (in_month n (w - 1) t)) =
        Returned (Some (in_month n (min (w - 1) (index_len n)) t))"
      using w less.prems by (intro less.hyps) simp_all
    moreover have "min (w - 1) (index_len n) = min w (index_len n)" using False by simp
    ultimately show ?thesis by (subst loop_unfold) simp
  qed
qed

lemma set_month_in_month:
  assumes "1 \<le> v" "v \<le> 12" "1 \<le> w" "w \<le> index_len (12 * y + 11)"
    and clip: "\<And>w. 1 \<le> w \<Longrightarrow> w \<le> 31 \<Longrightarrow> \<bar>in_month (12 * y + (v - 1)) w t\<bar> \<le> 8640000000000000"
  shows "set_month v (Some (in_month (12 * y + 11) w t)) =
    Returned (Some (in_month (12 * y + (v - 1)) (min w (index_len (12 * y + (v - 1)))) t))"
proof -
  have w: "w \<le> 31" using assms(4) index_len_bounds [of "12 * y + 11"] by simp
  have v: "(v - 1) mod 12 = v - 1" "(12 * y + (v - 1)) mod 12 = v - 1" using assms(1,2) by simp_all
  have "setUTCMonth (Some (v - 1)) (Some (in_month (12 * y + 11) w t)) = Some (in_month (12 * y + (v - 1)) w t)"
    using setUTCMonth_in_month [OF assms(3,4), of "v - 1" t] clip [of w] assms(3) w by simp
  then show ?thesis
    using back_loop_clamps [OF v(2) assms(3) w clip] assms(1) v(1) by (simp add: set_month_def loop_add12)
qed

section \<open>Reading a text returns\<close>

lemma run_setters_ends:
  "run_setters ss m d \<noteq> Hangs \<and>
   ((\<forall>p. p \<in> {''D'', ''DD''} \<longrightarrow> m p = None) \<longrightarrow> set ss \<subseteq> set setters_order \<longrightarrow> (\<exists>d'. run_setters ss m d = Returned d'))"
proof (induction ss arbitrary: d)
  case (Cons p ss)
  show ?case
  proof (cases "\<exists>v. m p = Some (Some v)")
    case True
    then obtain v where v: "m p = Some (Some v)" by blast
    show ?thesis
    proof (cases "set_part p v d")
      case (Returned d')
      with Cons [of d'] v show ?thesis by simp
    next
      case (Thrown e)
      then have "p \<in> set setters_order \<Longrightarrow> p \<in> {''D'', ''DD''}"
        using set_month_ends [of v d] by (auto simp: set_part_def setters_order_def split: if_splits)
      with Thrown v show ?thesis by auto
    next
      case Hangs
      then show ?thesis using set_month_ends [of v d] by (auto simp: set_part_def split: if_splits)
    qed
  next
    case False
    then have "run_setters (p # ss) m d = run_setters ss m d" by (auto split: option.splits)
    with Cons [of d] show ?thesis by auto
  qed
qed simp

lemma parsed_parts_dom: "m p = None \<Longrightarrow> p \<notin> set ps \<Longrightarrow> parsed_parts ps ts m p = None"
  by (induction ps ts m rule: parsed_parts.induct) auto

lemma parse_parts_ends:
  "parse_parts format tokens \<noteq> Hangs"
  "''D'' \<notin> set (parts format) \<Longrightarrow> ''DD'' \<notin> set (parts format) \<Longrightarrow> \<exists>d. parse_parts format tokens = Returned d"
  using run_setters_ends [of setters_order "parsed_parts (parts format) tokens Map.empty" base_date]
    parsed_parts_dom [of Map.empty _ "parts format" tokens]
  by (auto simp: parse_parts_def)

lemma text_formats:
  "parseFormat ''yyyy-mm-dd'' = Returned \<lparr>separators = ['''', ''-'', ''-'', ''''], parts = [''yyyy'', ''mm'', ''dd'']\<rparr>"
  "parseFormat ''yyyy-mm-dd hh:ii'' = Returned \<lparr>separators = ['''', ''-'', ''-'', '' '', '':'', ''''],
     parts = [''yyyy'', ''mm'', ''dd'', ''hh'', ''ii'']\<rparr>"
  "parseFormat ''yyyy-mm-dd hh:ii:ss'' = Returned \<lparr>separators = ['''', ''-'', ''-'', '' '', '':'', '':'', ''''],
     parts = [''yyyy'', ''mm'', ''dd'', ''hh'', ''ii'', ''ss'']\<rparr>"
  by (simp_all add: parseFormat_def part_len_def)

lemma text_format_parses:
  "text_format s = Some f \<Longrightarrow> \<exists>fmt. parseFormat f = Returned fmt \<and> ''D'' \<notin> set (parts fmt) \<and> ''DD'' \<notin> set (parts fmt)"
  by (auto simp: text_format_def text_formats split: if_splits)

lemma parseDate_ends:
  assumes "rel_items s = None"
  shows "parseDate now tzo format (DText s) \<noteq> Hangs"
    and "''D'' \<notin> set (parts format) \<Longrightarrow> ''DD'' \<notin> set (parts format) \<Longrightarrow>
      \<exists>d. parseDate now tzo format (DText s) = Returned d"
  using text_format_parses [of s] parse_parts_ends [of _ "runs s"]
  by (auto simp: parseDate_def assms split: option.split)

section \<open>Texts with a date and a time\<close>

definition all_digits :: "string \<Rightarrow> bool" where
  "all_digits ds \<longleftrightarrow> ds \<noteq> [] \<and> set ds \<subseteq> set digits"

definition minute_text :: "string \<Rightarrow> string \<Rightarrow> string \<Rightarrow> string \<Rightarrow> string \<Rightarrow> string" where
  "minute_text y m d h i = y @ ''-'' @ m @ ''-'' @ d @ '' '' @ h @ '':'' @ i"

lemma digit_nonpunct: "c \<in> set digits \<Longrightarrow> nonpunct c"
  by (auto simp: digits_def nonpunct_def)

lemma runs_digits:
  assumes "all_digits ds"
  shows "runs ds = [ds]" "\<not> nonpunct c \<Longrightarrow> runs (ds @ c # s) = ds # runs s"
proof -
  obtain e es where ds: "ds = e # es" using assms by (cases ds) (auto simp: all_digits_def)
  have "\<forall>x \<in> set ds. nonpunct x" using assms digit_nonpunct by (auto simp: all_digits_def)
  then have split: "takeWhile nonpunct (es @ r) = es @ takeWhile nonpunct r"
    "dropWhile nonpunct (es @ r) = dropWhile nonpunct r" and e: "nonpunct e" for r
    by (simp_all add: ds takeWhile_append2 dropWhile_append2)
  have all: "takeWhile nonpunct es = es" "dropWhile nonpunct es = []" using split [of "[]"] by simp_all
  show "runs ds = [ds]" "\<not> nonpunct c \<Longrightarrow> runs (ds @ c # s) = ds # runs s"
    by (simp_all add: ds split e all)
qed

lemma runs_minute_text:
  assumes "all_digits y" "all_digits m" "all_digits d" "all_digits h" "all_digits i"
  shows "runs (minute_text y m d h i) = [y, m, d, h, i]"
proof -
  have "\<not> nonpunct (CHR ''-'')" "\<not> nonpunct (CHR '' '')" "\<not> nonpunct (CHR '':'')" by (simp_all add: nonpunct_def)
  then show ?thesis using assms by (simp add: minute_text_def runs_digits)
qed

lemma skip_digits_run:
  assumes "all_digits ds" "s = [] \<or> hd s \<notin> set digits"
  shows "skip_digits lo hi (ds @ s) = (if lo \<le> length ds \<and> length ds \<le> hi then Some s else None)"
proof -
  have "takeWhile (\<lambda>c. c \<in> set digits) (ds @ s) = ds"
    using assms by (cases s) (auto simp: all_digits_def subset_iff takeWhile_append2)
  then show ?thesis by (simp add: skip_digits_def)
qed

lemma text_format_minute:
  assumes "all_digits y" "all_digits m" "all_digits d" "all_digits h" "all_digits i"
    and "length m \<le> 2" "length d \<le> 2" "length h \<le> 2" "length i \<le> 2"
  shows "text_format (minute_text y m d h i) = (if length y = 4 then Some ''yyyy-mm-dd hh:ii'' else None)"
proof -
  have not_digit: "CHR ''-'' \<notin> set digits" "CHR '' '' \<notin> set digits" "CHR '':'' \<notin> set digits"
    by (simp_all add: digits_def)
  have len: "0 < length m" "0 < length d" "0 < length h" "0 < length i" using assms by (simp_all add: all_digits_def)
  have i: "skip_digits lo hi i = (if lo \<le> length i \<and> length i \<le> hi then Some [] else None)" for lo hi
    using skip_digits_run [OF assms(5), of "[]"] by simp
  show ?thesis
    using assms len
    by (simp add: text_format_def ymd_re_def hm_re_def s_re_def minute_text_def skip_digits_run i
        not_digit skip_char_def Suc_le_eq)
qed

lemma digits_no_sign: "c \<in> set digits \<Longrightarrow> c \<noteq> CHR ''-'' \<and> c \<noteq> CHR ''+'' \<and> \<not> is_ws c"
  by (auto simp: digits_def is_ws_def)

lemma minute_text_absolute:
  assumes "all_digits y"
  shows "rel_items (minute_text y m d h i) = None" "trim (minute_text y m d h i) \<noteq> []"
proof -
  obtain c cs where y: "y = c # cs" "c \<in> set digits" using assms by (cases y) (auto simp: all_digits_def)
  then show "rel_items (minute_text y m d h i) = None"
    using digits_no_sign [of c] by (simp add: rel_items.simps rel_item_def minute_text_def)
  show "trim (minute_text y m d h i) \<noteq> []"
    using y digits_no_sign [of c] by (auto simp: trim_Nil_iff minute_text_def)
qed

lemma parseInt10_digits:
  assumes "all_digits ds"
  shows "parseInt10 ds = map_option int (read_nat ds)"
proof -
  obtain c cs where ds: "ds = c # cs" "c \<in> set digits" using assms by (cases ds) (auto simp: all_digits_def)
  have "takeWhile (\<lambda>c. c \<in> set digits) ds = ds"
    using assms by (simp add: takeWhile_eq_all_conv all_digits_def subset_iff)
  moreover have "parseInt10 ds = map_option int (read_nat (takeWhile (\<lambda>c. c \<in> set digits) ds))"
    using digits_no_sign [OF ds(2)] by (simp add: parseInt10_def Let_def ds(1))
  ultimately show ?thesis by (simp only:)
qed

lemma show_nat_all_digits [simp]: "all_digits (show_nat n)"
  using show_nat_digits [of n] by (simp add: all_digits_def)

lemma zero_show_nat: "all_digits (CHR ''0'' # show_nat n)" "read_nat (CHR ''0'' # show_nat n) = Some n"
  using show_nat_digits [of n] read_acc_show_nat [of n]
  by (auto simp: all_digits_def digits_def read_nat_def digit_val_def upt_rec)

lemma two_digits_text:
  assumes "0 \<le> n"
  shows "all_digits (two_digits (Some n))" "parseInt10 (two_digits (Some n)) = Some n"
    "all_digits (num_str (Some n))" "parseInt10 (num_str (Some n)) = Some n"
  using assms zero_show_nat [of "nat n"]
  by (auto simp: two_digits_def num_str_def show_int_def num_less_def parseInt10_digits)

lemma two_digits_length: "0 \<le> n \<Longrightarrow> n < 100 \<Longrightarrow> length (two_digits (Some n)) = 2"
  by (auto simp: two_digits_def num_str_def show_int_def num_less_def show_nat.simps [of "nat n"]
      show_nat.simps [of "nat n div 10"] less_mult_imp_div_less nat_less_iff)

section \<open>Reading the pages' format\<close>

definition page_format :: date_format where
  "page_format = \<lparr>separators = ['''', ''-'', ''-'', '' '', '':'', ''''], parts = [''yyyy'', ''mm'', ''dd'', ''hh'', ''ii'']\<rparr>"

text \<open>A minute of the calendar in the years the console can meet.\<close>

definition calendar_minute :: "int \<Rightarrow> int \<Rightarrow> int \<Rightarrow> int \<Rightarrow> int \<Rightarrow> bool" where
  "calendar_minute y m d h i \<longleftrightarrow> 0 \<le> y \<and> y \<le> 9999 \<and> 0 \<le> m \<and> m < 12 \<and> 1 \<le> d \<and> d \<le> month_len y m \<and>
     0 \<le> h \<and> h < 24 \<and> 0 \<le> i \<and> i < 60"

definition minute_time :: "int \<Rightarrow> int \<Rightarrow> int \<Rightarrow> int \<Rightarrow> int \<Rightarrow> int" where
  "minute_time y m d h i = make_day y m d * ms_day + make_time h i 0 0"

lemma make_day_bounds:
  assumes "0 \<le> y" "y \<le> 9999" "0 \<le> m" "m < 12" "1 \<le> w" "w \<le> 31"
  shows "- 900000 \<le> make_day y m w" "make_day y m w \<le> 4001000"
proof -
  have "make_day y m w = day_from_year y + month_start y m + w - 1"
    using assms by (simp add: make_day_def)
  moreover have "0 \<le> month_start y m" "month_start y m \<le> 366"
    using month_start_bound [OF assms(3,4), of y] month_len_bounds [of y m] day_from_year_Suc [of y]
    by (simp_all split: if_splits)
  moreover have "- 800000 \<le> day_from_year y" using day_from_year_near(2) [of y] assms(1) by simp
  moreover have "day_from_year y \<le> 4000000" using day_from_year_near(1) [of y] assms(2) by simp
  ultimately show "- 900000 \<le> make_day y m w" "make_day y m w \<le> 4001000" using assms by linarith+
qed

lemma year_clip:
  assumes "0 \<le> y" "y \<le> 9999" "0 \<le> m" "m < 12" "1 \<le> w" "w \<le> 31"
  shows "\<bar>in_month (12 * y + m) w t\<bar> \<le> 8640000000000000"
proof -
  have "in_month (12 * y + m) w t = make_day y m w * ms_day + t mod ms_day"
    using assms(3,4) by (simp add: in_month_def)
  then show ?thesis using make_day_bounds [OF assms] mod_ms_day(1,2) [of t] by (simp add: ms_day_def)
qed

lemma base_date_eq: "base_date = Some (- 25568 * ms_day)"
  by code_simp

lemma base_fields:
  assumes "0 \<le> r" "r < ms_day"
  shows "year_of_day (day_of (- 25568 * ms_day + r)) = 1899"
    "month_of_day (day_of (- 25568 * ms_day + r)) = 11" "date_of_day (day_of (- 25568 * ms_day + r)) = 31"
proof -
  have "day_of (- 25568 * ms_day + r) = - 25568" using assms by (rule day_of_make)
  moreover have "year_of_day (- 25568) = 1899" "month_of_day (- 25568) = 11" "date_of_day (- 25568) = 31" by code_simp+
  ultimately show "year_of_day (day_of (- 25568 * ms_day + r)) = 1899"
    "month_of_day (day_of (- 25568 * ms_day + r)) = 11" "date_of_day (day_of (- 25568 * ms_day + r)) = 31"
    by simp_all
qed

lemma setters_minute:
  assumes "calendar_minute y m d h i"
  shows "run_setters setters_order [''yyyy'' \<mapsto> Some y, ''mm'' \<mapsto> Some (m + 1), ''dd'' \<mapsto> Some d, ''hh'' \<mapsto> Some h,
      ''ii'' \<mapsto> Some i] base_date = Returned (Some (minute_time y m d h i))"
proof -
  define r where "r = make_time h i 0 0"
  define t where "t = - 25568 * ms_day + r"
  have v: "0 \<le> y" "y \<le> 9999" "0 \<le> m" "m < 12" "1 \<le> d" "d \<le> month_len y m" "0 \<le> h" "h < 24" "0 \<le> i" "i < 60"
    using assms by (simp_all add: calendar_minute_def)
  have r: "0 \<le> r" "r < ms_day" using make_time_bounds [of h i 0 0] v by (simp_all add: r_def)
  define t0 where "t0 = - 25568 * ms_day + make_time h 0 0 0"
  have hours: "setUTCHours (Some h) base_date = Some t0"
    using v by (simp add: base_date_eq t0_def setUTCHours_def num2_def ms_day_def make_time_def day_of_def
        minute_of_def second_of_def time_clip_def)
  have "day_of t0 = - 25568" "hour_of t0 = h" "second_of t0 = 0" "t0 mod 1000 = 0"
    unfolding t0_def using v make_time_bounds [of h 0 0 0] by (simp_all only: fields_make_time day_of_make)
  then have minutes: "setUTCMinutes (Some i) (Some t0) = Some t"
    using v by (simp add: setUTCMinutes_def num2_def t_def r_def) (simp add: ms_day_def make_time_def time_clip_def)
  have t_mod: "t mod ms_day = r" using r unfolding t_def by (simp only: mod_mult_self3 mod_pos_pos_trivial)
  have clip: "\<bar>in_month (12 * y + k) w t\<bar> \<le> 8640000000000000" if "0 \<le> k" "k < 12" "1 \<le> w" "w \<le> 31" for k w
    using year_clip v that by blast
  have year: "setUTCFullYear (Some y) (Some t) = Some (in_month (12 * y + 11) 31 t)"
    using base_fields [OF r, folded t_def] clip [of 11 31] by (simp add: setUTCFullYear_def in_month_def)
  have len: "index_len (12 * y + 11) = 31" "index_len (12 * y + m) = month_len y m"
    using v by (simp_all add: index_len_def month_len_def)
  define w where "w = min 31 (index_len (12 * y + m))"
  have month: "set_month (m + 1) (Some (in_month (12 * y + 11) 31 t)) = Returned (Some (in_month (12 * y + m) w t))"
    using set_month_in_month [of "m + 1" 31 y t] clip v len by (simp add: w_def)
  have "1 \<le> w" "w \<le> index_len (12 * y + m)" using index_len_bounds [of "12 * y + m"] by (simp_all add: w_def)
  then have "setUTCDate (Some d) (Some (in_month (12 * y + m) w t)) = Some (in_month (12 * y + m) d t)"
    using setUTCDate_in_month clip [of m d] v month_len_bounds [of y m] by simp
  moreover have "in_month (12 * y + m) d t = minute_time y m d h i"
    using v by (simp add: in_month_def t_mod minute_time_def r_def)
  ultimately show ?thesis
    by (simp add: setters_order_def set_part_def hours minutes year month)
qed

text \<open>Every text that has the five numbers of a minute is read as this minute.\<close>

lemma parseDate_minute:
  assumes "calendar_minute y m d h i"
    and "all_digits sy" "all_digits sm" "all_digits sd" "all_digits sh" "all_digits si"
    and "length sm \<le> 2" "length sd \<le> 2" "length sh \<le> 2" "length si \<le> 2"
    and "parseInt10 sy = Some y" "parseInt10 sm = Some (m + 1)" "parseInt10 sd = Some d" "parseInt10 sh = Some h"
      "parseInt10 si = Some i"
  shows "parseDate now tzo page_format (DText (minute_text sy sm sd sh si)) = Returned (Some (minute_time y m d h i))"
proof -
  have "parse_parts page_format [sy, sm, sd, sh, si] = Returned (Some (minute_time y m d h i))"
    using setters_minute [OF assms(1)] assms(11-15) by (simp add: parse_parts_def page_format_def part_value_def)
  moreover have "parseFormat ''yyyy-mm-dd hh:ii'' = Returned page_format" by (simp add: text_formats page_format_def)
  ultimately show ?thesis
    using assms by (simp add: parseDate_def minute_text_absolute text_format_minute runs_minute_text)
qed

section \<open>Printing and reading\<close>

definition minute_start :: "int \<Rightarrow> int" where
  "minute_start t = t - t mod 60000"

definition year_of :: "int \<Rightarrow> int" where
  "year_of t = year_of_day (day_of t)"

lemma page_text:
  "dp_formatDate tz page_format (Some (Some t)) =
     minute_text (num_str (Some (year_of t))) (two_digits (Some (month_of_day (day_of t) + 1)))
       (two_digits (Some (date_of_day (day_of t)))) (two_digits (Some (hour_of t))) (two_digits (Some (minute_of t)))"
  by (simp add: dp_formatDate_def page_format_def part_text_def minute_text_def plus_num_def year_of_def Let_def)

lemma minute_of_time:
  "minute_time (year_of t) (month_of_day (day_of t)) (date_of_day (day_of t)) (hour_of t) (minute_of t) = minute_start t"
proof -
  have "make_time (hour_of t) (minute_of t) 0 0 = t mod ms_day - (second_of t * 1000 + t mod 1000)"
    using make_time_fields [of t] by (simp add: make_time_def)
  moreover have "t mod 60000 = second_of t * 1000 + t mod 1000"
    using mod_mult2_eq' [of t 1000 60] by (simp add: second_of_def)
  ultimately show ?thesis
    using day_of_split [of t] by (simp add: minute_time_def year_of_def minute_start_def)
qed

lemma calendar_minute_of_time:
  "0 \<le> year_of t \<Longrightarrow> year_of t \<le> 9999 \<Longrightarrow>
   calendar_minute (year_of t) (month_of_day (day_of t)) (date_of_day (day_of t)) (hour_of t) (minute_of t)"
  using date_range [of "day_of t"] by (simp add: calendar_minute_def year_of_def)

lemma parse_printed:
  assumes "0 \<le> year_of t" "year_of t \<le> 9999"
  shows "parseDate now tzo page_format (DText (dp_formatDate tz page_format (Some (Some t)))) =
    Returned (Some (minute_start t))"
proof -
  have "date_of_day (day_of t) < 100" "0 \<le> date_of_day (day_of t)" "month_of_day (day_of t) + 1 < 100"
    "hour_of t < 100" "minute_of t < 100"
    using day_of_month [of t] month_range(2) [of "day_of t"] hour_range(2) [of t] minute_range(2) [of t] by linarith+
  then show ?thesis
    unfolding page_text minute_of_time [of t, symmetric]
    using assms by (intro parseDate_minute calendar_minute_of_time) (simp_all add: two_digits_text two_digits_length)
qed

lemma minute_text_less:
  assumes "length y = length y'" "length m = length m'" "length d = length d'" "length h = length h'"
  shows "minute_text y m d h i < minute_text y' m' d' h' i' \<longleftrightarrow>
    y < y' \<or> y = y' \<and> (m < m' \<or> m = m' \<and> (d < d' \<or> d = d' \<and> (h < h' \<or> h = h' \<and> i < i')))"
  using assms by (simp add: minute_text_def append_less_iff)

section \<open>Only valid dates\<close>

definition valid :: "jsdate \<Rightarrow> bool" where
  "valid d \<longleftrightarrow> pred_option (\<lambda>t. \<bar>t\<bar> \<le> 8640000000000000) d"

lemma valid_None [simp]: "valid None"
  by (simp add: valid_def)

lemma valid_clip [simp]: "valid (time_clip t)"
  by (simp add: valid_def time_clip_def)

lemma valid_bind [simp]: "(\<And>x. valid (f x)) \<Longrightarrow> valid (Option.bind a f)"
  by (cases a) simp_all

lemma valid_setters [simp]:
  "valid (setUTCDate v d)" "valid (setUTCMonth v d)" "valid (setUTCMonth_date m v d)" "valid (setUTCFullYear v d)"
  "valid (setUTCHours v d)" "valid (setUTCMinutes v d)" "valid (setUTCSeconds v d)" "valid (date_UTC y mo da h i s)"
  "valid (utc_copy d)"
  by (simp_all add: setUTCDate_def setUTCMonth_def setUTCMonth_date_def setUTCFullYear_def setUTCHours_def
      setUTCMinutes_def setUTCSeconds_def num2_def date_UTC_def utc_copy_def Let_def)

lemma loop_invariant:
  assumes "loop b c s = Returned s'" "P s" "\<And>s. P s \<Longrightarrow> b s \<Longrightarrow> P (c s)"
  shows "P s'"
  using while_option_rule [of P b c s s'] assms by (auto simp: loop_def split: option.splits)

lemma valid_reset_day:
  assumes "reset_day test m d k = Returned d'" "valid d"
  shows "valid d'"
proof -
  obtain n where "loop (\<lambda>(d, _). test d)
       (\<lambda>(d, n). let n' = plus_num n (- 1) in (setUTCMonth m (setUTCDate n' d), n')) (d, k) = Returned (d', n)"
    using assms(1) unfolding reset_day_def by (elim exec_bind.elims) auto
  from loop_invariant [OF this, of "\<lambda>(d, _). valid d"] show ?thesis using assms(2) by (auto simp: Let_def)
qed

lemma exec_bind_Returned: "exec_bind x f = Returned r \<longleftrightarrow> (\<exists>y. x = Returned y \<and> f y = Returned r)"
  by (cases x) auto

lemma valid_moves:
  assumes "valid d"
  shows "moveMonth d k = Returned d' \<Longrightarrow> valid d'" "moveYear d k = Returned d' \<Longrightarrow> valid d'"
    "valid (moveDate d k)" "valid (moveHour d k)" "valid (moveMinute j d k)"
proof -
  have one: "valid y" if "move_one_month i x = Returned y" for i x y
    using that by (auto simp: move_one_month_def Let_def intro: valid_reset_day)
  show m: "valid d'" if "moveMonth d k = Returned d'" for k
    using that assms by (auto simp: moveMonth_def Let_def exec_bind_Returned intro: one valid_reset_day split: if_splits)
  then show "moveYear d k = Returned d' \<Longrightarrow> valid d'" by (simp add: moveYear_def)
  show "valid (moveDate d k)" "valid (moveHour d k)" "valid (moveMinute j d k)"
    using assms by (simp_all add: moveDate_def moveHour_def moveMinute_def)
qed

definition valid_exec :: "jsdate exec \<Rightarrow> bool" where
  "valid_exec x \<longleftrightarrow> (\<forall>d. x = Returned d \<longrightarrow> valid d)"

lemma valid_exec_if: "valid_exec a \<Longrightarrow> valid_exec b \<Longrightarrow> valid_exec (if t then a else b)"
  by simp

lemma valid_set_part: "set_part p v d = Returned d' \<Longrightarrow> valid d \<Longrightarrow> valid d'"
proof -
  have month: "valid_exec (set_month v e)" for e
    by (auto simp: valid_exec_def set_month_def exec_bind_Returned dest: loop_invariant [where P = valid])
  have "valid_exec (set_part p v d)" if "valid d"
    unfolding set_part_def by (intro valid_exec_if month) (simp_all add: valid_exec_def that)
  then show "set_part p v d = Returned d' \<Longrightarrow> valid d \<Longrightarrow> valid d'" by (simp add: valid_exec_def)
qed

lemma valid_run_setters: "run_setters ss m d = Returned d' \<Longrightarrow> valid d \<Longrightarrow> valid d'"
  by (induction ss arbitrary: d) (auto simp: exec_bind_Returned intro: valid_set_part split: option.splits)

lemma valid_parseDate:
  assumes "parseDate now tzo fmt a = Returned d"
  shows "valid d"
proof -
  have p: "valid e" if "parse_parts f ts = Returned e" for f ts e
    using that by (auto simp: parse_parts_def base_date_def intro: valid_run_setters split: if_splits)
  have "valid (Option.bind (time_clip t) (\<lambda>u. Some (u - u mod 1000)))" for t
  proof (cases "time_clip t")
    case (Some u)
    then have u: "u = t" "- 8640000000000000 \<le> u" "u \<le> 8640000000000000" by (auto dest: time_clipD)
    have "- 8640000000000 \<le> u div 1000" using zdiv_mono1 [OF u(2), of 1000] by simp
    then have "- 8640000000000000 \<le> u - u mod 1000" by (simp add: minus_mod_eq_mult_div)
    with u(3) pos_mod_sign [of 1000 u] have "\<bar>u - u mod 1000\<bar> \<le> 8640000000000000" by simp
    with Some u(1) show ?thesis by (simp add: valid_def)
  qed simp
  with assms p show ?thesis
    by (cases a) (auto simp: parseDate_def exec_bind_Returned split: option.splits)
qed

end
