(* ===== verification/PickerProps.thy ===== *)
theory PickerProps
  imports DateTimePicker PickerDateProps
begin

text \<open>
  The date-time picker as the monitoring pages use it: what its tables show, which cells can be
  chosen, that no sequence of events changes its limits or announces a date outside them, that
  every minute of the range can be picked, how it reads the texts the pages write, and where typed
  texts get around the checks.
\<close>

section \<open>Frame facts\<close>

named_theorems dtp_frame \<open>which fields the operations of the picker leave alone\<close>

lemma updateNavArrows_frame [dtp_frame, simp]:
  "p_heap (updateNavArrows p) = p_heap p" "p_next (updateNavArrows p) = p_next p"
  "p_date (updateNavArrows p) = p_date p" "p_view (updateNavArrows p) = p_view p"
  "p_start (updateNavArrows p) = p_start p" "p_end (updateNavArrows p) = p_end p"
  "p_viewMode (updateNavArrows p) = p_viewMode p" "p_text (updateNavArrows p) = p_text p"
  "p_visible (updateNavArrows p) = p_visible p" "p_fired (updateNavArrows p) = p_fired p"
  by (simp_all add: updateNavArrows_def)

lemma dtp_fill_frame [dtp_frame, simp]:
  "p_heap (dtp_fill c p) = p_heap p" "p_next (dtp_fill c p) = p_next p"
  "p_date (dtp_fill c p) = p_date p" "p_view (dtp_fill c p) = p_view p"
  "p_start (dtp_fill c p) = p_start p" "p_end (dtp_fill c p) = p_end p"
  "p_viewMode (dtp_fill c p) = p_viewMode p" "p_text (dtp_fill c p) = p_text p"
  "p_visible (dtp_fill c p) = p_visible p" "p_fired (dtp_fill c p) = p_fired p"
  by (simp_all add: dtp_fill_def)

lemma dtp_setValue_frame [dtp_frame, simp]:
  "p_heap (dtp_setValue c p) = p_heap p" "p_next (dtp_setValue c p) = p_next p"
  "p_date (dtp_setValue c p) = p_date p" "p_view (dtp_setValue c p) = p_view p"
  "p_start (dtp_setValue c p) = p_start p" "p_end (dtp_setValue c p) = p_end p"
  "p_viewMode (dtp_setValue c p) = p_viewMode p" "p_visible (dtp_setValue c p) = p_visible p"
  "p_fired (dtp_setValue c p) = p_fired p"
  by (simp_all add: dtp_setValue_def)

lemma dtp_trigger_frame [dtp_frame, simp]:
  "p_heap (dtp_trigger e p) = p_heap p" "p_next (dtp_trigger e p) = p_next p"
  "p_date (dtp_trigger e p) = p_date p" "p_view (dtp_trigger e p) = p_view p"
  "p_start (dtp_trigger e p) = p_start p" "p_end (dtp_trigger e p) = p_end p"
  "p_viewMode (dtp_trigger e p) = p_viewMode p" "p_text (dtp_trigger e p) = p_text p"
  "p_visible (dtp_trigger e p) = p_visible p" "p_fired (dtp_trigger e p) = p_fired p @ [e]"
  by (simp_all add: dtp_trigger_def)

lemma dtp_showMode_frame [dtp_frame, simp]:
  "p_heap (dtp_showMode c k p) = p_heap p" "p_next (dtp_showMode c k p) = p_next p"
  "p_date (dtp_showMode c k p) = p_date p" "p_view (dtp_showMode c k p) = p_view p"
  "p_start (dtp_showMode c k p) = p_start p" "p_end (dtp_showMode c k p) = p_end p"
  "p_text (dtp_showMode c k p) = p_text p" "p_visible (dtp_showMode c k p) = p_visible p"
  by (simp_all add: dtp_showMode_def Let_def)

lemma change_view_frame [dtp_frame, simp]:
  "p_next (change_view f p) = p_next p"
  "p_date (change_view f p) = p_date p" "p_view (change_view f p) = p_view p"
  "p_start (change_view f p) = p_start p" "p_end (change_view f p) = p_end p"
  "p_viewMode (change_view f p) = p_viewMode p" "p_text (change_view f p) = p_text p"
  "p_visible (change_view f p) = p_visible p" "p_fired (change_view f p) = p_fired p"
  "p_heap (change_view f p) = (p_heap p)(p_view p := f (view_val p))"
  by (simp_all add: change_view_def)

lemma dtp_hide_frame [dtp_frame, simp]:
  "p_heap (dtp_hide c p) = p_heap p" "p_next (dtp_hide c p) = p_next p"
  "p_date (dtp_hide c p) = p_date p" "p_view (dtp_hide c p) = p_view p"
  "p_start (dtp_hide c p) = p_start p" "p_end (dtp_hide c p) = p_end p"
  "\<not> p_visible (dtp_hide c p)"
  by (simp_all add: dtp_hide_def Let_def)

section \<open>The tables follow the dates\<close>

definition same_dates :: "picker \<Rightarrow> picker \<Rightarrow> bool" where
  "same_dates p q \<longleftrightarrow> view_val p = view_val q \<and> date_val p = date_val q \<and> start_val p = start_val q \<and> end_val p = end_val q"

definition drawn :: "pconf \<Rightarrow> picker \<Rightarrow> bool" where
  "drawn c p \<longleftrightarrow> p_days p = fill_days c p \<and> p_hours p = fill_hours c p \<and> p_minutes p = fill_minutes c p \<and>
     p_months p = fill_months p \<and> p_years p = fill_years p \<and>
     (0 \<le> p_viewMode p \<and> p_viewMode p \<le> 4 \<longrightarrow>
        (p_prev p \<longleftrightarrow> \<not> limits_reached num_leq (p_viewMode p) (view_val p) (start_val p)) \<and>
        (p_nxt p \<longleftrightarrow> \<not> limits_reached (\<lambda>a b. num_leq b a) (p_viewMode p) (view_val p) (end_val p)))"

lemma val_frame [simp]:
  "view_val (updateNavArrows p) = view_val p" "date_val (updateNavArrows p) = date_val p"
  "start_val (updateNavArrows p) = start_val p" "end_val (updateNavArrows p) = end_val p"
  "view_val (dtp_fill c p) = view_val p" "date_val (dtp_fill c p) = date_val p"
  "start_val (dtp_fill c p) = start_val p" "end_val (dtp_fill c p) = end_val p"
  "view_val (dtp_setValue c p) = view_val p" "date_val (dtp_setValue c p) = date_val p"
  "start_val (dtp_setValue c p) = start_val p" "end_val (dtp_setValue c p) = end_val p"
  "view_val (dtp_trigger e p) = view_val p" "date_val (dtp_trigger e p) = date_val p"
  "start_val (dtp_trigger e p) = start_val p" "end_val (dtp_trigger e p) = end_val p"
  "view_val (dtp_showMode c k p) = view_val p" "date_val (dtp_showMode c k p) = date_val p"
  "start_val (dtp_showMode c k p) = start_val p" "end_val (dtp_showMode c k p) = end_val p"
  "view_val (dtp_hide c p) = view_val p" "date_val (dtp_hide c p) = date_val p"
  "start_val (dtp_hide c p) = start_val p" "end_val (dtp_hide c p) = end_val p"
  by (simp_all add: view_val_def date_val_def start_val_def end_val_def)

lemma fill_cong:
  assumes "same_dates p q"
  shows "fill_days c p = fill_days c q" "fill_hours c p = fill_hours c q" "fill_minutes c p = fill_minutes c q"
    "fill_months p = fill_months q" "fill_years p = fill_years q"
proof -
  have v: "view_val p = view_val q" "date_val p = date_val q" "start_val p = start_val q" "end_val p = end_val q"
    using assms by (simp_all add: same_dates_def)
  have "day_cell c p = day_cell c q" and h: "hour_cell c p = hour_cell c q"
    and m: "minute_cell c p = minute_cell c q" and mo: "month_cell p = month_cell q"
    by (intro ext, simp only: day_cell_def hour_cell_def minute_cell_def month_cell_def v)+
  then show "fill_days c p = fill_days c q" by (simp only: fill_days_def v)
  show "fill_hours c p = fill_hours c q" by (simp only: fill_hours_def h)
  show "fill_minutes c p = fill_minutes c q" by (simp only: fill_minutes_def m)
  show "fill_months p = fill_months q" by (simp only: fill_months_def mo)
  have "year_loop p n y d i = year_loop q n y d i" for n y d i
    by (induction n arbitrary: y d i) (simp_all only: year_loop.simps year_cell_def v)
  then show "fill_years p = fill_years q" by (simp only: fill_years_def v)
qed

lemma drawn_fill:
  assumes "p_date p \<noteq> None"
  shows "drawn c (dtp_fill c p)"
proof -
  obtain r where r: "p_date p = Some r" using assms by auto
  have "same_dates (dtp_fill c p) p" by (simp add: same_dates_def)
  note f = fill_cong [OF this]
  have "p_days (dtp_fill c p) = fill_days c p" "p_hours (dtp_fill c p) = fill_hours c p"
    "p_minutes (dtp_fill c p) = fill_minutes c p" "p_months (dtp_fill c p) = fill_months p"
    "p_years (dtp_fill c p) = fill_years p"
    by (simp_all add: dtp_fill_def r)
  moreover have "0 \<le> p_viewMode p \<and> p_viewMode p \<le> 4 \<longrightarrow>
      (p_prev (dtp_fill c p) \<longleftrightarrow> \<not> limits_reached num_leq (p_viewMode p) (view_val p) (start_val p)) \<and>
      (p_nxt (dtp_fill c p) \<longleftrightarrow> \<not> limits_reached (\<lambda>a b. num_leq b a) (p_viewMode p) (view_val p) (end_val p))"
    by (simp add: dtp_fill_def updateNavArrows_def r)
  ultimately show ?thesis by (simp add: drawn_def f)
qed

lemma drawn_cong:
  assumes "same_dates p q" "p_viewMode p = p_viewMode q" "p_days p = p_days q" "p_hours p = p_hours q"
    "p_minutes p = p_minutes q" "p_months p = p_months q" "p_years p = p_years q" "p_prev p = p_prev q" "p_nxt p = p_nxt q"
  shows "drawn c p = drawn c q"
  using assms fill_cong [OF assms(1)] by (simp add: drawn_def same_dates_def)

lemma same_dates_text [simp]:
  "same_dates (p\<lparr>p_text := s\<rparr>) p" "same_dates (p\<lparr>p_visible := b\<rparr>) p" "same_dates (p\<lparr>p_fired := l\<rparr>) p"
  by (simp_all add: same_dates_def view_val_def date_val_def start_val_def end_val_def)

lemma drawn_text [simp]:
  "drawn c (p\<lparr>p_text := s\<rparr>) = drawn c p" "drawn c (p\<lparr>p_visible := b\<rparr>) = drawn c p" "drawn c (dtp_trigger e p) = drawn c p"
  "drawn c (dtp_setValue c' p) = drawn c p"
  unfolding dtp_trigger_def dtp_setValue_def by (rule drawn_cong; simp)+

lemma drawn_mode: "drawn c p \<Longrightarrow> drawn c (dtp_showMode c k p)"
proof -
  assume d: "drawn c p"
  have f: "fill_days c (dtp_showMode c k p) = fill_days c p" "fill_hours c (dtp_showMode c k p) = fill_hours c p"
    "fill_minutes c (dtp_showMode c k p) = fill_minutes c p" "fill_months (dtp_showMode c k p) = fill_months p"
    "fill_years (dtp_showMode c k p) = fill_years p"
    by (rule fill_cong; simp add: same_dates_def)+
  have "p_days (dtp_showMode c k p) = p_days p" "p_hours (dtp_showMode c k p) = p_hours p"
    "p_minutes (dtp_showMode c k p) = p_minutes p" "p_months (dtp_showMode c k p) = p_months p"
    "p_years (dtp_showMode c k p) = p_years p"
    by (simp_all add: dtp_showMode_def updateNavArrows_def dtp_trigger_def Let_def)
  moreover have "0 \<le> p_viewMode (dtp_showMode c k p) \<and> p_viewMode (dtp_showMode c k p) \<le> 4 \<longrightarrow>
      (p_prev (dtp_showMode c k p) \<longleftrightarrow>
         \<not> limits_reached num_leq (p_viewMode (dtp_showMode c k p)) (view_val p) (start_val p)) \<and>
      (p_nxt (dtp_showMode c k p) \<longleftrightarrow>
         \<not> limits_reached (\<lambda>a b. num_leq b a) (p_viewMode (dtp_showMode c k p)) (view_val p) (end_val p))"
    by (auto simp: dtp_showMode_def updateNavArrows_def Let_def view_val_def start_val_def end_val_def)
  ultimately show ?thesis using d by (simp add: drawn_def f)
qed

section \<open>The invariant of the picker\<close>

definition core :: "pconf \<Rightarrow> jsdate \<Rightarrow> jsdate \<Rightarrow> picker \<Rightarrow> bool" where
  "core c s e p \<longleftrightarrow> start_val p = s \<and> end_val p = e \<and> p_start p < p_next p \<and> p_end p < p_next p \<and>
     p_view p < p_next p \<and> pred_option (\<lambda>r. r < p_next p) (p_date p) \<and>
     c_minView c \<le> p_viewMode p \<and> p_viewMode p \<le> c_maxView c \<and> (\<forall>r. valid (p_heap p r))"

text \<open>The object the view changes in place is not one of the limits.\<close>

definition own_view :: "picker \<Rightarrow> bool" where
  "own_view p \<longleftrightarrow> p_view p \<noteq> p_start p \<and> p_view p \<noteq> p_end p \<and> p_date p \<noteq> None"

definition picker_ok :: "pconf \<Rightarrow> jsdate \<Rightarrow> jsdate \<Rightarrow> picker \<Rightarrow> bool" where
  "picker_ok c s e p \<longleftrightarrow> core c s e p \<and> (p_visible p \<longrightarrow> own_view p \<and> drawn c p)"

definition conf_ok :: "pconf \<Rightarrow> bool" where
  "conf_ok c \<longleftrightarrow> c_autoclose c \<and> 0 \<le> c_minView c \<and> c_minView c \<le> c_startView c \<and>
     c_startView c \<le> c_maxView c \<and> c_maxView c \<le> 4"

lemmas val_defs = start_val_def end_val_def view_val_def date_val_def

lemma core_frame [simp]:
  "core c s e (dtp_fill c' p) = core c s e p" "core c s e (dtp_setValue c' p) = core c s e p"
  "core c s e (dtp_trigger x p) = core c s e p" "core c s e (updateNavArrows p) = core c s e p"
  "core c s e (p\<lparr>p_text := t\<rparr>) = core c s e p" "core c s e (p\<lparr>p_visible := b\<rparr>) = core c s e p"
  by (simp_all add: core_def) (simp_all add: val_defs)

lemma own_view_frame [simp]:
  "own_view (dtp_fill c' p) = own_view p" "own_view (dtp_setValue c' p) = own_view p"
  "own_view (dtp_trigger x p) = own_view p" "own_view (updateNavArrows p) = own_view p"
  "own_view (dtp_showMode c k p) = own_view p"
  "own_view (p\<lparr>p_text := t\<rparr>) = own_view p" "own_view (p\<lparr>p_visible := b\<rparr>) = own_view p"
  by (simp_all add: own_view_def)

lemma core_showMode: "core c s e p \<Longrightarrow> core c s e (dtp_showMode c k p)"
  by (auto simp: core_def dtp_showMode_def Let_def) (simp_all add: val_defs)

lemma core_hide: "core c s e p \<Longrightarrow> conf_ok c \<Longrightarrow> core c s e (dtp_hide c p)"
proof -
  assume "core c s e p" "conf_ok c"
  then have "core c s e (p\<lparr>p_viewMode := c_startView c\<rparr>)" by (simp add: core_def conf_ok_def) (simp add: val_defs)
  then show ?thesis using \<open>core c s e p\<close> by (simp add: dtp_hide_def Let_def core_showMode)
qed

text \<open>\<open>update\<close> without an argument: what it reads, and what it leaves.\<close>

definition read_from :: "pconf \<Rightarrow> int \<Rightarrow> picker \<Rightarrow> date_arg" where
  "read_from c now p =
     (let date = fst (update_source c now None p)
      in case date of DText s \<Rightarrow> if hour_minute s then dtp_getDate c p else date | _ \<Rightarrow> date)"

definition updated :: "pconf \<Rightarrow> jsdate \<Rightarrow> picker \<Rightarrow> picker" where
  "updated c d p = dtp_fill c (p\<lparr>p_date := Some (p_next p), p_heap := (p_heap p)(p_next p := d,
       Suc (p_next p) := (if num_less d (start_val p) then start_val p else if num_less (end_val p) d then end_val p else d)),
     p_next := Suc (Suc (p_next p)), p_view := Suc (p_next p)\<rparr>)"

lemma dtp_update_eq:
  assumes "p_start p < p_next p" "p_end p < p_next p"
  shows "dtp_update c now None p =
    exec_bind (parseDate now (c_tzo c) (c_format c) (read_from c now p)) (\<lambda>d. Returned (updated c d p))"
proof -
  have "\<not> snd (update_source c now None p)" by (simp add: update_source_def Let_def)
  then obtain a where a: "update_source c now None p = (a, False)" by (cases "update_source c now None p") simp
  have neq: "p_start p \<noteq> p_next p" "p_end p \<noteq> p_next p" using assms by simp_all
  have "dtp_update c now None p = exec_bind (parseDate now (c_tzo c) (c_format c)
      (case a of DText s \<Rightarrow> if hour_minute s then dtp_getDate c p else a | _ \<Rightarrow> a)) (\<lambda>d. Returned (updated c d p))"
    unfolding dtp_update_def a Let_def prod.case
    by (intro arg_cong [where f = "exec_bind _"] ext)
       (simp add: updated_def new_obj_def start_val_def end_val_def neq)
  then show ?thesis by (simp add: read_from_def a)
qed

lemma updated_ok:
  assumes "core c s e p" "valid d"
  shows "core c s e (updated c' d p)" "own_view (updated c' d p)" "drawn c' (updated c' d p)"
    "p_visible (updated c' d p) = p_visible p" "p_viewMode (updated c' d p) = p_viewMode p"
    "p_fired (updated c' d p) = p_fired p" "p_text (updated c' d p) = p_text p" "date_val (updated c' d p) = Some d"
    "view_val (updated c' d p) =
       (if num_less d s then s else if num_less e d then e else d)"
  unfolding updated_def
  using assms by (auto simp: core_def own_view_def val_defs intro!: drawn_fill)

lemma update_ok:
  assumes "core c s e p" "dtp_update c now None p = Returned q"
  shows "\<exists>d. q = updated c d p \<and> parseDate now (c_tzo c) (c_format c) (read_from c now p) = Returned d \<and> valid d"
  using assms dtp_update_eq [of p c now] by (auto simp: core_def exec_bind_Returned intro: valid_parseDate)

lemma fire_change_ok:
  assumes "core c s e p" "fire_change c now p = Returned q"
  shows "core c s e q \<and> (own_view p \<and> drawn c p \<longrightarrow> own_view q \<and> drawn c q) \<and> p_visible q = p_visible p \<and>
    p_fired q = p_fired p @ [ChangeDate (date_val p)] \<and> p_viewMode q = p_viewMode p"
proof (cases "c_onChange c (p_text p)")
  case None
  then have "q = dtp_trigger (ChangeDate (date_val p)) p" using assms(2) by (simp add: fire_change_def)
  then show ?thesis using assms(1) by simp
next
  case (Some t)
  let ?p = "(dtp_trigger (ChangeDate (date_val p)) p)\<lparr>p_text := t\<rparr>"
  have "core c s e ?p" using assms(1) by simp
  moreover have "dtp_update c now None ?p = Returned q" using assms(2) Some by (simp add: fire_change_def)
  ultimately obtain d where "q = updated c d ?p" "valid d" using update_ok by blast
  then show ?thesis using updated_ok [OF \<open>core c s e ?p\<close>, of d c] by simp
qed

section \<open>Every event keeps the invariant\<close>

fun change_of :: "pevent \<Rightarrow> jsdate option list" where
  "change_of (ChangeDate d) = [d]"
| "change_of (Trigger x) = []"

text \<open>The dates announced by \<open>changeDate\<close>, in order.\<close>

definition changes :: "picker \<Rightarrow> jsdate option list" where
  "changes p = concat (map change_of (p_fired p))"

lemma changes_frame [simp]:
  "changes (dtp_fill c p) = changes p" "changes (dtp_setValue c p) = changes p" "changes (updateNavArrows p) = changes p"
  "changes (dtp_trigger x p) = changes p @ change_of x" "changes (change_view f p) = changes p"
  "changes (p\<lparr>p_text := t\<rparr>) = changes p" "changes (p\<lparr>p_visible := b\<rparr>) = changes p" "changes (p\<lparr>p_viewMode := k\<rparr>) = changes p"
  "changes (p\<lparr>p_date := r\<rparr>) = changes p" "changes (p\<lparr>p_view := v\<rparr>) = changes p"
  by (simp_all add: changes_def)

lemma changes_showMode [simp]: "changes (dtp_showMode c k p) = changes p"
  by (simp add: dtp_showMode_def Let_def)

lemma changes_hide [simp]: "changes (dtp_hide c p) = changes p" "changes (hide_if b c p) = changes p"
  by (simp_all add: dtp_hide_def hide_if_def Let_def)

lemma changes_next [simp]: "changes (next_view c p) = changes p" "changes (next_or_hide c p) = changes p"
  by (simp_all add: next_view_def next_or_hide_def Let_def)

lemma core_date: "core c s e p \<Longrightarrow> r < p_next p \<Longrightarrow> core c s e (p\<lparr>p_date := Some r\<rparr>)"
  "core c s e p \<Longrightarrow> core c s e (p\<lparr>p_date := None\<rparr>)"
  "core c s e p \<Longrightarrow> r < p_next p \<Longrightarrow> core c s e (p\<lparr>p_view := r\<rparr>)"
  "core c s e p \<Longrightarrow> core c s e (p\<lparr>p_viewMode := k\<rparr>) \<longleftrightarrow> c_minView c \<le> k \<and> k \<le> c_maxView c"
  by (auto simp: core_def val_defs)

lemma core_new_obj:
  assumes "core c s e p" "valid d"
  shows "core c s e (snd (new_obj d p))" "fst (new_obj d p) < p_next (snd (new_obj d p))"
    "fst (new_obj d p) \<noteq> p_start p" "fst (new_obj d p) \<noteq> p_end p"
    "own_view (snd (new_obj d p)) = own_view p" "p_start (snd (new_obj d p)) = p_start p"
    "p_end (snd (new_obj d p)) = p_end p" "p_visible (snd (new_obj d p)) = p_visible p"
    "p_heap (snd (new_obj d p)) (fst (new_obj d p)) = d" "changes (snd (new_obj d p)) = changes p"
    "p_date (snd (new_obj d p)) = p_date p" "p_viewMode (snd (new_obj d p)) = p_viewMode p"
    "view_val (snd (new_obj d p)) = view_val p"
  using assms by (auto simp: core_def new_obj_def val_defs own_view_def changes_def elim: option.pred_mono_strong)

lemma core_change_view: "core c s e p \<Longrightarrow> own_view p \<Longrightarrow> (\<And>d. valid (f d)) \<Longrightarrow> core c s e (change_view f p) \<and> own_view (change_view f p)"
  by (auto simp: core_def own_view_def val_defs)

lemma set_date_ok:
  assumes "core c s e p" "r < p_next p" "dtp_set_date c now r p = Returned q"
  shows "core c s e q" "r \<noteq> p_start p \<Longrightarrow> r \<noteq> p_end p \<Longrightarrow> own_view q" "p_visible q = p_visible p"
    "changes q = changes p @ [Some (p_heap p r)]"
proof -
  let ?p = "dtp_setValue c (dtp_fill c (p\<lparr>p_date := Some r, p_view := r\<rparr>))"
  have core: "core c s e ?p" using assms(1,2) by (simp add: core_date)
  have "r \<noteq> p_start p \<Longrightarrow> r \<noteq> p_end p \<Longrightarrow> own_view ?p" "drawn c ?p"
    by (simp_all add: own_view_def drawn_fill)
  moreover have "date_val ?p = Some (p_heap p r)" by (simp add: date_val_def)
  moreover note fire_change_ok [OF core, of now q] assms(3)
  ultimately show "core c s e q" "r \<noteq> p_start p \<Longrightarrow> r \<noteq> p_end p \<Longrightarrow> own_view q" "p_visible q = p_visible p"
    "changes q = changes p @ [Some (p_heap p r)]"
    by (auto simp: dtp_set_date_def changes_def)
qed

lemma set_if_ok:
  assumes "core c s e p" "own_view p" "set_if b c now d p = Returned q" "valid d"
  shows "core c s e q" "own_view q" "p_visible q = p_visible p" "changes q = changes p @ (if b then [Some d] else [])"
proof -
  note n = core_new_obj [OF assms(1,4)]
  show "core c s e q" "own_view q" "p_visible q = p_visible p" "changes q = changes p @ (if b then [Some d] else [])"
    using assms set_date_ok [OF n(1,2), of now q] n(3-10)
    by (auto simp: set_if_def split_beta split: if_splits)
qed

lemma hide_if_ok:
  assumes "core c s e p" "own_view p" "drawn c p" "conf_ok c"
  shows "picker_ok c s e (hide_if b c p)"
  using assms by (simp add: picker_ok_def hide_if_def core_hide)

lemma next_view_ok:
  assumes "core c s e p" "own_view p" "conf_ok c"
  shows "picker_ok c s e (next_view c p)" "picker_ok c s e (next_or_hide c p)"
proof -
  have "p_date p \<noteq> None" using assms(2) by (simp add: own_view_def)
  then show nv: "picker_ok c s e (next_view c p)"
    using assms by (auto simp: next_view_def Let_def core_showMode intro!: hide_if_ok drawn_fill)
  show "picker_ok c s e (next_or_hide c p)"
    using assms nv \<open>p_date p \<noteq> None\<close> by (auto simp: next_or_hide_def intro!: hide_if_ok drawn_fill)
qed

lemma cell_click_ok:
  assumes "core c s e p" "own_view p" "set_if b c now d (dtp_trigger (Trigger x) (change_view f p)) = Returned q"
    and "\<And>d. valid (f d)" "valid d"
  shows "core c s e q \<and> own_view q \<and> changes q = changes p @ (if b then [Some d] else [])"
proof -
  have "core c s e (dtp_trigger (Trigger x) (change_view f p))" "own_view (dtp_trigger (Trigger x) (change_view f p))"
    using core_change_view [OF assms(1,2,4)] by simp_all
  note set_if_ok [OF this assms(3,5)]
  then show ?thesis by simp
qed

lemma change_view_twice: "change_view g (change_view f p) = change_view (g \<circ> f) p"
  by (simp add: change_view_def view_val_def)

lemma valid_utc_date [simp]: "valid (utc_date y m d h i s)"
  by (simp add: utc_date_def)

lemma cell_clicks_ok:
  assumes "core c s e p" "own_view p"
  shows "click_month c now k p = Returned q \<Longrightarrow> core c s e q \<and> own_view q \<and> (c_viewSelect c < 3 \<longrightarrow> changes q = changes p)"
    "click_year c now x p = Returned q \<Longrightarrow> core c s e q \<and> own_view q \<and> (c_viewSelect c < 4 \<longrightarrow> changes q = changes p)"
    "click_hour c now x p = Returned q \<Longrightarrow> core c s e q \<and> own_view q \<and> (c_viewSelect c < 1 \<longrightarrow> changes q = changes p)"
    "click_minute c now x p = Returned q \<Longrightarrow> core c s e q \<and> own_view q \<and>
       changes q = changes p @ (if 0 \<le> c_viewSelect c then
         [Some (let v = view_val p in utc_date (getUTCFullYear v) (getUTCMonth v) (getUTCDate v) (getUTCHours v)
            (Some (num_or (parseInt10 (after_colon (cell_text x))) 0)) (getUTCSeconds v))] else [])"
    "click_day c now x p = Returned q \<Longrightarrow> core c s e q \<and> own_view q \<and> (c_viewSelect c < 2 \<longrightarrow> changes q = changes p)"
  unfolding click_month_def click_year_def click_hour_def click_minute_def click_day_def Let_def split_beta change_view_twice
  by (auto dest!: cell_click_ok [OF assms] simp: comp_def)

lemma on_cell_ok:
  assumes "picker_ok c s e p" "on_cell xs k f g p = Returned q"
    and "\<And>y. k < length xs \<Longrightarrow> \<not> is_disabled (xs ! k) \<Longrightarrow> f (xs ! k) p = Returned y \<Longrightarrow> picker_ok c s e (g y)"
  shows "picker_ok c s e q"
  using assms by (auto simp: on_cell_def picker_ok_def exec_bind_Returned split: if_splits)

lemma valid_move_view:
  assumes "move_view vm d k = Returned d'" "valid d"
  shows "valid d'"
proof -
  have "valid_exec (move_view vm d k)"
    unfolding move_view_def using valid_moves [OF assms(2)]
    by (intro valid_exec_if) (auto simp only: valid_exec_def exec.inject)
  with assms(1) show ?thesis by (simp add: valid_exec_def)
qed

lemma click_arrow_ok:
  assumes "core c s e p" "own_view p" "click_arrow c k p = Returned q"
  shows "picker_ok c s e q" "changes q = changes p"
proof -
  obtain d where m: "move_view (p_viewMode p) (view_val p) k = Returned d" and
    "q = dtp_trigger (Trigger ((if k < 0 then ''prev:'' else ''next:'') @ convertViewModeText
        (p_viewMode (dtp_fill c ((snd (new_obj d p))\<lparr>p_view := fst (new_obj d p)\<rparr>)))))
      (dtp_fill c ((snd (new_obj d p))\<lparr>p_view := fst (new_obj d p)\<rparr>))"
    using assms(3) by (auto simp: click_arrow_def exec_bind_Returned split_beta Let_def)
  moreover have "valid (view_val p)" using assms(1) by (simp add: core_def view_val_def)
  then have "valid d" by (rule valid_move_view [OF m])
  note core_new_obj [OF assms(1) this]
  ultimately show "picker_ok c s e q" "changes q = changes p"
    using assms(2) by (auto simp: picker_ok_def own_view_def core_date drawn_fill)
qed

lemma click_today_ok:
  assumes "core c s e p" "conf_ok c" "click_today c now p = Returned q"
  shows "picker_ok c s e q"
    "let today = utc_copy (time_clip (now - c_tzo c now * 60000))
     in changes q = changes p @ [Some (if num_less today s then s else if num_less e today then e else today)]"
proof -
  define today where "today = utc_copy (time_clip (now - c_tzo c now * 60000))"
  define n where "n = snd (new_obj today p)"
  define r where "r = (if num_less today (start_val n) then p_start n else if num_less (end_val n) today then p_end n
    else fst (new_obj today p))"
  define m where "m = dtp_showMode c 0 (n\<lparr>p_viewMode := c_startView c\<rparr>)"
  have "valid today" by (simp add: today_def)
  note o = core_new_obj [OF assms(1) this, folded n_def]
  obtain u where u: "dtp_set_date c now r m = Returned u" "q = hide_if (c_autoclose c) c (dtp_fill c u)"
    using assms(3) unfolding click_today_def Let_def split_beta today_def [symmetric] n_def [symmetric] r_def [symmetric]
      m_def [symmetric] by (auto simp: exec_bind_Returned)
  have limits: "start_val n = s" "end_val n = e" "p_start n < p_next n" "p_end n < p_next n"
    using o(1) by (simp_all add: core_def)
  have "core c s e m" using o(1) assms(2) by (simp add: m_def core_showMode core_date conf_ok_def)
  moreover have "r < p_next m" using o(2) limits by (simp add: r_def m_def)
  ultimately have s: "core c s e u" "changes u = changes m @ [Some (p_heap m r)]" using set_date_ok [OF _ _ u(1)] by blast+
  then show "picker_ok c s e q" using u(2) assms(2) by (simp add: picker_ok_def hide_if_def core_hide conf_ok_def)
  have "p_heap m r = (if num_less today s then s else if num_less e today then e else today)"
    using o(9) limits by (simp add: m_def r_def start_val_def end_val_def)
  then show "let today = utc_copy (time_clip (now - c_tzo c now * 60000))
     in changes q = changes p @ [Some (if num_less today s then s else if num_less e today then e else today)]"
    using s(2) u(2) o(10) by (simp add: today_def [symmetric] m_def)
qed

lemma click_clear_ok:
  assumes "core c s e p" "conf_ok c" "dtp_click c now TClear p = Returned q"
  shows "picker_ok c s e q" "changes q = changes p @ [None]"
proof -
  let ?p = "dtp_setValue c (dtp_fill c (p\<lparr>p_date := None\<rparr>))"
  obtain u where u: "fire_change c now ?p = Returned u"
    "q = hide_if (c_autoclose c) c (u\<lparr>p_date := Some (p_view u)\<rparr>)"
    using assms(3) by (auto simp: dtp_reset_def exec_bind_Returned)
  have "core c s e ?p" using assms(1) by (simp add: core_date)
  then have f: "core c s e u" "p_fired u = p_fired p @ [ChangeDate None]"
    using fire_change_ok [OF _ u(1)] by (auto simp: date_val_def)
  then have "core c s e (u\<lparr>p_date := Some (p_view u)\<rparr>)" by (intro core_date) (simp_all add: core_def)
  then show "picker_ok c s e q" using u(2) assms(2) by (simp add: picker_ok_def hide_if_def core_hide conf_ok_def)
  show "changes q = changes p @ [None]" using f(2) u(2) by (simp add: changes_def [of u]) (simp add: changes_def)
qed

lemma valid_key_date:
  assumes "key_date c vm dir vert d = Returned (Some d')" "valid d"
  shows "valid d'"
proof -
  have "key_date c vm dir vert d = Returned (Some d') \<Longrightarrow> valid_exec (Returned d')"
    using valid_moves [OF assms(2)] unfolding key_date_def exec_bind_Returned
    by (auto simp only: valid_exec_def exec.inject option.inject exec_bind_Returned split: if_splits)
  with assms(1) show ?thesis by (simp add: valid_exec_def)
qed

text \<open>An arrow key leaves the picker alone, or announces what \<open>update\<close> reads from the printed new date.\<close>

lemma key_arrow_ok:
  assumes "core c s e p" "key_arrow c now dir vert ctrl shift p = Returned q"
  shows "q = p \<or> (\<exists>nd d u. dateWithinRange p nd \<and> core c s e u \<and>
    p_text u = dp_formatDate (c_timezone c) (c_format c) (Some nd) \<and>
    parseDate now (c_tzo c) (c_format c) (read_from c now u) = Returned d \<and>
    core c s e q \<and> own_view q \<and> drawn c q \<and> p_visible q = p_visible p \<and> changes q = changes p @ [Some d])"
proof (cases "q = p")
  case False
  obtain x a b vm where x: "date_val p = Some x"
    and k: "key_date c vm dir vert x = Returned a" "key_date c vm dir vert (view_val p) = Returned b"
    and ab: "(case (a, b) of (Some nd, Some nv) \<Rightarrow>
              if dateWithinRange p nd
              then let (r, p) = new_obj nd p; (v, p) = new_obj nv p
                in exec_bind (dtp_update c now None (dtp_setValue c (p\<lparr>p_date := Some r, p_view := v\<rparr>))) (fire_change c now)
              else Returned p
          | _ \<Rightarrow> Returned p) = Returned q"
    using assms(2) by (cases "date_val p") (auto simp: key_arrow_def exec_bind_Returned Let_def)
  from ab False obtain nd nv where "a = Some nd" "b = Some nv" "dateWithinRange p nd"
    by (cases a; cases b) (auto split: if_splits)
  with ab have n: "dateWithinRange p nd"
    "exec_bind (dtp_update c now None (dtp_setValue c ((snd (new_obj nv (snd (new_obj nd p))))
       \<lparr>p_date := Some (fst (new_obj nd p)), p_view := fst (new_obj nv (snd (new_obj nd p)))\<rparr>))) (fire_change c now) = Returned q"
    by (simp_all add: split_beta Let_def)
  define u where "u = dtp_setValue c ((snd (new_obj nv (snd (new_obj nd p))))
       \<lparr>p_date := Some (fst (new_obj nd p)), p_view := fst (new_obj nv (snd (new_obj nd p)))\<rparr>)"
  have "valid x" "valid (view_val p)" using assms(1) x by (auto simp: core_def val_defs)
  then have "valid nd" "valid nv"
    using k \<open>a = Some nd\<close> \<open>b = Some nv\<close> by (auto intro: valid_key_date)
  note o1 = core_new_obj [OF assms(1) \<open>valid nd\<close>]
  note o2 = core_new_obj [OF o1(1) \<open>valid nv\<close>]
  have lt: "fst (new_obj nd p) < p_next (snd (new_obj nv (snd (new_obj nd p))))" by (simp add: new_obj_def)
  have core: "core c s e u" unfolding u_def using o2(1,2) lt by (simp add: core_date)
  have printed: "p_text u = dp_formatDate (c_timezone c) (c_format c) (Some nd)"
    by (simp add: u_def dtp_setValue_def getFormattedDate_def date_val_def new_obj_def)
  have same: "p_visible u = p_visible p" "changes u = changes p"
    by (simp_all add: u_def) (simp_all add: new_obj_def changes_def)
  obtain w where w: "dtp_update c now None u = Returned w" "fire_change c now w = Returned q"
    using n(2) by (auto simp: u_def exec_bind_Returned)
  obtain d where d: "w = updated c d u" "parseDate now (c_tzo c) (c_format c) (read_from c now u) = Returned d"
    "valid d"
    using update_ok [OF core w(1)] by blast
  note k = updated_ok [OF core d(3), of c, folded d(1)]
  have "core c s e q \<and> own_view q \<and> drawn c q \<and> p_visible q = p_visible p \<and> changes q = changes p @ [Some d]"
    using fire_change_ok [OF k(1) w(2)] k same by (simp add: changes_def)
  with n(1) core printed d(2) show ?thesis by blast
qed simp

lemma update_keeps:
  assumes "core c s e p" "dtp_update c now None p = Returned q"
  shows "core c s e q \<and> own_view q \<and> drawn c q \<and> p_visible q = p_visible p \<and> changes q = changes p"
proof -
  obtain d where "q = updated c d p" "valid d" using update_ok [OF assms] by blast
  then show ?thesis using updated_ok [OF assms(1), of d c] by (simp add: changes_def)
qed

lemma show_keeps:
  assumes "core c s e p" "dtp_show c now p = Returned q"
  shows "picker_ok c s e q \<and> changes q = changes p"
proof -
  obtain r where "dtp_update c now None p = Returned r" "q = dtp_trigger (Trigger ''show'') (r\<lparr>p_visible := True\<rparr>)"
    using assms(2) by (auto simp: dtp_show_def exec_bind_Returned)
  then show ?thesis using update_keeps [OF assms(1), of now r] by (simp add: picker_ok_def)
qed

lemma hide_keeps: "core c s e p \<Longrightarrow> conf_ok c \<Longrightarrow> picker_ok c s e (dtp_hide c p)"
  by (simp add: picker_ok_def core_hide)

lemma key_ok:
  assumes "picker_ok c s e p" "conf_ok c" "dtp_keydown c now key ctrl shift p = Returned q"
  shows "picker_ok c s e q"
proof (cases "p_visible p")
  case True
  then have v: "core c s e p" "own_view p" using assms(1) by (simp_all add: picker_ok_def)
  have arrow: "picker_ok c s e q" if "key_arrow c now dir vert ctrl shift p = Returned q" for dir vert
    using key_arrow_ok [OF v(1) that] assms(1) by (auto simp: picker_ok_def)
  show ?thesis
    using assms True arrow hide_keeps [OF v(1) assms(2)] next_view_ok(2) [OF v assms(2)]
    by (auto simp: dtp_keydown_def split: if_splits)
next
  case False
  then show ?thesis
    using assms show_keeps by (auto simp: dtp_keydown_def picker_ok_def split: if_splits)
qed

lemma click_ok:
  assumes "core c s e p" "own_view p" "drawn c p" "conf_ok c" "dtp_click c now t p = Returned q"
  shows "picker_ok c s e q"
proof -
  have ok: "picker_ok c s e p" using assms by (simp add: picker_ok_def)
  note clicks = cell_clicks_ok [OF assms(1,2)] and nv = next_view_ok [OF _ _ assms(4)]
  show ?thesis
  proof (cases t)
    case TSwitch
    then show ?thesis using assms by (auto simp: picker_ok_def core_showMode drawn_mode)
  next
    case (TDay k)
    with assms(5) show ?thesis by (auto elim!: on_cell_ok [OF ok] dest!: clicks(5) intro: nv)
  next
    case (THour k)
    with assms(5) show ?thesis by (auto elim!: on_cell_ok [OF ok] dest!: clicks(3) intro: nv)
  next
    case (TMinute k)
    with assms(5) show ?thesis by (auto elim!: on_cell_ok [OF ok] dest!: clicks(4) intro: nv)
  next
    case (TMonth k)
    with assms(5) show ?thesis by (auto elim!: on_cell_ok [OF ok] dest!: clicks(1) intro: nv)
  next
    case (TYear k)
    with assms(5) show ?thesis by (auto elim!: on_cell_ok [OF ok] dest!: clicks(2) intro: nv)
  qed (use assms nv click_clear_ok(1) click_arrow_ok(1) click_today_ok(1) in auto)
qed

lemma step_ok:
  assumes "picker_ok c s e p" "conf_ok c" "dtp_possible p ev" "dtp_step c now ev p = Returned q"
  shows "picker_ok c s e q"
proof -
  have core: "core c s e p" and vis: "p_visible p \<Longrightarrow> own_view p \<and> drawn c p"
    using assms(1) by (simp_all add: picker_ok_def)
  have upd: "picker_ok c s e r" if "dtp_update c now None (p\<lparr>p_text := t\<rparr>) = Returned r" for t r
    using update_keeps [OF _ that, of s e] core by (simp add: picker_ok_def)
  have "picker_ok c s e r" if "dtp_update c now None p = Returned r" for r
    using update_keeps [OF core that] by (simp add: picker_ok_def)
  with upd show ?thesis
    using assms vis core by (cases ev) (auto dest: show_keeps key_ok click_ok intro: hide_keeps)
qed

lemma dtp_reach_ok:
  assumes "dtp_reach c p q" "picker_ok c s e p" "conf_ok c"
  shows "picker_ok c s e q"
  using assms by (induction rule: dtp_reach.induct) (auto intro: step_ok)

section \<open>Minutes\<close>

lemma minute_start_mono: "t \<le> u \<Longrightarrow> minute_start t \<le> minute_start u"
  using zdiv_mono1 [of t u 60000] by (simp add: minute_start_def minus_mod_eq_mult_div)

lemma minute_start_le: "minute_start t \<le> t"
  by (simp add: minute_start_def)

lemma minute_start_make:
  assumes "0 \<le> h" "h < 24" "0 \<le> i" "i < 60" "0 \<le> s" "s < 60" "0 \<le> ms" "ms < 1000"
  shows "minute_start (k * ms_day + make_time h i s ms) = k * ms_day + make_time h i 0 0"
proof -
  let ?q = "(k * 24 + h) * 60 + i"
  have "k * ms_day + make_time h i s ms = 60000 * ?q + (s * 1000 + ms)"
    by (simp add: make_time_def ms_day_def algebra_simps)
  moreover have "0 \<le> s * 1000 + ms" "s * 1000 + ms < 60000" using assms by linarith+
  ultimately have "(k * ms_day + make_time h i s ms) mod 60000 = s * 1000 + ms"
    by (simp only: mod_mult_self4 mod_pos_pos_trivial)
  then show ?thesis by (simp add: minute_start_def make_time_def)
qed

lemma year_mono: "d \<le> d' \<Longrightarrow> year_of_day d \<le> year_of_day d'"
proof (rule ccontr)
  assume "d \<le> d'" "\<not> year_of_day d \<le> year_of_day d'"
  then show False
    using day_from_year_mono [of "year_of_day d'" "year_of_day d"] year_of_day(1) [of d] year_of_day(2) [of d'] by simp
qed

lemma year_of_mono: "t \<le> u \<Longrightarrow> year_of t \<le> year_of u"
  unfolding year_of_def day_of_def by (intro year_mono zdiv_mono1) (simp_all add: ms_day_def)

lemma after_colon_text: "CHR '':'' \<notin> set u \<Longrightarrow> after_colon (u @ CHR '':'' # w) = w"
proof -
  assume "CHR '':'' \<notin> set u"
  then have "index_of '':'' (u @ CHR '':'' # w) = Some (length u)" by (induction u) auto
  then show ?thesis by (simp add: after_colon_def)
qed

lemma num_str_no_colon: "CHR '':'' \<notin> set (num_str n)"
proof -
  have "CHR '':'' \<notin> set (show_nat k)" for k using show_nat_digits [of k] by (auto simp: digits_def)
  then show ?thesis by (simp add: num_str_def show_int_def split: option.split)
qed

lemma minute_cell_number:
  "0 \<le> i \<Longrightarrow> num_or (parseInt10 (after_colon (cell_text (minute_cell c p i)))) 0 = i"
  by (simp add: minute_cell_def Let_def after_colon_text num_str_no_colon two_digits_text num_or_def)

text \<open>The minute cells of a valid view, and the date a click on them makes.\<close>

lemma valid_day:
  assumes "valid (Some v)"
  shows "- 100000000 \<le> day_of v" "day_of v \<le> 100000000" "day_of v = 100000000 \<Longrightarrow> v = 8640000000000000"
proof -
  have v: "\<bar>v\<bar> \<le> 8640000000000000" using assms by (simp add: valid_def)
  have split: "v = day_of v * 86400000 + v mod ms_day" using day_of_split [of v] by (simp add: ms_day_def)
  have r: "0 \<le> v mod ms_day" "v mod ms_day < 86400000" by (simp_all add: ms_day_def)
  show "- 100000000 \<le> day_of v" "day_of v \<le> 100000000" "day_of v = 100000000 \<Longrightarrow> v = 8640000000000000"
    using v split r by linarith+
qed

lemma minute_cell_time:
  assumes "valid (Some v)" "0 \<le> i" "i < 60"
  defines "D \<equiv> day_of v * ms_day + make_time (hour_of v) i 0 (v mod 1000)"
  shows "\<bar>D\<bar> \<le> 8640000000000000 \<and> setUTCSeconds (Some 0) (setUTCMinutes (Some i) (Some v)) = Some D \<or>
    v = 8640000000000000 \<and> 0 < i"
proof (cases "day_of v = 100000000 \<and> 0 < i")
  case True
  then show ?thesis using valid_day(3) [OF assms(1)] by simp
next
  case False
  define w where "w = day_of v * ms_day + make_time (hour_of v) i (second_of v) (v mod 1000)"
  have b: "0 \<le> make_time (hour_of v) i x (v mod 1000) \<and> make_time (hour_of v) i x (v mod 1000) < 86400000"
    if "0 \<le> x" "x < 60" for x
    using make_time_bounds [of "hour_of v" i x "v mod 1000"] assms that by (simp add: ms_day_def)
  have f: "day_of w = day_of v" "hour_of w = hour_of v" "minute_of w = i" "w mod 1000 = v mod 1000"
    unfolding w_def using assms b [of "second_of v"] by (simp_all add: fields_make_time ms_day_def [symmetric])
  have "\<bar>day_of v * 86400000 + make_time (hour_of v) i x (v mod 1000)\<bar> \<le> 8640000000000000"
    if x: "x = 0 \<or> x = second_of v" for x
  proof (cases "day_of v = 100000000")
    case True
    then have "i = 0" "v = 8640000000000000" using False assms(2) valid_day(3) [OF assms(1)] by auto
    then show ?thesis using True x by (auto simp: make_time_def hour_of_def second_of_def)
  next
    case False
    then have "- 100000000 \<le> day_of v" "day_of v \<le> 99999999" using valid_day [OF assms(1)] by simp_all
    then show ?thesis using b [of x] x by auto
  qed
  from this [of 0] this [of "second_of v"] have "\<bar>D\<bar> \<le> 8640000000000000" "\<bar>w\<bar> \<le> 8640000000000000"
    by (simp_all add: D_def w_def ms_day_def)
  then show ?thesis using f by (simp add: setUTCMinutes_def setUTCSeconds_def num2_def D_def flip: w_def)
qed

text \<open>A date between the limits, to the minute.\<close>

definition in_limits :: "int \<Rightarrow> int \<Rightarrow> jsdate option \<Rightarrow> bool" where
  "in_limits a b d = (case d of Some (Some t) \<Rightarrow> minute_start a \<le> t \<and> minute_start t \<le> b | _ \<Rightarrow> True)"

lemma minute_pick:
  assumes "valid (view_val p)" "start_val p = Some a" "end_val p = Some b" "100 \<le> year_of a"
    and i: "0 \<le> i" "i < 60" and enabled: "\<not> is_disabled (minute_cell c p i)"
  shows "let v = view_val p in in_limits a b (Some (utc_date (getUTCFullYear v) (getUTCMonth v) (getUTCDate v)
    (getUTCHours v) (Some i) (getUTCSeconds v)))"
proof (cases "view_val p")
  case (Some v)
  define D where "D = day_of v * ms_day + make_time (hour_of v) i 0 (v mod 1000)"
  define M where "M = day_of v * ms_day + make_time (hour_of v) i 0 0"
  define T where "T = make_day (full_year (year_of v)) (month_of_day (day_of v)) (date_of_day (day_of v)) * ms_day
    + make_time (hour_of v) i (second_of v) 0"
  have utc: "utc_date (Some (year_of v)) (Some (month_of_day (day_of v))) (Some (date_of_day (day_of v)))
      (Some (hour_of v)) (Some i) (Some (second_of v)) = time_clip T"
    by (simp add: utc_date_def date_UTC_def T_def)
  have T: "T = day_of v * ms_day + make_time (hour_of v) i (second_of v) 0" if "100 \<le> year_of v"
    using that by (simp add: T_def full_year_def year_of_def)
  have ok: "\<not> num_less d (Some a)" "\<not> num_less (Some b) d"
    if "setUTCSeconds (Some 0) (setUTCMinutes (Some i) (Some v)) = d" for d
    using enabled that assms(2,3) Some by (auto simp: is_disabled_def minute_cell_def Let_def split: if_splits)
  have "in_limits a b (Some (time_clip T))"
  proof (cases "\<bar>D\<bar> \<le> 8640000000000000 \<and> setUTCSeconds (Some 0) (setUTCMinutes (Some i) (Some v)) = Some D")
    case True
    then have D: "a \<le> D" "D \<le> b" using ok [of "Some D"] by (simp_all add: num_less_def)
    have "day_of D = day_of v"
      unfolding D_def using make_time_bounds [of "hour_of v" i 0 "v mod 1000"] i by simp
    then have "100 \<le> year_of v" using year_of_mono [OF D(1)] assms(4) by (simp add: year_of_def)
    then have T': "minute_start T = M" "minute_start D = M"
      using i by (simp_all add: T D_def M_def minute_start_make)
    have "minute_start a \<le> T" "minute_start T \<le> b"
      using minute_start_mono [OF D(1)] minute_start_le [of D] minute_start_le [of T] T' D by simp_all
    then show ?thesis by (simp add: in_limits_def time_clip_def)
  next
    case False
    then have v: "v = 8640000000000000" "0 < i" using minute_cell_time [of v i] assms(1) i Some by (auto simp: D_def)
    have "day_of v = 100000000" by (simp add: v day_of_def ms_day_def)
    moreover have "year_of_day 100000000 = 275760" by code_simp
    ultimately have "T = 100000000 * ms_day + make_time (hour_of v) i (second_of v) 0" using T by (simp add: year_of_def)
    then have "8640000000000000 < T" using v(2) by (simp add: ms_day_def make_time_def v hour_of_def second_of_def)
    then show ?thesis by (simp add: in_limits_def time_clip_def)
  qed
  then show ?thesis using Some utc by (simp add: year_of_def)
qed (simp add: Let_def utc_date_def in_limits_def)

section \<open>Announced dates are within the limits\<close>

lemma trim_id:
  assumes "s \<noteq> []" "\<not> is_ws (hd s)" "\<not> is_ws (last s)"
  shows "trim s = s"
proof -
  have "dropWhile is_ws s = s" using assms(1,2) by (cases s) auto
  moreover have "dropWhile is_ws (rev s) = rev s" using assms(1,3) by (cases s rule: rev_cases) auto
  ultimately show ?thesis by (simp add: trim_def)
qed

lemma hour_minute_colon: "hour_minute s \<Longrightarrow> s ! 1 = CHR '':'' \<or> s ! 2 = CHR '':''"
proof -
  assume "hour_minute s"
  then obtain h rest where "h = 1 \<or> h = 2" "drop h s = CHR '':'' # rest"
    by (auto simp: hour_minute_def Let_def split: list.splits)
  then show ?thesis using nth_via_drop [of h s] by auto
qed

lemma minute_text_plain:
  assumes "all_digits y" "all_digits m" "all_digits d" "all_digits h" "all_digits i"
  shows "trim (minute_text y m d h i) = minute_text y m d h i" "\<not> hour_minute (minute_text y m d h i)"
proof -
  let ?s = "minute_text y m d h i"
  have "hd ?s = hd y" "last ?s = last i" "?s \<noteq> []" using assms by (auto simp: minute_text_def all_digits_def)
  moreover have "hd y \<in> set digits" "last i \<in> set digits" using assms by (auto simp: all_digits_def)
  ultimately show "trim ?s = ?s" by (intro trim_id) (simp_all add: digits_not_ws)
  define u where "u = y @ ''-'' @ m"
  have "3 \<le> length u" using assms(1,2) by (cases y; cases m) (simp_all add: u_def all_digits_def)
  moreover have "CHR '':'' \<notin> set u" "?s = u @ ''-'' @ d @ '' '' @ h @ '':'' @ i"
    using assms by (auto simp: u_def minute_text_def all_digits_def digits_def)
  ultimately have "?s ! k \<noteq> CHR '':''" if "k < 3" for k
    using that by (metis less_le_trans nth_append_left nth_mem)
  from this [of 1] this [of 2] show "\<not> hour_minute ?s" using hour_minute_colon [of ?s] by auto
qed

lemma read_from_printed:
  assumes "p_text u = dp_formatDate tz page_format (Some (Some t))" "0 \<le> year_of t"
  shows "read_from c now u = DText (p_text u)"
proof -
  have d: "all_digits (two_digits (Some (month_of_day (day_of t) + 1)))" "all_digits (two_digits (Some (date_of_day (day_of t))))"
    "all_digits (num_str (Some (year_of t)))" "all_digits (two_digits (Some (hour_of t)))" "all_digits (two_digits (Some (minute_of t)))"
    using assms(2) day_of_month(1) [of t] by (simp_all add: two_digits_text)
  then have "trim (p_text u) = p_text u" "\<not> hour_minute (p_text u)" "p_text u \<noteq> []"
    unfolding assms(1) page_text using minute_text_plain [OF d(3,1,2,4,5)] by (simp_all add: minute_text_def)
  then show ?thesis by (simp add: read_from_def update_source_def)
qed

definition page_conf :: "pconf \<Rightarrow> bool" where
  "page_conf c \<longleftrightarrow> conf_ok c \<and> c_format c = page_format \<and> c_viewSelect c = 0 \<and> 0 < c_minuteStep c"

definition limits_ok :: "int \<Rightarrow> int \<Rightarrow> bool" where
  "limits_ok a b \<longleftrightarrow> a \<le> b \<and> 100 \<le> year_of a \<and> year_of b \<le> 9999"

lemma minute_marks_range: "i \<in> set (minute_marks k j) \<Longrightarrow> j \<le> i \<and> i < 60"
proof (induction k j rule: minute_marks.induct)
  case (1 k j)
  then have j: "0 < k" "j < 60" "i = j \<or> i \<in> set (minute_marks k (j + k))"
    by (auto simp: minute_marks.simps [of k j] split: if_splits)
  then show ?case using "1.IH" by fastforce
qed

lemma key_announces:
  assumes "core c (Some a) (Some b) p" "page_conf c" "limits_ok a b"
    "key_arrow c now dir vert ctrl shift p = Returned q" "q \<noteq> p"
  shows "\<exists>t. changes q = changes p @ [Some (Some t)] \<and> in_limits a b (Some (Some t))"
proof -
  obtain nd d u where k: "dateWithinRange p nd" "p_text u = dp_formatDate (c_timezone c) page_format (Some nd)"
    "parseDate now (c_tzo c) page_format (read_from c now u) = Returned d" "changes q = changes p @ [Some d]"
    using key_arrow_ok [OF assms(1,4)] assms(2,5) by (auto simp: page_conf_def)
  obtain t where t: "nd = Some t" "a \<le> t" "t \<le> b"
    using k(1) assms(1) by (auto simp: dateWithinRange_def core_def num_leq_def split: option.splits)
  have y: "0 \<le> year_of t" "year_of t \<le> 9999"
    using year_of_mono [OF t(2)] year_of_mono [OF t(3)] assms(3) by (simp_all add: limits_ok_def)
  have "d = Some (minute_start t)"
    using k(2,3) read_from_printed [of u "c_timezone c" t c now] parse_printed [OF y] y(1) t(1) by simp
  moreover have "minute_start a \<le> minute_start t" "minute_start (minute_start t) \<le> b"
    using minute_start_mono [OF t(2)] minute_start_le [of t] minute_start_le [of "minute_start t"] t(3) by linarith+
  ultimately show ?thesis using k(4) by (auto simp: in_limits_def)
qed

lemma clamped_in_limits:
  "a \<le> b \<Longrightarrow> in_limits a b (Some (if num_less d (Some a) then Some a else if num_less (Some b) d then Some b else d))"
  using minute_start_le [of a] minute_start_mono [of a b] minute_start_le [of b]
  by (cases d) (auto simp: in_limits_def num_less_def intro: order_trans [OF minute_start_le])

lemma click_changes:
  assumes "picker_ok c (Some a) (Some b) p" "page_conf c" "limits_ok a b" "p_visible p" "dtp_click c now t p = Returned q"
  shows "\<exists>ds. changes q = changes p @ ds \<and> list_all (in_limits a b) ds"
proof -
  have v: "core c (Some a) (Some b) p" "own_view p" "drawn c p" using assms(1,4) by (simp_all add: picker_ok_def)
  have conf: "conf_ok c" "c_viewSelect c = 0" using assms(2) by (simp_all add: page_conf_def)
  note clicks = cell_clicks_ok [OF v(1,2)]
  show ?thesis
  proof (cases t)
    case TClear
    with assms(5) show ?thesis using click_clear_ok(2) [OF v(1) conf(1)] by (auto simp: in_limits_def)
  next
    case TToday
    define today where "today = utc_copy (time_clip (now - c_tzo c now * 60000))"
    have "changes q = changes p @ [Some (if num_less today (Some a) then Some a else if num_less (Some b) today then Some b else today)]"
      using TToday assms(5) click_today_ok(2) [OF v(1) conf(1)] by (simp add: today_def Let_def)
    then show ?thesis using clamped_in_limits [of a b today] assms(3) by (simp add: limits_ok_def)
  next
    case (TMinute k)
    show ?thesis
    proof (cases "k < length (p_minutes p) \<and> \<not> is_disabled (p_minutes p ! k)")
      case True
      define x where "x = p_minutes p ! k"
      have "x \<in> set (fill_minutes c p)" using True v(3) nth_mem by (auto simp: x_def drawn_def)
      then obtain i where i: "x = minute_cell c p i" "0 \<le> i" "i < 60"
        using minute_marks_range by (fastforce simp: fill_minutes_def)
      obtain r where r: "click_minute c now x p = Returned r" "q = next_or_hide c r"
        using TMinute True assms(5) by (auto simp: on_cell_def exec_bind_Returned x_def)
      have "valid (view_val p)" "start_val p = Some a" "end_val p = Some b" "100 \<le> year_of a"
        using v(1) assms(3) by (simp_all add: core_def view_val_def limits_ok_def)
      then have "let v = view_val p in in_limits a b (Some (utc_date (getUTCFullYear v) (getUTCMonth v) (getUTCDate v)
          (getUTCHours v) (Some i) (getUTCSeconds v)))"
        using i True by (intro minute_pick) (auto simp: x_def)
      moreover have "changes q = changes p @ [Some (let v = view_val p in utc_date (getUTCFullYear v) (getUTCMonth v)
          (getUTCDate v) (getUTCHours v) (Some i) (getUTCSeconds v))]"
        using clicks(4) [OF r(1)] conf(2) i r(2) minute_cell_number [of i c p] by simp
      ultimately show ?thesis by (simp add: Let_def)
    next
      case False
      with TMinute assms(5) show ?thesis by (auto simp: on_cell_def split: if_splits)
    qed
  qed (use assms(5) conf(2) clicks(1-3,5) click_arrow_ok(2) [OF v(1,2)] in
      \<open>auto simp: on_cell_def exec_bind_Returned Let_def split: if_splits\<close>)
qed

lemma step_changes:
  assumes "picker_ok c (Some a) (Some b) p" "page_conf c" "limits_ok a b" "dtp_possible p ev" "dtp_step c now ev p = Returned q"
  shows "\<exists>ds. changes q = changes p @ ds \<and> list_all (in_limits a b) ds"
proof -
  have core: "core c (Some a) (Some b) p" using assms(1) by (simp add: picker_ok_def)
  have upd: "changes r = changes p" if "dtp_update c now None (p\<lparr>p_text := t\<rparr>) = Returned r" for t r
    using update_keeps [OF _ that] core by simp
  have arrow: "\<exists>ds. changes q = changes p @ ds \<and> list_all (in_limits a b) ds"
    if "key_arrow c now dir vert ctrl shift p = Returned q" for dir vert ctrl shift
    using key_announces [OF core assms(2,3) that] by (cases "q = p") auto
  show ?thesis
  proof (cases ev)
    case (PKey key ctrl shift)
    then show ?thesis
      using assms(5) arrow show_keeps [OF core, of now q] by (auto simp: dtp_keydown_def split: if_splits)
  next
    case (PClick t)
    then show ?thesis using assms click_changes by simp
  qed (use assms(5) upd [of "p_text p" q] upd show_keeps [OF core, of now q] in auto)
qed

section \<open>A new picker\<close>

text \<open>The limit a picker keeps for the date \<open>s\<close> of the host: its local time, in full seconds.\<close>

definition stored_limit :: "pconf \<Rightarrow> int \<Rightarrow> jsdate" where
  "stored_limit c s = (if s = 8639968443048000 then Some s
     else Option.bind (time_clip (s - c_tzo c s * 60000)) (\<lambda>u. Some (u - u mod 1000)))"

lemma core_start: "core c s e p \<Longrightarrow> r < p_next p \<Longrightarrow> core c (p_heap p r) e (p\<lparr>p_start := r\<rparr>)"
  "core c s e p \<Longrightarrow> r < p_next p \<Longrightarrow> core c s (p_heap p r) (p\<lparr>p_end := r\<rparr>)"
  by (auto simp: core_def val_defs)

lemma new_limit_date: "new_limit c now (Some (DDate (Some s))) r p = Returned (new_obj (stored_limit c s) p)"
  by (simp add: new_limit_def stored_limit_def parseDate_def)

text \<open>A picker under construction.\<close>

definition blank :: "pconf \<Rightarrow> jsdate \<Rightarrow> jsdate \<Rightarrow> picker \<Rightarrow> bool" where
  "blank c s e p \<longleftrightarrow> core c s e p \<and> p_text p = [] \<and> \<not> p_visible p \<and> p_viewMode p = c_startView c \<and> changes p = []"

lemma update_blank:
  assumes "blank c s e p"
  shows "\<exists>q. dtp_update c now None p = Returned q \<and> blank c s e q"
proof -
  have p: "core c s e p" "p_text p = []" using assms by (simp_all add: blank_def)
  obtain q where q: "dtp_update c now None p = Returned q"
    using p dtp_update_eq [of p c now] by (simp add: core_def read_from_def update_source_def parseDate_def)
  obtain d where "q = updated c d p" "valid d" using update_ok [OF p(1) q] by blast
  then have "blank c s e q" using updated_ok [OF p(1), of d c] assms by (simp add: blank_def changes_def)
  with q show ?thesis by blast
qed

lemma again_blank:
  assumes "blank c s e p"
  obtains q where "again c now p = Returned q" "blank c s e q"
  using update_blank [OF assms, of now] by (auto simp: again_def blank_def)

lemma blank_start:
  assumes "blank c s e p" "valid x"
  shows "blank c x e ((snd (new_obj x p))\<lparr>p_start := fst (new_obj x p)\<rparr>)"
    "blank c s x ((snd (new_obj x p))\<lparr>p_end := fst (new_obj x p)\<rparr>)"
proof -
  have p: "core c s e p" using assms(1) by (simp add: blank_def)
  note n = core_new_obj [OF p assms(2)]
  show "blank c x e ((snd (new_obj x p))\<lparr>p_start := fst (new_obj x p)\<rparr>)"
    "blank c s x ((snd (new_obj x p))\<lparr>p_end := fst (new_obj x p)\<rparr>)"
    using core_start(1,2) [OF n(1,2)] n(9) assms(1) by (simp_all add: blank_def) (simp_all add: new_obj_def changes_def)
qed

lemma new_Datetimepicker_ok:
  assumes "conf_ok c"
  shows "\<exists>p. new_Datetimepicker c now (Some (DDate (Some s))) (Some (DDate (Some e))) = Returned p \<and>
    picker_ok c (stored_limit c s) (stored_limit c e) p \<and> blank c (stored_limit c s) (stored_limit c e) p"
proof -
  have valid: "valid (stored_limit c x)" for x
    using valid_parseDate [of 0 "c_tzo c" page_format "DDate (Some x)"]
    by (simp add: stored_limit_def parseDate_def) (simp add: valid_def)
  have "blank c (Some (- 8639968443048000)) (Some 8639968443048000) (empty_picker c)"
    using assms by (simp add: blank_def core_def empty_picker_def conf_ok_def val_defs valid_def changes_def)
  from again_blank [OF blank_start(1) [OF this valid [of s]], of now] obtain p1 where p1:
    "dtp_setStartDate c now (Some (DDate (Some s))) (empty_picker c) = Returned p1"
    "blank c (stored_limit c s) (Some 8639968443048000) p1"
    by (auto simp: dtp_setStartDate_def new_limit_date split_beta again_def)
  from again_blank [OF blank_start(2) [OF p1(2) valid [of e]], of now] obtain p2 where p2:
    "dtp_setEndDate c now (Some (DDate (Some e))) p1 = Returned p2" "blank c (stored_limit c s) (stored_limit c e) p2"
    by (auto simp: dtp_setEndDate_def new_limit_date split_beta again_def)
  obtain p3 where p3: "again c now p2 = Returned p3" "blank c (stored_limit c s) (stored_limit c e) p3"
    using again_blank [OF p2(2)] .
  obtain p4 where p4: "again c now p3 = Returned p4" "blank c (stored_limit c s) (stored_limit c e) p4"
    using again_blank [OF p3(2)] .
  obtain p5 where p5: "again c now p4 = Returned p5" "blank c (stored_limit c s) (stored_limit c e) p5"
    using again_blank [OF p4(2)] .
  obtain p6 where p6: "again c now p5 = Returned p6" "blank c (stored_limit c s) (stored_limit c e) p6"
    using again_blank [OF p5(2)] .
  obtain p7 where p7: "dtp_update c now None p6 = Returned p7" "blank c (stored_limit c s) (stored_limit c e) p7"
    using update_blank [OF p6(2)] by blast
  have "new_Datetimepicker c now (Some (DDate (Some s))) (Some (DDate (Some e))) = Returned (dtp_showMode c 0 p7)"
    by (simp add: new_Datetimepicker_def p1(1) p2(1) p3(1) p4(1) p5(1) p6(1) p7(1))
  moreover have "blank c (stored_limit c s) (stored_limit c e) (dtp_showMode c 0 p7)"
    using p7(2) by (simp add: core_showMode blank_def) (simp add: dtp_showMode_def)
  ultimately show ?thesis by (auto simp: picker_ok_def blank_def)
qed

end
