(* ===== verification/PickerTables.thy ===== *)
theory PickerTables
  imports PickerProps
begin

text \<open>
  What the tables of the picker show and what a click in them does: the 42 days of the day table,
  which of them belong to the month on view and which can be chosen, the date a click on a day, an
  hour or a minute leads to, and the way from an open picker to any minute between the limits.
\<close>

section \<open>The table of days\<close>

lemma day_loop_map:
  assumes "\<And>k. k \<le> int n \<Longrightarrow> 0 \<le> k \<Longrightarrow> \<bar>t + k * ms_day\<bar> \<le> 8640000000000000"
  shows "day_loop draw t (t + int n * ms_day) = map (\<lambda>k. draw (t + int k * ms_day)) [0..<n]"
  using assms
proof (induction n arbitrary: t)
  case 0
  then show ?case by (simp add: day_loop.simps)
next
  case (Suc n)
  have "time_clip (t + ms_day) = Some (t + ms_day)" using Suc.prems [of 1] by simp
  moreover have "\<bar>t + ms_day + k * ms_day\<bar> \<le> 8640000000000000" if "k \<le> int n" "0 \<le> k" for k
    using Suc.prems [of "k + 1"] that by (simp add: algebra_simps)
  then have "day_loop draw (t + ms_day) (t + (ms_day + int n * ms_day)) =
      map (\<lambda>k. draw (t + ms_day + int k * ms_day)) [0..<n]"
    using Suc.IH [of "t + ms_day"] by (simp add: add.assoc)
  moreover have "t + int (Suc n) * ms_day = t + (ms_day + int n * ms_day)" "t < t + int (Suc n) * ms_day"
    by (simp_all add: algebra_simps ms_day_def)
  ultimately have "day_loop draw t (t + int (Suc n) * ms_day) =
      draw t # map (\<lambda>k. draw (t + ms_day + int k * ms_day)) [0..<n]"
    by (subst day_loop.simps) (simp add: next_day add.assoc)
  also have "\<dots> = map (\<lambda>k. draw (t + int k * ms_day)) (0 # map Suc [0..<n])" by (simp add: comp_def algebra_simps)
  finally show ?case by (simp add: map_Suc_upt upt_conv_Cons del: upt_Suc)
qed

text \<open>The first day of the table of the month with the index \<open>n\<close>.\<close>

definition table_start :: "pconf \<Rightarrow> int \<Rightarrow> int" where
  "table_start c n = month_base n - (week_day (month_base n) - c_weekStart c + 7) mod 7"

lemma table_start_bounds: "month_base n - 6 \<le> table_start c n" "table_start c n \<le> month_base n"
  by (simp_all add: table_start_def)

lemma table_start_weekday:
  assumes "0 \<le> c_weekStart c" "c_weekStart c < 7"
  shows "week_day (table_start c n) = c_weekStart c"
proof -
  define x m w where "x = month_base n + 4" and "m = (month_base n + 4) mod 7" and "w = c_weekStart c"
  have "x - (m - w + 7) = w + 7 * (x div 7 - 1)"
    using minus_mod_eq_mult_div [of x 7] by (simp add: x_def m_def algebra_simps)
  then have "(x - (m - w + 7) mod 7) mod 7 = w mod 7" by (simp only: mod_diff_right_eq mod_mult_self2)
  moreover have "table_start c n + 4 = x - (m - w + 7) mod 7"
    by (simp add: table_start_def week_day_def x_def m_def w_def)
  ultimately show ?thesis using assms by (simp add: week_day_def w_def)
qed

lemma month_base_bounds:
  assumes "0 \<le> year_of v" "year_of v \<le> 9999"
  shows "- 1000000 \<le> month_base (month_index v)" "month_base (month_index v) \<le> 5000000"
  using make_day_bounds [OF assms, of "month_of_day (day_of v)" 1]
    make_day_shift [of "year_of v" "month_of_day (day_of v)" 0 1]
  by (simp_all add: month_base_def month_index_fields year_of_def)

lemma getDaysInMonth_len: "0 \<le> m \<Longrightarrow> m < 12 \<Longrightarrow> getDaysInMonth y m = Some (month_len y m)"
  using month_cases [of m] by (auto simp: getDaysInMonth_def month_len_def isLeapYear_def leap_def)

lemma day_in_month: "day_of (in_month n v t) = month_base n + v"
  by (simp add: in_month_base)

text \<open>\<open>first_shown\<close> is the start of the table, for the years \<open>Date.UTC\<close> does not move to 1900.\<close>

lemma first_shown_start:
  assumes "100 \<le> year_of v" "year_of v \<le> 9999"
  shows "first_shown c (year_of v) (month_of_day (day_of v)) = Some (table_start c (month_index v) * ms_day)"
proof -
  define n where "n = month_index v - 1"
  define B where "B = month_base (month_index v)"
  define k where "k = (week_day B - c_weekStart c + 7) mod 7"
  have base: "B = month_base n + index_len n" using month_base_next [of n] by (simp add: B_def n_def)
  have bounds: "- 1000000 \<le> B" "B \<le> 5000000" using month_base_bounds [of v] assms by (simp_all add: B_def)
  note len = index_len_bounds [of n]
  have clip: "\<bar>in_month n w 0\<bar> \<le> 8640000000000000" if "- 10 \<le> w" "w \<le> 40" for w
    using that bounds len base by (simp add: in_month_base ms_day_def)
  have "n = 12 * year_of v + (month_of_day (day_of v) - 1)" by (simp add: n_def month_index_def year_of_def)
  then have "make_day (year_of v) (month_of_day (day_of v) - 1) 28 * ms_day = in_month n 28 0"
    using make_day_carry [of "year_of v" "month_of_day (day_of v) - 1" 28] by (simp add: in_month_def)
  then have first: "date_UTC (year_of v) (month_of_day (day_of v) - 1) 28 0 0 0 = Some (in_month n 28 0)"
    using assms clip [of 28] by (simp add: date_UTC_def full_year_def make_time_def)
  have "year_of_day (day_of (in_month n 28 0)) = n div 12" "month_of_day (day_of (in_month n 28 0)) = n mod 12"
    using month_index_fields [of "in_month n 28 0"] fields_in_month(1,3) [of 28 n 0] len by simp_all
  then have day: "Option.bind (getUTCFullYear (Some (in_month n 28 0)))
      (\<lambda>y. Option.bind (getUTCMonth (Some (in_month n 28 0))) (getDaysInMonth y)) = Some (index_len n)"
    by (simp add: getDaysInMonth_len index_len_def)
  have last: "setUTCDate (Some (index_len n)) (Some (in_month n 28 0)) = Some (in_month n (index_len n) 0)"
    using setUTCDate_in_month [of 28 n "index_len n" 0] len clip [of "index_len n"] by simp
  have wd: "getUTCDay (Some (in_month n (index_len n) 0)) = Some (week_day B)" by (simp add: day_in_month base)
  have "setUTCDate (Some (index_len n - k)) (Some (in_month n (index_len n) 0)) = Some (in_month n (index_len n - k) 0)"
    using setUTCDate_in_month [of "index_len n" n "index_len n - k" 0] len clip [of "index_len n - k"]
    by (simp add: k_def)
  moreover have "in_month n (index_len n - k) 0 = table_start c (month_index v) * ms_day"
    by (simp add: in_month_base table_start_def base k_def flip: B_def)
  ultimately show ?thesis
    unfolding first_shown_def first Let_def day last wd by (simp add: num2_def k_def)
qed

text \<open>The table has 42 consecutive days.\<close>

definition shown_cell :: "pconf \<Rightarrow> picker \<Rightarrow> int \<Rightarrow> int \<Rightarrow> pcell" where
  "shown_cell c p v d =
     day_cell c p (Some (year_of v)) (Some (month_of_day (day_of v)))
       (Option.bind (date_val p) (\<lambda>x. Option.bind x (\<lambda>t.
          date_UTC (year_of_day (day_of t)) (month_of_day (day_of t)) (date_of_day (day_of t)) 0 0 0))) (d * ms_day)"

lemma fill_days_table:
  assumes "view_val p = Some v" "100 \<le> year_of v" "year_of v \<le> 9999"
  shows "fill_days c p = map (\<lambda>k. shown_cell c p v (table_start c (month_index v) + int k)) [0..<42]"
proof -
  define f where "f = table_start c (month_index v)"
  have f: "- 1000006 \<le> f" "f \<le> 5000000"
    using table_start_bounds [where c = c and n = "month_index v"] month_base_bounds [of v] assms(2,3) by (simp_all add: f_def)
  have "setUTCDate (plus_num (getUTCDate (Some (f * ms_day))) 42) (Some (f * ms_day)) = Some (f * ms_day + int 42 * ms_day)"
    using setUTCDate_shift [of "f * ms_day" 42] f by (simp add: plus_num_def) (simp add: ms_day_def)
  moreover have "first_shown c (year_of_day (day_of v)) (month_of_day (day_of v)) = Some (f * ms_day)"
    using first_shown_start [OF assms(2,3)] by (simp add: f_def year_of_def)
  moreover have "day_loop draw (f * ms_day) (f * ms_day + int 42 * ms_day) = map (\<lambda>k. draw (f * ms_day + int k * ms_day)) [0..<42]"
    for draw
    using f by (intro day_loop_map) (simp add: ms_day_def)
  ultimately show ?thesis
    unfolding fill_days_def assms(1) shown_cell_def f_def [symmetric]
    by (simp add: Let_def year_of_def distrib_right del: of_nat_numeral)
qed

section \<open>The cells of the table of days\<close>

lemma day_fields_in_month:
  assumes "1 \<le> d - month_base n" "d - month_base n \<le> index_len n"
  shows "12 * year_of_day d + month_of_day d = n" "date_of_day d = d - month_base n"
  using fields_in_month(1,2) [OF assms, of 0] by (simp_all add: month_index_def day_in_month)

lemma month_order:
  assumes "0 \<le> (m :: int)" "m < 12" "0 \<le> m'" "m' < 12"
  shows "y < y' \<or> y = y' \<and> m < m' \<longleftrightarrow> 12 * y + m < 12 * y' + m'"
  using assms by auto

lemma index_unique:
  assumes "0 \<le> (m :: int)" "m < 12" "0 \<le> m'" "m' < 12" "12 * y + m = 12 * y' + m'"
  shows "y = y'" "m = m'"
proof -
  have "y = (12 * y + m) div 12" "m = (12 * y + m) mod 12" using assms(1,2) by simp_all
  then show "y = y'" "m = m'" unfolding assms(5) using assms(3,4) by simp_all
qed

text \<open>The days of the table are in the month before, in the month itself, or in the one after.\<close>

lemma table_month:
  assumes "table_start c n \<le> d" "d < table_start c n + 42"
  shows "12 * year_of_day d + month_of_day d =
    (if d \<le> month_base n then n - 1 else if d \<le> month_base n + index_len n then n else n + 1)"
proof -
  note b = table_start_bounds [where c = c and n = n] index_len_bounds [of n] index_len_bounds [of "n - 1"]
    index_len_bounds [of "n + 1"] month_base_next [of n] month_base_next [of "n - 1"]
  have long: "index_len n < 31 \<Longrightarrow> index_len (n + 1) = 31" using short_month(1) .
  consider "d \<le> month_base n" | "month_base n < d" "d \<le> month_base n + index_len n" | "month_base n + index_len n < d"
    by linarith
  then show ?thesis
  proof cases
    case 1
    then show ?thesis using day_fields_in_month(1) [of d "n - 1"] assms b by simp
  next
    case 2
    then show ?thesis using day_fields_in_month(1) [of d n] by simp
  next
    case 3
    then show ?thesis using day_fields_in_month(1) [of d "n + 1"] assms b by simp
  qed
qed

lemma shown_cell_classes:
  assumes "table_start c (month_index v) \<le> d" "d < table_start c (month_index v) + 42"
    "start_val p = Some a" "end_val p = Some b"
  shows "cell_text (shown_cell c p v d) = show_int (date_of_day d)"
    "''old'' \<in> set (cell_classes (shown_cell c p v d)) \<longleftrightarrow> d \<le> month_base (month_index v)"
    "''new'' \<in> set (cell_classes (shown_cell c p v d)) \<longleftrightarrow> month_base (month_index v) + index_len (month_index v) < d"
    "is_disabled (shown_cell c p v d) \<longleftrightarrow> (d + 1) * ms_day \<le> a \<or> b < d * ms_day \<or> week_day d \<in> set (c_daysOfWeekDisabled c)"
proof -
  have day: "day_of (d * ms_day) = d" by (simp add: day_of_def ms_day_def)
  have old: "year_of_day d < year_of v \<or> year_of_day d = year_of v \<and> month_of_day d < month_of_day (day_of v) \<longleftrightarrow>
      d \<le> month_base (month_index v)"
    using month_order [of "month_of_day d" "month_of_day (day_of v)" "year_of_day d" "year_of v"] table_month [OF assms(1,2)]
    by (auto simp: month_index_def year_of_def split: if_splits)
  have new: "year_of v < year_of_day d \<or> year_of_day d = year_of v \<and> month_of_day (day_of v) < month_of_day d \<longleftrightarrow>
      month_base (month_index v) + index_len (month_index v) < d"
    using month_order [of "month_of_day (day_of v)" "month_of_day d" "year_of v" "year_of_day d"] table_month [OF assms(1,2)]
      index_len_bounds [of "month_index v"]
    by (auto simp: month_index_def year_of_def split: if_splits)
  show "cell_text (shown_cell c p v d) = show_int (date_of_day d)"
    by (simp add: shown_cell_def day_cell_def Let_def num_str_def day)
  show "''old'' \<in> set (cell_classes (shown_cell c p v d)) \<longleftrightarrow> d \<le> month_base (month_index v)"
    unfolding old [symmetric] by (simp add: shown_cell_def day_cell_def Let_def day num_less_def same_num_def)
  show "''new'' \<in> set (cell_classes (shown_cell c p v d)) \<longleftrightarrow> month_base (month_index v) + index_len (month_index v) < d"
    unfolding new [symmetric] by (auto simp: shown_cell_def day_cell_def Let_def day num_less_def same_num_def)
  show "is_disabled (shown_cell c p v d) \<longleftrightarrow> (d + 1) * ms_day \<le> a \<or> b < d * ms_day \<or> week_day d \<in> set (c_daysOfWeekDisabled c)"
    by (simp add: is_disabled_def shown_cell_def day_cell_def Let_def day assms(3,4) num_leq_def num_less_def)
       (simp add: ms_day_def algebra_simps)
qed

lemma day_overlaps:
  assumes "a \<le> b"
  shows "(d + 1) * ms_day \<le> a \<or> b < d * ms_day \<longleftrightarrow> \<not> (\<exists>t. day_of t = d \<and> a \<le> t \<and> t \<le> b)"
proof
  assume l: "(d + 1) * ms_day \<le> a \<or> b < d * ms_day"
  show "\<not> (\<exists>t. day_of t = d \<and> a \<le> t \<and> t \<le> b)"
  proof
    assume "\<exists>t. day_of t = d \<and> a \<le> t \<and> t \<le> b"
    then obtain t where t: "day_of t = d" "a \<le> t" "t \<le> b" by blast
    have "t = d * ms_day + t mod ms_day" using day_of_split [of t] t(1) by simp
    then have "d * ms_day \<le> t" "t < d * ms_day + ms_day" using mod_ms_day(1,2) [of t] by linarith+
    with l t show False unfolding distrib_right by linarith
  qed
next
  assume r: "\<not> (\<exists>t. day_of t = d \<and> a \<le> t \<and> t \<le> b)"
  show "(d + 1) * ms_day \<le> a \<or> b < d * ms_day"
  proof (rule ccontr)
    assume n: "\<not> ((d + 1) * ms_day \<le> a \<or> b < d * ms_day)"
    define t where "t = max a (d * ms_day)"
    have "day_of (d * ms_day + (t - d * ms_day)) = d"
      using n by (intro day_of_make) (simp_all add: t_def algebra_simps ms_day_def)
    moreover have "a \<le> t" "t \<le> b" using n assms by (simp_all add: t_def)
    ultimately show False using r by auto
  qed
qed

section \<open>A click on a day\<close>

lemma same_year_near:
  assumes "0 \<le> m" "m < 12" "1 \<le> w" "w \<le> 31"
  shows "\<bar>make_day (year_of_day d) m w - d\<bar> \<le> 400"
proof -
  have "make_day (year_of_day d) m w = day_from_year (year_of_day d) + month_start (year_of_day d) m + w - 1"
    using assms by (simp add: make_day_def Let_def)
  then show ?thesis
    using year_of_day [of d] day_from_year_Suc [of "year_of_day d"] month_start_bound [OF assms(1,2), of "year_of_day d"]
      month_len_bounds [of "year_of_day d" m] assms by (simp split: if_splits)
qed

text \<open>Setting the year keeps it, even where the 29th of February becomes the first of March.\<close>

lemma year_make_day:
  assumes "0 \<le> m" "m < 12" "1 \<le> w" "w \<le> 31"
  shows "year_of_day (make_day y m w) = y"
proof (cases "w \<le> month_len y m")
  case True
  then show ?thesis using assms by (simp add: fields_make_day)
next
  case False
  define n where "n = 12 * y + m"
  have n: "n div 12 = y" "n mod 12 = m" "index_len n = month_len y m" using assms by (simp_all add: n_def index_len_def)
  define k where "k = w - index_len n"
  have short: "index_len n < 31" using False assms n by simp
  have k: "1 \<le> k" "k \<le> index_len (n + 1)" using False short_month(1) [OF short] assms n index_len_bounds [of n] by (simp_all add: k_def)
  have "make_day y m w = make_day ((n + 1) div 12) ((n + 1) mod 12) k"
    unfolding make_day_next [OF refl] using n by (simp add: k_def)
  moreover have "year_of_day (make_day ((n + 1) div 12) ((n + 1) mod 12) k) = (n + 1) div 12"
    using k by (intro fields_make_day(1)) (simp_all add: index_len_def)
  ultimately show ?thesis using short_month(4) [OF short] n by simp
qed

lemma set_day:
  assumes "\<bar>d\<bar> \<le> 6000000"
  shows "setUTCMonth_date (Some (month_of_day d)) (Some (date_of_day d)) (setUTCFullYear (Some (year_of_day d)) (Some v)) =
    Some (d * ms_day + v mod ms_day)"
proof -
  define u where "u = make_day (year_of_day d) (month_of_day (day_of v)) (date_of_day (day_of v)) * ms_day + v mod ms_day"
  have f: "0 \<le> month_of_day (day_of v)" "month_of_day (day_of v) < 12" "1 \<le> date_of_day (day_of v)" "date_of_day (day_of v) \<le> 31"
    by (simp_all add: day_of_month)
  have "\<bar>make_day (year_of_day d) (month_of_day (day_of v)) (date_of_day (day_of v))\<bar> \<le> 6000400"
    using same_year_near [OF f, of d] assms by linarith
  then have clip: "\<bar>u\<bar> \<le> 8640000000000000" "\<bar>d * ms_day + v mod ms_day\<bar> \<le> 8640000000000000"
    using mod_ms_day(1,2) [of v] assms by (simp_all add: u_def ms_day_def)
  have "day_of u = make_day (year_of_day d) (month_of_day (day_of v)) (date_of_day (day_of v))" "u mod ms_day = v mod ms_day"
    by (simp_all add: u_def)
  then have "year_of_day (day_of u) = year_of_day d" using year_make_day [OF f] by simp
  moreover have "setUTCFullYear (Some (year_of_day d)) (Some v) = Some u"
    using clip(1) by (simp add: setUTCFullYear_def u_def)
  ultimately show ?thesis
    using clip(2) \<open>u mod ms_day = v mod ms_day\<close> by (simp add: setUTCMonth_date_def num2_def)
qed

lemma cell_month_of_day:
  assumes "table_start c (month_index v) \<le> d" "d < table_start c (month_index v) + 42"
    "start_val p = Some a" "end_val p = Some b"
  shows "cell_month (shown_cell c p v d) (Some (year_of v)) (Some (month_of_day (day_of v))) =
    (Some (year_of_day d), Some (month_of_day d))"
proof -
  define Y M y m where "Y = year_of v" and "M = month_of_day (day_of v)" and "y = year_of_day d" and "m = month_of_day d"
  have r: "0 \<le> M" "M < 12" "0 \<le> m" "m < 12" by (simp_all add: M_def m_def)
  have ix: "month_index v = 12 * Y + M" by (simp add: month_index_def Y_def M_def year_of_def)
  have t: "12 * y + m = (if d \<le> month_base (month_index v) then 12 * Y + M - 1
      else if d \<le> month_base (month_index v) + index_len (month_index v) then 12 * Y + M else 12 * Y + M + 1)"
    using table_month [OF assms(1,2)] by (simp add: ix y_def m_def)
  note cls = shown_cell_classes(2,3) [OF assms]
  have "index_len (month_index v) > 0" using index_len_bounds [of "month_index v"] by linarith
  moreover define z where "z = (if d \<le> month_base (month_index v) then if M = 0 then (Y - 1, 11) else (Y, M - 1)
      else if month_base (month_index v) + index_len (month_index v) < d then if M = 11 then (Y + 1, 0) else (Y, M + 1)
      else (Y, M))"
  ultimately have "12 * fst z + snd z = 12 * y + m" "0 \<le> snd z" "snd z < 12"
    unfolding t z_def using r by auto
  then have "z = (y, m)" using index_unique [OF _ _ r(3,4)] by (metis prod.collapse)
  then show ?thesis unfolding z_def
    by (auto simp: cell_month_def cls same_num_def plus_num_def Y_def [symmetric] M_def [symmetric] y_def [symmetric]
        m_def [symmetric] split: if_splits)
qed

text \<open>A click on a day moves the view to this day and keeps its time of day.\<close>

lemma click_day_view:
  assumes "view_val p = Some v" "100 \<le> year_of v" "year_of v \<le> 9999" "c_viewSelect c < 2"
    and d: "table_start c (month_index v) \<le> d" "d < table_start c (month_index v) + 42"
    and l: "start_val p = Some a" "end_val p = Some b"
  shows "click_day c now (shown_cell c p v d) p =
    Returned (dtp_trigger (Trigger ''changeDay'') (change_view (\<lambda>_. Some (d * ms_day + v mod ms_day)) p))"
proof -
  have "\<bar>d\<bar> \<le> 6000000"
    using table_start_bounds [where c = c and n = "month_index v"] month_base_bounds [of v] assms(2,3) d by simp
  note s = set_day [OF this, of v]
  have "1 \<le> date_of_day d" using date_range(1) .
  moreover from this have "parseInt10 (show_int (date_of_day d)) = Some (date_of_day d)"
    using two_digits_text(4) [of "date_of_day d"] by (simp add: num_str_def)
  ultimately have "num_or (parseInt10 (cell_text (shown_cell c p v d))) 1 = date_of_day d"
    by (simp add: shown_cell_classes(1) [OF d l] num_or_def)
  moreover have "cell_month (shown_cell c p v d) (getUTCFullYear (Some v)) (getUTCMonth (Some v)) =
      (Some (year_of_day d), Some (month_of_day d))"
    using cell_month_of_day [OF d l] by (simp add: year_of_def)
  moreover have "change_view g (change_view f p) = change_view (\<lambda>_. g (f (Some v))) p" for g f
    by (simp add: change_view_def view_val_def assms(1) [unfolded view_val_def])
  ultimately show ?thesis
    using assms(4) by (simp add: click_day_def assms(1) Let_def set_if_def s)
qed

end
