(* ===== verification/PickerSpec.thy ===== *)
theory PickerSpec
  imports PickerTables
begin

text \<open>
  The properties of the date-time picker on the monitoring pages, and the way a user takes through
  its tables.
\<close>

section \<open>The way to a minute\<close>

text \<open>The options of the monitoring pages: days first, minutes last, nothing disabled.\<close>

definition plain_conf :: "pconf \<Rightarrow> bool" where
  "plain_conf c \<longleftrightarrow> page_conf c \<and> c_minView c = 0 \<and> c_maxView c = 4 \<and> c_startView c = 2 \<and>
     0 \<le> c_weekStart c \<and> c_weekStart c < 7 \<and>
     c_daysOfWeekDisabled c = [] \<and> c_hoursDisabled c = [] \<and> c_minutesDisabled c = []"

text \<open>An open picker that shows the view mode \<open>m\<close> of the date \<open>v\<close>.\<close>

definition shows_view :: "pconf \<Rightarrow> int \<Rightarrow> int \<Rightarrow> int \<Rightarrow> int \<Rightarrow> picker \<Rightarrow> bool" where
  "shows_view c a b m v p \<longleftrightarrow> picker_ok c (Some a) (Some b) p \<and> p_visible p \<and> p_viewMode p = m \<and> view_val p = Some v"

lemma plain_conf_ok: "plain_conf c \<Longrightarrow> conf_ok c \<and> page_conf c"
  by (simp add: plain_conf_def page_conf_def)

lemma shows_view_facts:
  assumes "shows_view c a b m v p"
  shows "core c (Some a) (Some b) p" "own_view p" "drawn c p" "start_val p = Some a" "end_val p = Some b"
    "p_visible p" "p_viewMode p = m" "view_val p = Some v"
  using assms by (simp_all add: shows_view_def picker_ok_def core_def)

lemma shows_viewI:
  assumes "shows_view c a b m v p" "conf_ok c" "dtp_possible p ev" "dtp_step c now ev p = Returned q"
    "p_visible q" "p_viewMode q = m'" "view_val q = Some v'"
  shows "shows_view c a b m' v' q"
  using assms step_ok [of c "Some a" "Some b" p ev now q] by (simp add: shows_view_def)

lemma year_days_left:
  assumes "0 \<le> year_of v" "year_of v \<le> 9999"
  shows "days_left 200 v"
proof -
  have "- 900000 \<le> day_of v" "day_of v \<le> 4001000"
    using make_day_bounds [OF assms, of "month_of_day (day_of v)" "date_of_day (day_of v)"] day_of_month [of v]
    by (simp_all add: year_of_def)
  then show ?thesis
    using day_of_split [of v] mod_ms_day(1,2) [of v] unfolding days_left_def ms_day_def by linarith
qed

lemma arrow_step:
  assumes "shows_view c a b 2 v p" "plain_conf c" "0 \<le> year_of v" "year_of v \<le> 9999"
    and k: "k = 1 \<and> month_index v < month_index b \<or> k = - 1 \<and> month_index a < month_index v"
  shows "\<exists>q. dtp_possible p (PClick (if k = 1 then TNext else TPrev)) \<and>
    dtp_step c now (PClick (if k = 1 then TNext else TPrev)) p = Returned q \<and> shows_view c a b 2 (month_shift k v) q"
proof -
  note f = shows_view_facts [OF assms(1)]
  let ?t = "if k = 1 then TNext else TPrev"
  have order: "month_index x \<le> month_index y"
    if "year_of_day (day_of x) \<le> year_of_day (day_of y)" "month_of_day (day_of x) \<le> month_of_day (day_of y)" for x y
    using that by (simp add: month_index_def)
  have arrows: "p_prev p \<longleftrightarrow> \<not> limits_reached num_leq 2 (Some v) (Some a)"
    "p_nxt p \<longleftrightarrow> \<not> limits_reached (\<lambda>a b. num_leq b a) 2 (Some v) (Some b)"
    using f by (simp_all add: drawn_def)
  have poss: "dtp_possible p (PClick ?t)"
    using k arrows f(6) order [of v a] order [of b v] by (auto simp: limits_reached_def num_leq_def)
  have "moveMonth (Some v) k = Returned (Some (month_shift k v))"
    using year_days_left [OF assms(3,4)] k by (intro moveMonth_shift) (auto elim: days_left_mono)
  then have "\<exists>q. dtp_step c now (PClick ?t) p = Returned q \<and> p_visible q \<and> p_viewMode q = 2 \<and> view_val q = Some (month_shift k v)"
    using k f by (auto simp: click_arrow_def move_view_def new_obj_def view_val_def Let_def)
  then show ?thesis using shows_viewI [OF assms(1) _ poss] plain_conf_ok [OF assms(2)] poss by blast
qed

lemma reach_step: "dtp_reach c p q \<Longrightarrow> dtp_possible q ev \<Longrightarrow> dtp_step c now ev q = Returned r \<Longrightarrow> dtp_reach c p r"
  by (rule dtp_reach.event)

lemma reach_trans: "dtp_reach c q r \<Longrightarrow> dtp_reach c p q \<Longrightarrow> dtp_reach c p r"
  by (induction rule: dtp_reach.induct) (auto intro: dtp_reach.event)

lemma year_of_index: "year_of t = month_index t div 12"
  by (simp add: year_of_def month_index_fields)

lemma month_walk:
  assumes "shows_view c a b 2 v p" "plain_conf c" "0 \<le> year_of a" "year_of b \<le> 9999"
    and "month_index a \<le> month_index v" "month_index v \<le> month_index b"
    and "month_index a \<le> n" "n \<le> month_index b"
  shows "\<exists>q w. dtp_reach c p q \<and> shows_view c a b 2 w q \<and> month_index w = n \<and> w mod ms_day = v mod ms_day"
  using assms(1,5,6)
proof (induction "nat \<bar>n - month_index v\<bar>" arbitrary: p v)
  case 0
  then show ?case by (auto intro: dtp_reach.start)
next
  case (Suc j)
  define k :: int where "k = (if month_index v < n then 1 else - 1)"
  have y: "0 \<le> year_of v" "year_of v \<le> 9999"
    using Suc.prems(2,3) assms(3,4) zdiv_mono1 [of "month_index a" "month_index v" 12] zdiv_mono1 [of "month_index v" "month_index b" 12]
    by (simp_all add: year_of_index)
  have k: "k = 1 \<and> month_index v < month_index b \<or> k = - 1 \<and> month_index a < month_index v"
    using Suc.hyps(2) assms(7,8) by (auto simp: k_def)
  obtain q where q: "dtp_possible p (PClick (if k = 1 then TNext else TPrev))"
    "dtp_step c 0 (PClick (if k = 1 then TNext else TPrev)) p = Returned q" "shows_view c a b 2 (month_shift k v) q"
    using arrow_step [OF Suc.prems(1) assms(2) y k] by blast
  have j: "j = nat \<bar>n - month_index (month_shift k v)\<bar>"
    using Suc.hyps(2) by (cases "month_index v < n") (auto simp: month_shift_fields k_def)
  have lim: "month_index a \<le> month_index (month_shift k v)" "month_index (month_shift k v) \<le> month_index b"
    using k Suc.prems(2,3) by (auto simp: month_shift_fields)
  obtain r w where w: "dtp_reach c q r" "shows_view c a b 2 w r" "month_index w = n" "w mod ms_day = month_shift k v mod ms_day"
    using Suc.hyps(1) [OF j q(3) lim] by blast
  have "dtp_reach c p q" using q(1,2) by (intro dtp_reach.event [OF dtp_reach.start])
  then have "dtp_reach c p r" by (rule reach_trans [OF w(1)])
  with w(2-4) show ?case by (metis month_shift_fields(2))
qed

text \<open>A click on an enabled day leads to the hours of this day.\<close>

lemma shown_view_change: "view_val (dtp_trigger x (change_view (\<lambda>_. y) p)) = y" "date_val (dtp_trigger x p) = date_val p"
  by (simp_all add: view_val_def date_val_def)

lemma day_step:
  assumes "shows_view c a b 2 v p" "plain_conf c" "limits_ok a b" "a \<le> T" "T \<le> b" "month_index T = month_index v"
  shows "\<exists>ev q. dtp_possible p ev \<and> dtp_step c now ev p = Returned q \<and> shows_view c a b 1 (day_of T * ms_day + v mod ms_day) q"
proof -
  note f = shows_view_facts [OF assms(1)]
  have y: "100 \<le> year_of v" "year_of v \<le> 9999"
    using year_of_mono [OF assms(4)] year_of_mono [OF assms(5)] assms(3,6) by (simp_all add: limits_ok_def year_of_index)
  define d where "d = day_of T"
  define s where "s = table_start c (month_index v)"
  have "d = month_base (month_index v) + date_of_day d"
    using in_month_self [of T] day_in_month [of "month_index T" "date_of_day d" T] assms(6) by (simp add: d_def)
  then have d: "s \<le> d" "d < s + 42"
    using day_of_month(1,2) [of T] table_start_bounds [where c = c and n = "month_index v"] by (simp_all add: s_def d_def)
  define k where "k = nat (d - s)"
  have k: "k < 42" "s + int k = d" using d by (simp_all add: k_def)
  have cell: "p_days p ! k = shown_cell c p v d" and len: "length (p_days p) = 42"
    using f(3,8) fill_days_table [of p v c] y k by (simp_all add: drawn_def s_def)
  have "\<not> is_disabled (shown_cell c p v d)"
    using shown_cell_classes(4) [OF d [unfolded s_def] f(4,5)] day_overlaps [of a b d] assms(2-5)
    by (auto simp: plain_conf_def limits_ok_def d_def)
  moreover have "click_day c now (shown_cell c p v d) p =
      Returned (dtp_trigger (Trigger ''changeDay'') (change_view (\<lambda>_. Some (d * ms_day + v mod ms_day)) p))"
    using assms(2) by (intro click_day_view [OF f(8) y _ d [unfolded s_def] f(4,5)]) (simp add: plain_conf_def page_conf_def)
  ultimately obtain q where q: "dtp_step c now (PClick (TDay k)) p = Returned q" "p_visible q" "p_viewMode q = 1"
      "view_val q = Some (d * ms_day + v mod ms_day)"
    using k len cell f(6,7) assms(2)
    by (simp add: on_cell_def next_view_def hide_if_def dtp_showMode_def plain_conf_def Let_def) (simp add: view_val_def)
  have poss: "dtp_possible p (PClick (TDay k))" using f(6,7) k len by simp
  have "shows_view c a b 1 (d * ms_day + v mod ms_day) q"
    using shows_viewI [OF assms(1) _ poss q] plain_conf_ok [OF assms(2)] by blast
  with poss q(1) show ?thesis unfolding d_def by blast
qed

lemma parseInt10_prefix:
  assumes "all_digits ds" "s = [] \<or> hd s \<notin> set digits"
  shows "parseInt10 (ds @ s) = parseInt10 ds"
proof -
  obtain c cs where ds: "ds = c # cs" "c \<in> set digits" using assms(1) by (cases ds) (auto simp: all_digits_def)
  have "takeWhile (\<lambda>c. c \<in> set digits) (ds @ s) = ds" "takeWhile (\<lambda>c. c \<in> set digits) ds = ds"
    using assms by (cases s; auto simp: all_digits_def subset_iff takeWhile_append2 takeWhile_eq_all_conv)+
  moreover have "parseInt10 (ds @ u) = map_option int (read_nat (takeWhile (\<lambda>c. c \<in> set digits) (ds @ u)))" for u
    using digits_no_sign [OF ds(2)] by (simp add: parseInt10_def Let_def ds(1))
  from this [of s] this [of "[]"] show ?thesis by (simp add: calculation)
qed

lemma hour_cell_number: "num_or (parseInt10 (cell_text (hour_cell c p k))) 0 = int k"
proof -
  have "parseInt10 (show_nat k @ '':00'') = parseInt10 (show_nat k)"
    by (intro parseInt10_prefix) (simp_all add: digits_def)
  then have "parseInt10 (show_nat k @ '':00'') = Some (int k)" by (simp add: parseInt10_digits)
  then show ?thesis by (simp add: hour_cell_def Let_def num_or_def)
qed

lemma time_of_day: "t = day_of t * ms_day + make_time (hour_of t) (minute_of t) (second_of t) (t mod 1000)"
  by (simp add: day_of_split)

lemma day_clip:
  assumes "0 \<le> year_of t" "year_of t \<le> 9999" "0 \<le> x" "x < ms_day"
  shows "\<bar>day_of t * ms_day + x\<bar> \<le> 8640000000000000"
proof -
  have "- 900000 \<le> day_of t" "day_of t \<le> 4001000"
    using make_day_bounds [OF assms(1,2), of "month_of_day (day_of t)" "date_of_day (day_of t)"] day_of_month [of t]
    by (simp_all add: year_of_def)
  then show ?thesis using assms(3,4) unfolding ms_day_def by linarith
qed

lemma date_UTC_day:
  assumes "100 \<le> year_of t" "year_of t \<le> 9999" "0 \<le> h" "h < 24" "0 \<le> i" "i < 60" "0 \<le> s" "s < 60"
  shows "date_UTC (year_of_day (day_of t)) (month_of_day (day_of t)) (date_of_day (day_of t)) h i s =
    Some (day_of t * ms_day + make_time h i s 0)"
  using assms day_clip [of t "make_time h i s 0"] make_time_bounds [of h i s 0]
  by (simp add: date_UTC_def full_year_def year_of_def)

text \<open>A click on an enabled hour leads to its minutes.\<close>

lemma hour_step:
  assumes "shows_view c a b 1 w p" "plain_conf c" "limits_ok a b" "a \<le> T" "T \<le> b" "day_of T = day_of w"
  shows "\<exists>ev q. dtp_possible p ev \<and> dtp_step c now ev p = Returned q \<and>
    shows_view c a b 0 (day_of T * ms_day + make_time (hour_of T) (minute_of w) (second_of w) (w mod 1000)) q"
proof -
  note f = shows_view_facts [OF assms(1)]
  have y: "100 \<le> year_of w" "year_of w \<le> 9999"
    using year_of_mono [OF assms(4)] year_of_mono [OF assms(5)] assms(3,6) by (simp_all add: limits_ok_def year_of_def)
  define h where "h = hour_of T"
  define k where "k = nat h"
  have h: "0 \<le> h" "h < 24" "int k = h" "k < 24" by (simp_all add: h_def k_def nat_less_iff)
  define A where "A = day_of w * ms_day + make_time h 0 0 0"
  have A: "date_UTC (year_of_day (day_of w)) (month_of_day (day_of w)) (date_of_day (day_of w)) h 0 0 = Some A"
    using date_UTC_day [OF y h(1,2), of 0 0] by (simp add: A_def)
  have "T = A + (minute_of T * 60000 + second_of T * 1000 + T mod 1000)"
    using time_of_day [of T] assms(6) by (simp add: A_def h_def make_time_def)
  moreover have "0 \<le> T mod 1000" "T mod 1000 < 1000" by simp_all
  ultimately have "A \<le> T" "T < A + 3600000" using minute_range [of T] second_range [of T] by linarith+
  then have enabled: "\<not> is_disabled (hour_cell c p k)"
    using A f(4,5,8) assms(2,4,5) h(3)
    by (simp add: is_disabled_def hour_cell_def Let_def plain_conf_def num_leq_def num_less_def plus_num_def)
  have cell: "p_hours p ! k = hour_cell c p k" and len: "length (p_hours p) = 24"
    using f(3) h(4) by (simp_all add: drawn_def fill_hours_def)
  define w' where "w' = day_of w * ms_day + make_time h (minute_of w) (second_of w) (w mod 1000)"
  have "setUTCHours (Some h) (Some w) = Some w'"
    using day_clip [of w "make_time h (minute_of w) (second_of w) (w mod 1000)"] y h
      make_time_bounds [of h "minute_of w" "second_of w" "w mod 1000"] by (simp add: setUTCHours_def num2_def w'_def)
  moreover have "change_view (setUTCHours (Some h)) p = change_view (\<lambda>_. setUTCHours (Some h) (Some w)) p"
    by (simp add: change_view_def f(8))
  ultimately have "click_hour c now (hour_cell c p k) p =
      Returned (dtp_trigger (Trigger ''changeHour'') (change_view (\<lambda>_. Some w') p))"
    using assms(2) by (simp add: click_hour_def hour_cell_number h(3) set_if_def Let_def plain_conf_def page_conf_def)
  then obtain q where q: "dtp_step c now (PClick (THour k)) p = Returned q" "p_visible q" "p_viewMode q = 0" "view_val q = Some w'"
    using h(4) len cell enabled f(6,7) assms(2)
    by (simp add: on_cell_def next_or_hide_def next_view_def hide_if_def dtp_showMode_def plain_conf_def Let_def)
       (simp add: view_val_def)
  have poss: "dtp_possible p (PClick (THour k))" using f(6,7) h len by simp
  have "shows_view c a b 0 w' q" using shows_viewI [OF assms(1) _ poss q] plain_conf_ok [OF assms(2)] by blast
  with poss q(1) show ?thesis unfolding w'_def h_def assms(6) by blast
qed

lemma minute_marks_multiple: "0 < k \<Longrightarrow> k dvd i - j \<Longrightarrow> j \<le> i \<Longrightarrow> i < 60 \<Longrightarrow> i \<in> set (minute_marks k j)"
proof (induction "nat (i - j)" arbitrary: j rule: less_induct)
  case less
  show ?case
  proof (cases "i = j")
    case False
    then have "k \<le> i - j" using less.prems zdvd_imp_le [of k "i - j"] by simp
    moreover have "k dvd i - (j + k)" using dvd_diff [OF less.prems(2) dvd_refl] by (simp add: diff_diff_add)
    ultimately have "i \<in> set (minute_marks k (j + k))" using less.prems by (intro less.hyps) simp_all
    then show ?thesis using less.prems by (subst minute_marks.simps) simp
  qed (use less.prems in \<open>simp add: minute_marks.simps [of k j]\<close>)
qed

lemma same_minute_fields:
  assumes "minute_start t = minute_start u"
  shows "day_of t = day_of u" "hour_of t = hour_of u" "minute_of t = minute_of u"
proof -
  have "t div 60000 = u div 60000" using assms by (simp add: minute_start_def minus_mod_eq_mult_div)
  moreover have "x div 3600000 = x div 60000 div 60" "x div ms_day = x div 60000 div 1440" for x :: int
    by (simp_all add: zdiv_zmult2_eq [symmetric] ms_day_def)
  ultimately show "day_of t = day_of u" "hour_of t = hour_of u" "minute_of t = minute_of u"
    by (simp_all add: minute_of_def hour_of_def day_of_def)
qed

lemma minute_start_fields:
  "day_of (minute_start t) = day_of t" "hour_of (minute_start t) = hour_of t" "minute_of (minute_start t) = minute_of t"
  by (rule same_minute_fields; simp add: minute_start_def)+

lemma page_text_minute:
  assumes "minute_start t = minute_start u"
  shows "dp_formatDate tz page_format (Some (Some t)) = dp_formatDate tz page_format (Some (Some u))"
  using same_minute_fields [OF assms] unfolding page_text year_of_def by simp

lemma setValue_text: "p_text (dtp_setValue c p) = dp_formatDate (c_timezone c) (c_format c) (date_val p)"
  "date_val (p\<lparr>p_viewMode := k\<rparr>) = date_val p" "date_val (p\<lparr>p_visible := b\<rparr>) = date_val p"
  by (simp_all add: dtp_setValue_def getFormattedDate_def date_val_def)

text \<open>What \<open>_setDate\<close> and the closing of the picker leave, if the page does not correct the text.\<close>

lemma set_and_hide:
  assumes "set_if True c now d p = Returned r" "c_onChange c (dp_formatDate (c_timezone c) (c_format c) (Some d)) = None"
    and "c_autoclose c" "p_viewMode p = 0" "p_visible p" "dp_formatDate (c_timezone c) (c_format c) (Some d) \<noteq> []"
  shows "\<not> p_visible (next_or_hide c r)" "p_text (next_or_hide c r) = dp_formatDate (c_timezone c) (c_format c) (Some d)"
    "changes (next_or_hide c r) = changes p @ [Some d]"
proof -
  obtain n q where q: "new_obj d p = (n, q)" by (cases "new_obj d p")
  then have n: "p_heap q n = d" "p_viewMode q = 0" "p_visible q" "changes q = changes p"
    using assms(4,5) by (auto simp: new_obj_def changes_def)
  have r: "r = dtp_trigger (ChangeDate (Some d)) (dtp_setValue c (dtp_fill c (q\<lparr>p_date := Some n, p_view := n\<rparr>)))"
    using assms(1,2) n(1)
    by (simp add: set_if_def q dtp_set_date_def fire_change_def setValue_text date_val_def)
  then have v: "date_val r = Some d" "p_viewMode r = 0" "p_visible r" "changes r = changes p @ [Some d]"
    and printed: "p_text r = dp_formatDate (c_timezone c) (c_format c) (Some d)"
    using n by (simp_all add: date_val_def) (simp_all add: dtp_setValue_def getFormattedDate_def date_val_def n(1))
  show "\<not> p_visible (next_or_hide c r)" "changes (next_or_hide c r) = changes p @ [Some d]"
    using v assms(3) by (simp_all add: next_or_hide_def hide_if_def)
  have "p_text (dtp_hide c (dtp_fill c r)) = dp_formatDate (c_timezone c) (c_format c) (Some d)"
    using v printed assms(6) by (simp add: dtp_hide_def Let_def setValue_text)
  then show "p_text (next_or_hide c r) = dp_formatDate (c_timezone c) (c_format c) (Some d)"
    using v assms(3) by (simp add: next_or_hide_def hide_if_def)
qed

lemma minute_step:
  assumes "shows_view c a b 0 w p" "plain_conf c" "limits_ok a b" "a \<le> T" "T \<le> b" "day_of T = day_of w" "hour_of T = hour_of w"
    and "w mod 1000 = 0" "T mod 60000 = 0" "c_minuteStep c dvd minute_of T"
    and "c_onChange c (dp_formatDate (c_timezone c) page_format (Some (Some T))) = None"
  shows "\<exists>ev q t. dtp_possible p ev \<and> dtp_step c now ev p = Returned q \<and> \<not> p_visible q \<and>
    p_text q = dp_formatDate (c_timezone c) page_format (Some (Some T)) \<and>
    changes q = changes p @ [Some (Some t)] \<and> minute_start t = T"
proof -
  note f = shows_view_facts [OF assms(1)]
  have y: "100 \<le> year_of w" "year_of w \<le> 9999"
    using year_of_mono [OF assms(4)] year_of_mono [OF assms(5)] assms(3,6) by (simp_all add: limits_ok_def year_of_def)
  have conf: "c_format c = page_format" "c_viewSelect c = 0" "0 < c_minuteStep c" "c_autoclose c" "c_minutesDisabled c = []"
    using assms(2) by (simp_all add: plain_conf_def page_conf_def conf_ok_def)
  define i where "i = minute_of T"
  have i: "0 \<le> i" "i < 60" by (simp_all add: i_def)
  have T: "T = day_of w * ms_day + make_time (hour_of w) i 0 0"
    using minute_of_time [of T] assms(6,7,9) by (simp add: minute_time_def minute_start_def i_def year_of_def)
  have "i \<in> set (minute_marks (c_minuteStep c) 0)"
    using minute_marks_multiple [of "c_minuteStep c" i 0] conf(3) i assms(10) by (simp add: i_def)
  then obtain k where k: "k < length (p_minutes p)" "p_minutes p ! k = minute_cell c p i"
    using f(3) conf(5) by (auto simp: drawn_def fill_minutes_def in_set_conv_nth)
  have "\<bar>w\<bar> \<le> 8640000000000000" using day_clip [of w "w mod ms_day"] y day_of_split [of w] by simp
  moreover have "\<not> (w = 8640000000000000)"
    using day_clip [of w "w mod ms_day"] day_clip [of w 0] make_day_bounds [of "year_of w" "month_of_day (day_of w)" "date_of_day (day_of w)"]
      day_of_month [of w] y by (auto simp: year_of_def day_of_def ms_day_def)
  ultimately have "setUTCSeconds (Some 0) (setUTCMinutes (Some i) (Some w)) = Some T"
    using minute_cell_time [of w i] i assms(8) T by (simp add: valid_def)
  then have enabled: "\<not> is_disabled (minute_cell c p i)"
    using f(4,5,8) assms(4,5) by (simp add: is_disabled_def minute_cell_def Let_def num_less_def)
  define t where "t = day_of w * ms_day + make_time (hour_of w) i (second_of w) 0"
  have mt: "minute_start t = T" unfolding t_def T using i by (intro minute_start_make) simp_all
  have utc: "utc_date (getUTCFullYear (Some w)) (getUTCMonth (Some w)) (getUTCDate (Some w)) (getUTCHours (Some w)) (Some i)
      (getUTCSeconds (Some w)) = Some t"
    using date_UTC_day [OF y, of "hour_of w" i "second_of w"] i by (simp add: utc_date_def t_def)
  define p' where "p' = dtp_trigger (Trigger ''changeMinute'') (change_view (setUTCMinutes (Some i)) p)"
  have p': "p_viewMode p' = 0" "p_visible p'" "changes p' = changes p" using f(6,7) by (simp_all add: p'_def)
  have click: "click_minute c now (minute_cell c p i) p = set_if True c now (Some t) p'"
    using conf(2) i minute_cell_number [of i c p] utc f(8) by (simp add: click_minute_def p'_def Let_def)
  have printed: "dp_formatDate (c_timezone c) page_format (Some (Some t)) = dp_formatDate (c_timezone c) page_format (Some (Some T))"
    using mt assms(9) by (intro page_text_minute) (simp add: minute_start_def)
  have keep: "c_onChange c (dp_formatDate (c_timezone c) (c_format c) (Some (Some t))) = None"
    using assms(11) printed conf(1) by simp
  obtain r where r: "set_if True c now (Some t) p' = Returned r"
    using keep by (simp add: set_if_def dtp_set_date_def fire_change_def split_beta setValue_text new_obj_def date_val_def)
  have "dp_formatDate (c_timezone c) (c_format c) (Some (Some t)) \<noteq> []"
    unfolding conf(1) page_text minute_text_def by simp
  note h = set_and_hide [OF r keep conf(4) p'(1,2) this]
  have "dtp_step c now (PClick (TMinute k)) p = Returned (next_or_hide c r)"
    using k enabled click r by (simp add: on_cell_def)
  moreover have "dtp_possible p (PClick (TMinute k))" using f(6,7) k(1) by simp
  moreover have "p_text (next_or_hide c r) = dp_formatDate (c_timezone c) page_format (Some (Some T))"
    using h(2) printed conf(1) by simp
  ultimately show ?thesis using h(1,3) p'(3) mt by metis
qed

lemma read_blank: "blank c s e p \<Longrightarrow> read_from c now p = DDate (Some (c_initialDate c))"
  by (simp add: blank_def read_from_def update_source_def)

lemma stored_seconds: "stored_limit c s = Some a \<Longrightarrow> a mod 1000 = 0"
  by (auto simp: stored_limit_def bind_eq_Some_conv split: if_splits)

text \<open>A new picker that gets the focus shows the days around a date between its limits.\<close>

lemma focus_step:
  assumes "blank c (Some a) (Some b) p" "plain_conf c" "a \<le> b" "a mod 1000 = 0" "b mod 1000 = 0"
    "time_clip (c_initialDate c - c_tzo c (c_initialDate c) * 60000) = Some x"
  shows "\<exists>q v. dtp_step c now PFocus p = Returned q \<and> shows_view c a b 2 v q \<and> a \<le> v \<and> v \<le> b \<and> v mod 1000 = 0"
proof -
  have core: "core c (Some a) (Some b) p" and blank: "\<not> p_visible p" "p_viewMode p = 2"
    using assms(1,2) by (simp_all add: blank_def plain_conf_def)
  define d where "d = x - x mod 1000"
  have parse: "parseDate now (c_tzo c) (c_format c) (read_from c now p) = Returned (Some d)"
    using assms(6) by (simp add: read_blank [OF assms(1)] parseDate_def d_def)
  define u where "u = updated c (Some d) p"
  note k = updated_ok [OF core valid_parseDate [OF parse], of c, folded u_def]
  define v where "v = (if d < a then a else if b < d then b else d)"
  have "dtp_update c now None p = Returned u"
    using dtp_update_eq [of p c now] core parse by (simp add: core_def u_def)
  then have "dtp_step c now PFocus p = Returned (dtp_trigger (Trigger ''show'') (u\<lparr>p_visible := True\<rparr>))"
    by (simp add: dtp_show_def)
  moreover have "view_val (u\<lparr>p_visible := True\<rparr>) = Some v"
    using k(9) by (simp add: v_def num_less_def view_val_def)
  then have "shows_view c a b 2 v (dtp_trigger (Trigger ''show'') (u\<lparr>p_visible := True\<rparr>))"
    using k blank by (simp add: shows_view_def picker_ok_def)
  moreover have "d mod 1000 = 0" by (simp add: d_def)
  ultimately show ?thesis using assms(3-5) by (auto simp: v_def)
qed

lemma day_of_mono: "t \<le> u \<Longrightarrow> day_of t \<le> day_of u"
  by (simp add: day_of_def ms_day_def zdiv_mono1)

lemma month_base_mono: "m \<le> n \<Longrightarrow> month_base m \<le> month_base n"
proof (induction n rule: int_ge_induct)
  case (step i)
  then show ?case using month_base_next [of i] index_len_bounds [of i] by simp
qed simp

lemma month_index_mono:
  assumes "t \<le> u"
  shows "month_index t \<le> month_index u"
proof (rule ccontr)
  assume "\<not> month_index t \<le> month_index u"
  then have n: "month_index u + 1 \<le> month_index t" by simp
  have "day_of x = month_base (month_index x) + date_of_day (day_of x)" for x
    using in_month_self [of x] day_in_month [of "month_index x" "date_of_day (day_of x)" x] by simp
  from this [of t] this [of u] have "day_of u < day_of t"
    using month_base_mono [OF n] month_base_next [of "month_index u"] day_of_month [of t] day_of_month [of u] by simp
  with day_of_mono [OF assms] show False by simp
qed

lemma same_second: "t mod ms_day = u mod ms_day \<Longrightarrow> t mod 1000 = u mod (1000 :: int)"
  using mod_mod_cancel [of 1000 ms_day t] mod_mod_cancel [of 1000 ms_day u] by (simp add: ms_day_def)

lemma time_fields:
  assumes "0 \<le> h" "h < 24" "0 \<le> i" "i < 60" "0 \<le> s" "s < 60" "0 \<le> ms" "ms < 1000"
  shows "day_of (d * ms_day + make_time h i s ms) = d" "hour_of (d * ms_day + make_time h i s ms) = h"
    "(d * ms_day + make_time h i s ms) mod 1000 = ms"
  using fields_make_time [of h i s ms d] make_time_bounds [of h i s ms] assms
  by (simp_all add: day_of_def ms_day_def div_pos_pos_trivial)

text \<open>From the days of a date between the limits to any minute mark between the limits.\<close>

lemma walk_to_minute:
  assumes "shows_view c a b 2 v p" "plain_conf c" "limits_ok a b" "a \<le> v" "v \<le> b" "v mod 1000 = 0"
    and "a \<le> T" "T \<le> b" "T mod 60000 = 0" "c_minuteStep c dvd minute_of T"
    and "c_onChange c (dp_formatDate (c_timezone c) page_format (Some (Some T))) = None"
  shows "\<exists>q t. dtp_reach c p q \<and> \<not> p_visible q \<and>
    p_text q = dp_formatDate (c_timezone c) page_format (Some (Some T)) \<and>
    changes q \<noteq> [] \<and> last (changes q) = Some (Some t) \<and> minute_start t = T"
proof -
  have y: "0 \<le> year_of a" "year_of b \<le> 9999" using assms(3) by (simp_all add: limits_ok_def)
  obtain p1 w where w: "dtp_reach c p p1" "shows_view c a b 2 w p1" "month_index w = month_index T" "w mod ms_day = v mod ms_day"
    using month_walk [OF assms(1,2) y] month_index_mono assms(4,5,7,8) by metis
  define u where "u = day_of T * ms_day + w mod ms_day"
  obtain ev1 p2 where p2: "dtp_possible p1 ev1" "dtp_step c 0 ev1 p1 = Returned p2" "shows_view c a b 1 u p2"
    using day_step [OF w(2) assms(2,3,7,8)] w(3) unfolding u_def by metis
  have "u mod ms_day = v mod ms_day" by (simp add: u_def w(4))
  then have u: "day_of u = day_of T" "u mod 1000 = 0"
    using same_second [of u v] assms(6) by (simp_all add: u_def day_of_def ms_day_def)
  define x where "x = day_of T * ms_day + make_time (hour_of T) (minute_of u) (second_of u) (u mod 1000)"
  obtain ev2 p3 where p3: "dtp_possible p2 ev2" "dtp_step c 0 ev2 p2 = Returned p3" "shows_view c a b 0 x p3"
    using hour_step [OF p2(3) assms(2,3,7,8)] u(1) unfolding x_def by metis
  have x: "day_of T = day_of x" "hour_of T = hour_of x" "x mod 1000 = 0"
    using time_fields [of "hour_of T" "minute_of u" "second_of u" "u mod 1000" "day_of T"] u(2) by (simp_all add: x_def)
  obtain ev3 q t where q: "dtp_possible p3 ev3" "dtp_step c 0 ev3 p3 = Returned q" "\<not> p_visible q"
    "p_text q = dp_formatDate (c_timezone c) page_format (Some (Some T))" "changes q = changes p3 @ [Some (Some t)]" "minute_start t = T"
    using minute_step [OF p3(3) assms(2,3,7,8) x assms(9-11)] by metis
  have "dtp_reach c p q"
    using reach_step [OF reach_step [OF reach_step [OF w(1) p2(1,2)] p3(1,2)] q(1,2)] .
  with q(3-6) show ?thesis by (metis append_is_Nil_conv last_snoc not_Cons_self2)
qed

section \<open>The options of the pages\<close>

text \<open>
  What \<open>datePairs\<close> of the pages passes to a picker, with the defaults of the constructor for the
  rest. \<open>tz\<close> is the offset of the host's time zone east of Greenwich in minutes, \<open>nowdate\<close> the time
  of the page load, \<open>zone\<close> the name of the time zone and \<open>handler\<close> what the page does on \<open>changeDate\<close>.
\<close>

definition page_options :: "int \<Rightarrow> int \<Rightarrow> string \<Rightarrow> (string \<Rightarrow> string option) \<Rightarrow> pconf" where
  "page_options tz nowdate zone handler =
     \<lparr>c_format = page_format, c_minuteStep = 5, c_weekStart = 0, c_minView = 0, c_maxView = 4, c_viewSelect = 0,
      c_startView = 2, c_autoclose = True, c_daysOfWeekDisabled = [], c_hoursDisabled = [], c_minutesDisabled = [],
      c_initialDate = nowdate, c_tzo = (\<lambda>_. - tz), c_timezone = zone, c_onChange = handler\<rparr>"

lemma page_options_plain: "plain_conf (page_options tz nowdate zone handler)"
  by (simp add: plain_conf_def page_options_def page_conf_def conf_ok_def)

lemma page_options_simps [simp]:
  "c_format (page_options tz nowdate zone handler) = page_format" "c_minuteStep (page_options tz nowdate zone handler) = 5"
  "c_timezone (page_options tz nowdate zone handler) = zone" "c_onChange (page_options tz nowdate zone handler) = handler"
  "c_tzo (page_options tz nowdate zone handler) = (\<lambda>_. - tz)" "c_initialDate (page_options tz nowdate zone handler) = nowdate"
  "c_daysOfWeekDisabled (page_options tz nowdate zone handler) = []" "c_weekStart (page_options tz nowdate zone handler) = 0"
  by (simp_all add: page_options_def)

text \<open>The picker of a page allows the dates from \<open>startDate\<close> to \<open>endDate\<close> of the host.\<close>

definition page_picker :: "pconf \<Rightarrow> int \<Rightarrow> int \<Rightarrow> int \<Rightarrow> picker exec" where
  "page_picker c now startDate endDate =
     new_Datetimepicker c now (Some (DDate (Some startDate))) (Some (DDate (Some endDate)))"

text \<open>The local time of an instant, in full seconds.\<close>

definition local_seconds :: "int \<Rightarrow> int \<Rightarrow> int" where
  "local_seconds tz t = t + tz * 60000 - (t + tz * 60000) mod 1000"

definition instant_ok :: "int \<Rightarrow> int \<Rightarrow> bool" where
  "instant_ok tz t \<longleftrightarrow> \<bar>t + tz * 60000\<bar> \<le> 8000000000000000"

lemma stored_page_limit:
  assumes "instant_ok tz t" "t \<noteq> 8639968443048000"
  shows "stored_limit (page_options tz nowdate zone handler) t = Some (local_seconds tz t)"
  using assms by (simp add: stored_limit_def local_seconds_def instant_ok_def)

lemma page_picker_ok:
  assumes "instant_ok tz s" "instant_ok tz e" "s \<noteq> 8639968443048000" "e \<noteq> 8639968443048000"
    and "c = page_options tz nowdate zone handler" "a = local_seconds tz s" "b = local_seconds tz e"
  shows "\<exists>p. page_picker c now s e = Returned p \<and> picker_ok c (Some a) (Some b) p \<and> blank c (Some a) (Some b) p"
  using new_Datetimepicker_ok [of c now s e] plain_conf_ok [OF page_options_plain] stored_page_limit assms
  by (simp add: page_picker_def)

section \<open>Properties\<close>

lemma update_returns:
  assumes "picker_ok c s e p" "parseDate now (c_tzo c) (c_format c) (read_from c now (p\<lparr>p_text := t\<rparr>)) = Returned d"
  shows "dtp_step c now (PTyped t) p = Returned (updated c d (p\<lparr>p_text := t\<rparr>))"
    "p_text (updated c d (p\<lparr>p_text := t\<rparr>)) = t" "changes (updated c d (p\<lparr>p_text := t\<rparr>)) = changes p"
    "date_val (updated c d (p\<lparr>p_text := t\<rparr>)) = Some d" "p_visible (updated c d (p\<lparr>p_text := t\<rparr>)) = p_visible p"
proof -
  have core: "core c s e (p\<lparr>p_text := t\<rparr>)" using assms(1) by (simp add: picker_ok_def)
  then show "dtp_step c now (PTyped t) p = Returned (updated c d (p\<lparr>p_text := t\<rparr>))"
    using dtp_update_eq [of "p\<lparr>p_text := t\<rparr>" c now] assms(2) by (simp add: core_def)
  show "p_text (updated c d (p\<lparr>p_text := t\<rparr>)) = t" "changes (updated c d (p\<lparr>p_text := t\<rparr>)) = changes p"
    "date_val (updated c d (p\<lparr>p_text := t\<rparr>)) = Some d" "p_visible (updated c d (p\<lparr>p_text := t\<rparr>)) = p_visible p"
    using updated_ok [OF core valid_parseDate [OF assms(2)], of c] by (simp_all add: changes_def)
qed

text \<open>How many days a step of a relative text may move the date, with room for the loop of \<open>moveMonth\<close>.\<close>

fun rel_days :: "int \<times> char \<Rightarrow> int" where
  "rel_days (k, u) = (if u = CHR ''d'' then \<bar>k\<bar> else if u = CHR ''m'' then 62 * \<bar>k\<bar> + 93
     else if u = CHR ''w'' then 7 * \<bar>k\<bar> else 62 * \<bar>12 * k\<bar> + 93)"

lemma rel_step_returns:
  assumes "days_left (rel_days i + j) t" "0 \<le> j"
  shows "\<exists>u. rel_step i (Some t) = Returned (Some u) \<and> days_left j u"
proof -
  obtain k u where i: "i = (k, u)" by force
  have shift: "\<exists>u. setUTCDate (plus_num (getUTCDate (Some t)) n) (Some t) = Some u \<and> days_left j u" if "days_left (\<bar>n\<bar> + j) t" for n
  proof -
    have "days_left j (t + n * ms_day)" using that by (rule days_left_near) (simp add: abs_mult ms_day_def)
    moreover from this have "\<bar>t + n * ms_day\<bar> \<le> 8640000000000000"
      using days_left_mono [OF _ assms(2)] by (simp add: days_left_def)
    ultimately show ?thesis by (simp add: plus_num_def setUTCDate_shift)
  qed
  have move: "\<exists>u. moveMonth (Some t) n = Returned (Some u) \<and> days_left j u" if "days_left (62 * \<bar>n\<bar> + 93 + j) t" for n
  proof -
    have "days_left (62 * \<bar>n\<bar> + 93) t" using that assms(2) by (auto elim: days_left_mono)
    moreover have "days_left (31 * \<bar>n\<bar> + 31 + j) t" using that by (rule days_left_mono) simp
    then have "days_left j (month_shift n t)" using month_shift_near by (rule days_left_near)
    ultimately show ?thesis using moveMonth_shift by blast
  qed
  consider "u = CHR ''d''" | "u = CHR ''m''" | "u = CHR ''w''" | "u \<noteq> CHR ''d''" "u \<noteq> CHR ''m''" "u \<noteq> CHR ''w''" by blast
  then show ?thesis
  proof cases
    case 1
    then show ?thesis using shift [of k] assms(1) by (auto simp: i)
  next
    case 2
    then show ?thesis using move [of k] assms(1) by (auto simp: i)
  next
    case 3
    then show ?thesis using shift [of "k * 7"] assms(1) by (auto simp: i abs_mult mult.commute)
  next
    case 4
    then show ?thesis using move [of "k * 12"] assms(1) by (auto simp: i moveYear_def mult.commute)
  qed
qed

lemma rel_steps_return:
  "days_left (sum_list (map rel_days is)) t \<Longrightarrow> \<exists>u. rel_steps is (Some t) = Returned (Some u)"
proof (induction "is" arbitrary: t)
  case (Cons i "is")
  have "0 \<le> rel_days j" for j by (cases j) auto
  then have "0 \<le> sum_list (map rel_days is)" by (induction "is") auto
  with Cons.prems obtain u where "rel_step i (Some t) = Returned (Some u)" "days_left (sum_list (map rel_days is)) u"
    using rel_step_returns [of i] by auto
  then show ?case using Cons.IH by auto
qed simp

text \<open>
  C41. Typing into the input of a picker ends: \<open>update\<close> returns, with the text as it was typed, and
  announces no change. This covers texts that are no date at all, the loops of the month setter, and
  the texts of the relative form (\<open>+3d\<close>, \<open>-1m, +2w\<close>) as long as their steps stay in the range of \<open>Date\<close>.
\<close>

theorem typed_text_returns:
  assumes "picker_ok c s e p" "''D'' \<notin> set (parts (c_format c))" "''DD'' \<notin> set (parts (c_format c))"
    and "\<And>is. rel_items (trim t) = Some is \<Longrightarrow> days_left (sum_list (map rel_days is)) now"
  shows "\<exists>q. dtp_step c now (PTyped t) p = Returned q \<and> p_text q = t \<and> changes q = changes p"
proof -
  have "\<exists>d. parseDate now (c_tzo c) (c_format c) (DText (trim t)) = Returned d"
  proof (cases "rel_items (trim t)")
    case None
    then show ?thesis by (rule parseDate_ends(2) [OF _ assms(2,3)])
  next
    case (Some "is")
    with rel_steps_return [OF assms(4)] show ?thesis by (force simp: parseDate_def)
  qed
  then have "\<exists>d. parseDate now (c_tzo c) (c_format c) x = Returned d" if "x = DText (trim t) \<or> (\<exists>y. x = DDate y) \<or> x = DNull" for x
    using that parse_parts_ends(2) [OF assms(2,3), of "[]"] by (auto simp: parseDate_def)
  moreover have "read_from c now (p\<lparr>p_text := t\<rparr>) = DText (trim t) \<or> (\<exists>y. read_from c now (p\<lparr>p_text := t\<rparr>) = DDate y) \<or>
      read_from c now (p\<lparr>p_text := t\<rparr>) = DNull"
    by (auto simp: read_from_def update_source_def dtp_getDate_def split: option.splits)
  ultimately obtain d where "parseDate now (c_tzo c) (c_format c) (read_from c now (p\<lparr>p_text := t\<rparr>)) = Returned d" by blast
  from update_returns [OF assms(1) this] show ?thesis by blast
qed

text \<open>The picker of a page loaded on 2018-06-14 at 08:00 in Beijing, for the last 30 days.\<close>

definition june_14 :: int where
  "june_14 = 1528934400000"

definition demo_options :: pconf where
  "demo_options = page_options 480 june_14 ''CST'' (\<lambda>_. None)"

lemma demo_range:
  "instant_ok 480 (june_14 - 2592000000)" "instant_ok 480 june_14" "june_14 - 2592000000 \<noteq> 8639968443048000"
  "june_14 \<noteq> 8639968443048000" "june_14 - 2592000000 \<le> june_14"
  "1526371200000 = local_seconds 480 (june_14 - 2592000000)" "1528963200000 = local_seconds 480 june_14"
  by (simp_all add: instant_ok_def june_14_def local_seconds_def)

lemma demo_years: "100 \<le> year_of 1526371200000" "year_of 1528963200000 \<le> 9999"
  by code_simp+

lemma demo_picker:
  "\<exists>p. page_picker demo_options june_14 (june_14 - 2592000000) june_14 = Returned p \<and>
    picker_ok demo_options (Some 1526371200000) (Some 1528963200000) p \<and>
    blank demo_options (Some 1526371200000) (Some 1528963200000) p"
  by (rule page_picker_ok [OF demo_range(1-4) demo_options_def demo_range(6,7)])

lemma demo_open:
  "\<exists>p q v. page_picker demo_options june_14 (june_14 - 2592000000) june_14 = Returned p \<and>
    dtp_step demo_options june_14 PFocus p = Returned q \<and>
    shows_view demo_options 1526371200000 1528963200000 2 v q \<and> 1526371200000 \<le> v \<and> v \<le> 1528963200000 \<and> v mod 1000 = 0"
proof -
  obtain p where p: "page_picker demo_options june_14 (june_14 - 2592000000) june_14 = Returned p"
    "blank demo_options (Some 1526371200000) (Some 1528963200000) p"
    using demo_picker by blast
  have "plain_conf demo_options" "c_initialDate demo_options = june_14" "c_tzo demo_options = (\<lambda>_. - 480)"
    by (simp_all add: demo_options_def page_options_plain)
  with focus_step [OF p(2), of 1528963200000 june_14] p(1) show ?thesis by (auto simp: june_14_def)
qed

theorem typed_text_returns_witness:
  "\<exists>p q. page_picker demo_options june_14 (june_14 - 2592000000) june_14 = Returned p \<and>
     dtp_step demo_options june_14 (PTyped '' +1w, -2m'') p = Returned q \<and> p_text q = '' +1w, -2m''"
proof -
  obtain p where p: "page_picker demo_options june_14 (june_14 - 2592000000) june_14 = Returned p"
    "picker_ok demo_options (Some 1526371200000) (Some 1528963200000) p"
    using demo_picker by blast
  have "rel_items (trim '' +1w, -2m'') = Some [(1, CHR ''w''), (- 2, CHR ''m'')]" by code_simp
  then have "days_left (sum_list (map rel_days is)) june_14" if "rel_items (trim '' +1w, -2m'') = Some is" for "is"
    using that by (auto simp: days_left_def june_14_def ms_day_def)
  then show ?thesis
    using typed_text_returns [OF p(2), of "'' +1w, -2m''" june_14] p(1) by (auto simp: demo_options_def page_format_def)
qed

text \<open>
  C42. The text \<open>+999999999d +1m\<close> makes the page hang: the first step leaves the range of \<open>Date\<close>, and
  \<open>moveMonth\<close> of an invalid date repeats its loop forever, because \<open>NaN\<close> differs from \<open>NaN\<close>. This
  happens in every picker, whatever its options and its state.
\<close>

theorem relative_text_hangs:
  assumes "\<bar>now\<bar> \<le> 8640000000000000"
  shows "dtp_step c now (PTyped ''+999999999d +1m'') p = Hangs"
proof -
  have "trim ''+999999999d +1m'' = ''+999999999d +1m''" "\<not> hour_minute ''+999999999d +1m''"
    and "rel_item ''+1m'' = Some ((1, CHR ''m''), [])" and nine: "digit_val CHR ''9'' = Some 9" by code_simp+
  moreover have "rel_item ''+999999999d +1m'' = Some ((999999999, CHR ''d''), '' +1m'')"
    by (simp add: rel_item_def digits_def read_nat_def nine)
  ultimately have items: "rel_items ''+999999999d +1m'' = Some [(999999999, CHR ''d''), (1, CHR ''m'')]"
    by (simp add: rel_items.simps is_ws_def)
  have "update_source c now None (p\<lparr>p_text := ''+999999999d +1m''\<rparr>) = (DText ''+999999999d +1m'', False)"
    using \<open>trim ''+999999999d +1m'' = ''+999999999d +1m''\<close> by (simp add: update_source_def)
  moreover have "time_clip (now + 999999999 * ms_day) = None" using assms by (simp add: time_clip_def ms_day_def)
  then have "rel_steps [(999999999, CHR ''d''), (1, CHR ''m'')] (Some now) = Hangs"
    by (simp add: plus_num_def setUTCDate_shift moveMonth_def move_forwards_NaN)
  then have "parseDate now (c_tzo c) (c_format c) (DText ''+999999999d +1m'') = Hangs"
    by (simp add: parseDate_def items)
  ultimately show ?thesis using \<open>\<not> hour_minute ''+999999999d +1m''\<close> by (simp add: dtp_update_def)
qed

theorem relative_text_hangs_witness:
  "\<exists>p. page_picker demo_options june_14 (june_14 - 2592000000) june_14 = Returned p \<and>
     dtp_step demo_options june_14 (PTyped ''+999999999d +1m'') p = Hangs"
  using demo_picker relative_text_hangs [of june_14 demo_options] by (auto simp: june_14_def)

text \<open>
  C43. A minute typed into an open picker is kept whatever the limits: no \<open>changeDate\<close> is announced, so
  the page does not compare the two dates, and leaving the picker keeps the text. With a minute after
  the end of the range the date of the picker is outside its limits.
\<close>

theorem typed_date_unchecked:
  assumes "picker_ok c (Some a) (Some b) p" "page_conf c" "p_visible p"
    and "0 \<le> year_of t" "year_of t \<le> 9999" "b < minute_start t"
  shows "\<exists>q r. dtp_step c now (PTyped (dp_formatDate (c_timezone c) page_format (Some (Some t)))) p = Returned q \<and>
    dtp_step c now POutside q = Returned r \<and> \<not> p_visible r \<and> changes r = changes p \<and>
    p_text r = dp_formatDate (c_timezone c) page_format (Some (Some t)) \<and>
    date_val r = Some (Some (minute_start t)) \<and> num_less (end_val r) (Some (minute_start t))"
proof -
  let ?s = "dp_formatDate (c_timezone c) page_format (Some (Some t))" and ?p = "p\<lparr>p_text := dp_formatDate (c_timezone c) page_format (Some (Some t))\<rparr>"
  have fmt: "c_format c = page_format" "conf_ok c" using assms(2) by (simp_all add: page_conf_def)
  have "read_from c now ?p = DText ?s" using read_from_printed [of ?p "c_timezone c" t c now] assms(4) by simp
  then have parse: "parseDate now (c_tzo c) (c_format c) (read_from c now ?p) = Returned (Some (minute_start t))"
    using parse_printed [OF assms(4,5)] fmt(1) by simp
  define q where "q = updated c (Some (minute_start t)) ?p"
  note u = update_returns [OF assms(1) parse, folded q_def]
  have ok: "picker_ok c (Some a) (Some b) q" using step_ok [OF assms(1) fmt(2) _ u(1)] by simp
  have printed: "?s \<noteq> []" "dp_formatDate (c_timezone c) page_format (Some (Some (minute_start t))) = ?s"
    using page_text_minute [of "minute_start t" t] by (simp_all add: page_text minute_text_def minute_start_def)
  have "p_text (dtp_hide c q) = ?s" "date_val (dtp_hide c q) = Some (Some (minute_start t))"
    using u(2,4,5) assms(3) printed fmt(1) by (simp_all add: dtp_hide_def Let_def setValue_text)
  moreover have "end_val (dtp_hide c q) = Some b" using hide_keeps [of c "Some a" "Some b" q] ok fmt(2) by (simp add: picker_ok_def core_def)
  moreover have "\<not> p_visible (dtp_hide c q)" by (simp add: dtp_hide_def Let_def)
  ultimately show ?thesis using u(1,3) assms(6) by (intro exI [of _ q] exI [of _ "dtp_hide c q"]) (simp add: num_less_def)
qed

theorem typed_date_unchecked_witness:
  "\<exists>p q r. page_picker demo_options june_14 (june_14 - 2592000000) june_14 = Returned p \<and>
     dtp_reach demo_options p q \<and> dtp_step demo_options june_14 POutside q = Returned r \<and>
     p_text r = dp_formatDate ''CST'' page_format (Some (Some 1529488800000)) \<and> num_less (end_val r) (Some 1529488800000)"
proof -
  obtain p w v where w: "page_picker demo_options june_14 (june_14 - 2592000000) june_14 = Returned p"
    "dtp_step demo_options june_14 PFocus p = Returned w" "shows_view demo_options 1526371200000 1528963200000 2 v w"
    using demo_open by blast
  have "year_of 1529488800000 = 2018" by code_simp
  moreover have "page_conf demo_options" "c_timezone demo_options = ''CST''"
    using plain_conf_ok page_options_plain by (simp_all add: demo_options_def)
  ultimately obtain q r where q: "dtp_step demo_options june_14 (PTyped (dp_formatDate ''CST'' page_format (Some (Some 1529488800000)))) w = Returned q"
    and r: "dtp_step demo_options june_14 POutside q = Returned r"
      "p_text r = dp_formatDate ''CST'' page_format (Some (Some 1529488800000))" "num_less (end_val r) (Some 1529488800000)"
    using typed_date_unchecked [of demo_options 1526371200000 1528963200000 w 1529488800000 june_14] w(3)
    by (auto simp: shows_view_def minute_start_def)
  have "dtp_reach demo_options p w" by (rule dtp_reach.event [OF dtp_reach.start _ w(2)]) simp
  then have "dtp_reach demo_options p q" by (rule dtp_reach.event [OF _ _ q]) simp
  with w(1) r show ?thesis by blast
qed

text \<open>
  C44. Moving a date by any number of months ends and gives the date meant: the month that many
  months away, the same time of day, and the same day of the month or the last one of a shorter
  month. The date has to be far enough from the ends of the range of \<open>Date\<close> for the move. A move by
  years is a move by twelve times as many months.
\<close>

theorem moveMonth_clamped:
  assumes "days_left (62 * \<bar>k\<bar> + 93) t"
  shows "\<exists>u. moveMonth (Some t) k = Returned (Some u) \<and> month_index u = month_index t + k \<and>
    u mod ms_day = t mod ms_day \<and>
    date_of_day (day_of u) = min (date_of_day (day_of t)) (month_len (year_of_day (day_of u)) (month_of_day (day_of u)))"
proof -
  have "index_len (month_index u) = month_len (year_of_day (day_of u)) (month_of_day (day_of u))" for u
    by (simp add: index_len_def month_index_fields)
  from this [of "month_shift k t"] show ?thesis
    using moveMonth_shift [OF assms] month_shift_fields [of k t] by simp
qed

text \<open>The 31st of January 2018, at noon, one month on.\<close>

theorem moveMonth_clamped_witness:
  "\<exists>u. moveMonth (Some (minute_time 2018 0 31 12 0)) 1 = Returned (Some u) \<and> date_of_day (day_of u) = 28"
proof -
  let ?t = "minute_time 2018 0 31 12 0"
  have "days_left (62 * \<bar>1\<bar> + 93) ?t" "month_index ?t = 12 * 2018" "date_of_day (day_of ?t) = 31" by code_simp+
  moreover from this obtain u where u: "moveMonth (Some ?t) 1 = Returned (Some u)" "month_index u = month_index ?t + 1"
    "date_of_day (day_of u) = min (date_of_day (day_of ?t)) (month_len (year_of_day (day_of u)) (month_of_day (day_of u)))"
    using moveMonth_clamped [of 1 ?t] by blast
  moreover have "year_of_day (day_of u) = 2018" "month_of_day (day_of u) = 1"
    using u(2) month_index_fields [of u] \<open>month_index ?t = 12 * 2018\<close> by simp_all
  moreover have "month_len 2018 1 = 28" by code_simp
  ultimately show ?thesis by auto
qed

text \<open>
  C45. What the picker prints in the format of the pages it reads back as the same minute, for every
  date of the years 0 to 9999; the format is what \<open>parseFormat\<close> makes of \<open>yyyy-mm-dd hh:ii\<close>.
\<close>

theorem printed_date_read:
  assumes "0 \<le> year_of t" "year_of t \<le> 9999"
  shows "exec_bind (parseFormat ''yyyy-mm-dd hh:ii'') (\<lambda>format.
      parseDate now tzo format (DText (dp_formatDate tz format (Some (Some t))))) = Returned (Some (t - t mod 60000))"
  using parse_printed [OF assms] text_formats(2) by (simp add: minute_start_def page_format_def)

theorem printed_date_read_witness:
  "exec_bind (parseFormat ''yyyy-mm-dd hh:ii'') (\<lambda>format.
     parseDate 0 (\<lambda>_. 0) format (DText (dp_formatDate ''CST'' format (Some (Some 1528963234567))))) =
   Returned (Some 1528963200000)"
proof -
  have "year_of 1528963234567 = 2018" by code_simp
  then show ?thesis using printed_date_read [of 1528963234567 0 "\<lambda>_. 0" "''CST''"] by simp
qed

text \<open>
  C46. An open picker shows six full weeks around the month of its view: 42 days in a row from the
  first day of a week on, each with its day of the month, marked as old before and as new after the
  month on view, and enabled exactly if some moment of the day is between the limits (unless its
  weekday is disabled). All days of the month on view are among them.
\<close>

theorem day_table:
  assumes "picker_ok c (Some a) (Some b) p" "p_visible p" "view_val p = Some v" "a \<le> b"
    and "100 \<le> year_of v" "year_of v \<le> 9999" "0 \<le> c_weekStart c" "c_weekStart c < 7"
  shows "\<exists>s. length (p_days p) = 42 \<and> week_day s = c_weekStart c \<and>
    (\<forall>d. year_of_day d = year_of v \<and> month_of_day d = month_of_day (day_of v) \<longrightarrow> s \<le> d \<and> d < s + 42) \<and>
    (\<forall>k < 42. let x = p_days p ! k; d = s + int k in
       cell_text x = show_int (date_of_day d) \<and>
       (''old'' \<in> set (cell_classes x) \<longleftrightarrow> d < make_day (year_of v) (month_of_day (day_of v)) 1) \<and>
       (''new'' \<in> set (cell_classes x) \<longleftrightarrow>
          make_day (year_of v) (month_of_day (day_of v)) (month_len (year_of v) (month_of_day (day_of v))) < d) \<and>
       (is_disabled x \<longleftrightarrow> \<not> (\<exists>t. day_of t = d \<and> a \<le> t \<and> t \<le> b) \<or> week_day d \<in> set (c_daysOfWeekDisabled c)))"
proof -
  have lim: "start_val p = Some a" "end_val p = Some b" and days: "p_days p = fill_days c p"
    using assms(1,2) by (simp_all add: picker_ok_def core_def drawn_def)
  define n s where "n = month_index v" and "s = table_start c n"
  have base: "make_day (year_of v) (month_of_day (day_of v)) k = month_base n + k" for k
    using make_day_shift [of "year_of v" "month_of_day (day_of v)" 0 k] by (simp add: month_base_def n_def month_index_fields year_of_def)
  have len: "month_len (year_of v) (month_of_day (day_of v)) = index_len n"
    by (simp add: index_len_def n_def month_index_fields year_of_def)
  have cell: "p_days p ! k = shown_cell c p v (s + int k)" if "k < 42" for k
    using fill_days_table [OF assms(3,5,6), of c] that by (simp add: days s_def n_def)
  have month: "s \<le> d \<and> d < s + 42" if "year_of_day d = year_of v \<and> month_of_day d = month_of_day (day_of v)" for d
  proof -
    have "d = month_base n + date_of_day d" using base [of "date_of_day d"] make_day_fields [of d] that by metis
    then show ?thesis using date_range [of d] month_len_bounds [of "year_of_day d" "month_of_day d"]
        table_start_bounds [where c = c and n = n] by (simp add: s_def)
  qed
  have "let x = p_days p ! k; d = s + int k in cell_text x = show_int (date_of_day d) \<and>
       (''old'' \<in> set (cell_classes x) \<longleftrightarrow> d < make_day (year_of v) (month_of_day (day_of v)) 1) \<and>
       (''new'' \<in> set (cell_classes x) \<longleftrightarrow>
          make_day (year_of v) (month_of_day (day_of v)) (month_len (year_of v) (month_of_day (day_of v))) < d) \<and>
       (is_disabled x \<longleftrightarrow> \<not> (\<exists>t. day_of t = d \<and> a \<le> t \<and> t \<le> b) \<or> week_day d \<in> set (c_daysOfWeekDisabled c))"
    if "k < 42" for k
    unfolding Let_def cell [OF that] base len
    using shown_cell_classes [of c v "s + int k" p a b] lim that day_overlaps [OF assms(4), of "s + int k"]
    by (auto simp: s_def n_def)
  moreover have "length (p_days p) = 42" using fill_days_table [OF assms(3,5,6), of c] by (simp add: days)
  moreover have "week_day s = c_weekStart c" using table_start_weekday [OF assms(7,8)] by (simp add: s_def)
  ultimately show ?thesis using month by blast
qed

theorem day_table_witness:
  "\<exists>p q. page_picker demo_options june_14 (june_14 - 2592000000) june_14 = Returned p \<and>
     dtp_reach demo_options p q \<and> p_visible q \<and> length (p_days q) = 42"
proof -
  obtain p q v where q: "page_picker demo_options june_14 (june_14 - 2592000000) june_14 = Returned p"
    "dtp_step demo_options june_14 PFocus p = Returned q" "shows_view demo_options 1526371200000 1528963200000 2 v q"
    "1526371200000 \<le> v" "v \<le> 1528963200000"
    using demo_open by blast
  have "year_of 1526371200000 = 2018" "year_of 1528963200000 = 2018" by code_simp+
  then have "year_of v = 2018" using year_of_mono [OF q(4)] year_of_mono [OF q(5)] by simp
  then have "length (p_days q) = 42"
    using day_table [of demo_options 1526371200000 1528963200000 q v] q(3) by (auto simp: shows_view_def demo_options_def)
  moreover have "dtp_reach demo_options p q" by (rule dtp_reach.event [OF dtp_reach.start _ q(2)]) simp
  ultimately show ?thesis using q(1,3) by (auto simp: shows_view_def)
qed

lemma reach_changes:
  assumes "dtp_reach c p q" "picker_ok c (Some a) (Some b) p" "page_conf c" "limits_ok a b" "list_all (in_limits a b) (changes p)"
  shows "list_all (in_limits a b) (changes q)"
  using assms
proof (induction rule: dtp_reach.induct)
  case (event p q ev now r)
  then have "picker_ok c (Some a) (Some b) q" using dtp_reach_ok by (auto simp: page_conf_def)
  with event show ?case using step_changes [of c a b q ev now r] by auto
qed

lemma limits_years:
  assumes "instant_ok tz s" "instant_ok tz e" "s \<le> e" "100 \<le> year_of (local_seconds tz s)" "year_of (local_seconds tz e) \<le> 9999"
  shows "limits_ok (local_seconds tz s) (local_seconds tz e)"
proof -
  have "(s + tz * 60000) div 1000 \<le> (e + tz * 60000) div 1000" using assms(3) by (intro zdiv_mono1) simp_all
  then have "local_seconds tz s \<le> local_seconds tz e" unfolding local_seconds_def minus_mod_eq_mult_div by simp
  with assms(4,5) show ?thesis by (simp add: limits_ok_def)
qed

text \<open>
  C47. Whatever happens to the picker of a page after its creation (focus, typing, keys, clicks on
  anything it shows, in any order and at any times), its limits stay the local times of the dates the
  page gave, the view mode stays between minutes and decades, and every date announced by
  \<open>changeDate\<close> is between the limits to the minute. The first and the last minute are counted in full.
\<close>

theorem announced_in_limits:
  assumes "page_picker c now s e = Returned p" "dtp_reach c p q" "c = page_options tz nowdate zone handler"
    and "instant_ok tz s" "instant_ok tz e" "s \<noteq> 8639968443048000" "e \<noteq> 8639968443048000" "s \<le> e"
    and "a = local_seconds tz s" "b = local_seconds tz e" "100 \<le> year_of a" "year_of b \<le> 9999"
  shows "start_val q = Some a \<and> end_val q = Some b \<and> 0 \<le> p_viewMode q \<and> p_viewMode q \<le> 4 \<and>
    (\<forall>t. Some (Some t) \<in> set (changes q) \<longrightarrow> minute_start a \<le> t \<and> minute_start t \<le> b)"
proof -
  have conf: "page_conf c" "conf_ok c" "c_minView c = 0" "c_maxView c = 4"
    using page_options_plain [of tz nowdate zone handler] assms(3) by (simp_all add: plain_conf_def page_conf_def)
  have p: "picker_ok c (Some a) (Some b) p" "changes p = []"
    using page_picker_ok [OF assms(4-7) assms(3,9,10), of now] assms(1) by (auto simp: blank_def)
  have "picker_ok c (Some a) (Some b) q" by (rule dtp_reach_ok [OF assms(2) p(1) conf(2)])
  moreover have "limits_ok a b" using limits_years [OF assms(4,5,8)] assms(9-12) by simp
  then have "list_all (in_limits a b) (changes q)" using reach_changes [OF assms(2) p(1) conf(1)] p(2) by simp
  then have "in_limits a b (Some (Some t))" if "Some (Some t) \<in> set (changes q)" for t
    using that by (auto simp: list_all_iff)
  ultimately show ?thesis using conf(3,4) by (auto simp: picker_ok_def core_def in_limits_def)
qed

lemma demo_walk:
  "\<exists>p q t. page_picker demo_options june_14 (june_14 - 2592000000) june_14 = Returned p \<and>
     dtp_reach demo_options p q \<and> changes q \<noteq> [] \<and> last (changes q) = Some (Some t) \<and> minute_start t = 1527849300000"
proof -
  obtain p q v where q: "page_picker demo_options june_14 (june_14 - 2592000000) june_14 = Returned p"
    "dtp_step demo_options june_14 PFocus p = Returned q" "shows_view demo_options 1526371200000 1528963200000 2 v q"
    "1526371200000 \<le> v" "v \<le> 1528963200000" "v mod 1000 = 0"
    using demo_open by (elim exE conjE)
  have "limits_ok 1526371200000 1528963200000" using demo_years by (simp add: limits_ok_def)
  moreover have "plain_conf demo_options" by (simp add: demo_options_def page_options_plain)
  moreover have "c_minuteStep demo_options dvd minute_of 1527849300000" by (simp add: demo_options_def minute_of_def)
  ultimately obtain r t where r: "dtp_reach demo_options q r" "changes r \<noteq> []" "last (changes r) = Some (Some t)"
      "minute_start t = 1527849300000"
    using walk_to_minute [OF q(3) _ _ q(4-6), of 1527849300000] by (auto simp: demo_options_def)
  have "dtp_reach demo_options p q" by (rule dtp_reach.event [OF dtp_reach.start _ q(2)]) simp
  then have "dtp_reach demo_options p r" by (rule reach_trans [OF r(1)])
  with q(1) r(2-4) show ?thesis by blast
qed

theorem announced_in_limits_witness:
  "\<exists>p q t. page_picker demo_options june_14 (june_14 - 2592000000) june_14 = Returned p \<and> dtp_reach demo_options p q \<and>
     Some (Some t) \<in> set (changes q) \<and> minute_start t \<le> 1528963200000 \<and> end_val q = Some 1528963200000"
proof -
  obtain p q t where q: "page_picker demo_options june_14 (june_14 - 2592000000) june_14 = Returned p"
    "dtp_reach demo_options p q" "changes q \<noteq> []" "last (changes q) = Some (Some t)"
    using demo_walk by blast
  have "Some (Some t) \<in> set (changes q)" using q(3,4) last_in_set by metis
  then have "minute_start t \<le> 1528963200000 \<and> end_val q = Some 1528963200000"
    using announced_in_limits [OF q(1,2) demo_options_def demo_range demo_years] by blast
  then show ?thesis using q \<open>Some (Some t) \<in> set (changes q)\<close> by blast
qed

text \<open>
  C48. Every minute mark between the limits of a page's picker can be picked with the mouse: from a
  new picker there is a sequence of events (the focus, arrows to the month, the day, the hour, the
  minute), each on something the picker shows, after which it is closed, its text is the minute and
  the minute was announced last, unless the page's handler puts another text there.
\<close>

theorem every_minute_can_be_picked:
  assumes "c = page_options tz nowdate zone handler" "instant_ok tz s" "instant_ok tz e" "instant_ok tz nowdate"
    and "s \<noteq> 8639968443048000" "e \<noteq> 8639968443048000" "s \<le> e"
    and "a = local_seconds tz s" "b = local_seconds tz e" "100 \<le> year_of a" "year_of b \<le> 9999"
    and "a \<le> m" "m \<le> b" "m mod 300000 = 0" "handler (dp_formatDate zone page_format (Some (Some m))) = None"
  shows "\<exists>p q t. page_picker c now s e = Returned p \<and> dtp_reach c p q \<and> \<not> p_visible q \<and>
    p_text q = dp_formatDate zone page_format (Some (Some m)) \<and>
    changes q \<noteq> [] \<and> last (changes q) = Some (Some t) \<and> minute_start t = m"
proof -
  have conf: "plain_conf c" using page_options_plain assms(1) by simp
  obtain p where p: "page_picker c now s e = Returned p" "blank c (Some a) (Some b) p"
    using page_picker_ok [OF assms(2,3,5,6,1,8,9), of now] by blast
  have sec: "a mod 1000 = 0" "b mod 1000 = 0" by (simp_all add: assms(8,9) local_seconds_def minus_mod_eq_mult_div)
  have clip: "time_clip (c_initialDate c - c_tzo c (c_initialDate c) * 60000) = Some (nowdate + tz * 60000)"
    using assms(4) by (simp add: assms(1) instant_ok_def)
  have lim: "limits_ok a b" using limits_years [OF assms(2,3,7)] assms(8-11) by simp
  then have "a \<le> b" by (simp add: limits_ok_def)
  from focus_step [OF p(2) conf this sec clip, of now]
  obtain q v where q: "dtp_step c now PFocus p = Returned q" "shows_view c a b 2 v q" "a \<le> v" "v \<le> b" "v mod 1000 = 0"
    by (elim exE conjE)
  obtain k where k: "m = (5 * k) * 60000" using assms(14) by (auto simp: mod_eq_0_iff_dvd elim!: dvdE)
  then have "m mod 60000 = 0" by simp
  moreover have "c_minuteStep c dvd minute_of m" by (simp add: k assms(1) minute_of_def dvd_mod)
  ultimately obtain r t where r: "dtp_reach c q r" "\<not> p_visible r" "p_text r = dp_formatDate zone page_format (Some (Some m))"
      "changes r \<noteq> []" "last (changes r) = Some (Some t)" "minute_start t = m"
    using walk_to_minute [OF q(2) conf lim q(3-5) assms(12,13)] assms(15) by (auto simp: assms(1))
  have "dtp_reach c p q" by (rule dtp_reach.event [OF dtp_reach.start _ q(1)]) simp
  then have "dtp_reach c p r" by (rule reach_trans [OF r(1)])
  with p(1) r(2-6) show ?thesis by blast
qed

theorem every_minute_can_be_picked_witness:
  "\<exists>p q. page_picker demo_options june_14 (june_14 - 2592000000) june_14 = Returned p \<and> dtp_reach demo_options p q \<and>
     \<not> p_visible q \<and> p_text q = ''2018-06-01 10:35''"
proof -
  have minute: "1526371200000 \<le> (1527849300000 :: int)" "1527849300000 \<le> (1528963200000 :: int)"
    "1527849300000 mod 300000 = (0 :: int)" by simp_all
  have "year_of 1527849300000 = 2018" "month_of_day (day_of 1527849300000) = 5" "date_of_day (day_of 1527849300000) = 1"
    "hour_of 1527849300000 = 10" "minute_of 1527849300000 = 35" by code_simp+
  then have printed: "dp_formatDate ''CST'' page_format (Some (Some 1527849300000)) = ''2018-06-01 10:35''"
    by (simp add: page_text minute_text_def two_digits_def num_less_def num_str_def show_int_def show_nat.simps
        digit_char_def digits_def)
  from every_minute_can_be_picked [OF demo_options_def demo_range(1,2,2-7) demo_years minute refl, of june_14]
  show ?thesis unfolding printed by (elim exE conjE) (intro exI conjI)
qed

end
